(* ===== verification/Prelude.thy ===== *)
theory Prelude
  imports Main
begin

text \<open>
  The part every component theory shares: the collections of simplification and
  introduction rules the proofs draw on, and generic facts about lists, association lists,
  options and sums over lists.

  \<^item> \<open>wp_intro\<close>: introduction rules of the weakest-precondition calculus of \<open>SqlTx\<close>, one for
    each way a database operation is put together;
  \<^item> \<open>op_wp\<close>: the specifications of the repository operations in that calculus;
  \<^item> \<open>model_defs\<close>: definitions a component proof unfolds together.
\<close>

named_theorems wp_intro
named_theorems op_wp
named_theorems model_defs

subsection \<open>First matching row\<close>

lemma find_SomeD: "find P xs = Some x \<Longrightarrow> x \<in> set xs \<and> P x"
  by (auto simp: find_Some_iff in_set_conv_nth)

lemma find_NoneD: "find P xs = None \<Longrightarrow> x \<in> set xs \<Longrightarrow> \<not> P x"
  by (auto simp: find_None_iff)

lemma find_append:
  "find P (xs @ ys) = (case find P xs of Some x \<Rightarrow> Some x | None \<Rightarrow> find P ys)"
  by (induction xs) auto

lemma find_map_same:
  assumes "\<And>x. x \<in> set xs \<Longrightarrow> P (f x) = P x"
  shows "find P (map f xs) = map_option f (find P xs)"
  using assms by (induction xs) auto

lemma find_unique:
  assumes "x \<in> set xs" "P x" "\<And>y. y \<in> set xs \<Longrightarrow> P y \<Longrightarrow> y = x"
  shows "find P xs = Some x"
proof (cases "find P xs")
  case None
  with assms(1,2) show ?thesis by (blast dest: find_NoneD)
next
  case (Some y)
  with assms(3) show ?thesis by (blast dest: find_SomeD)
qed

subsection \<open>Lists with distinct keys\<close>

lemma distinct_key_eq:
  "distinct (map f xs) \<Longrightarrow> x \<in> set xs \<Longrightarrow> y \<in> set xs \<Longrightarrow> f x = f y \<Longrightarrow> x = y"
  by (induction xs) (auto simp: image_iff)

lemma filter_find_key:
  assumes "distinct (map k xs)" "\<And>x. Q x \<Longrightarrow> k x = c"
  shows "filter (\<lambda>x. Q x \<and> P x) xs = (case find Q xs of None \<Rightarrow> [] | Some x \<Rightarrow> if P x then [x] else [])"
  using assms(1)
proof (induction xs)
  case (Cons x xs)
  show ?case
  proof (cases "Q x")
    case True
    with assms(2) Cons.prems have "\<not> Q y" if "y \<in> set xs" for y
      using that by (force simp: image_iff)
    with True show ?thesis by (auto simp: filter_empty_conv)
  next
    case False
    with Cons show ?thesis by simp
  qed
qed simp

lemma map_key_same:
  assumes "\<And>x. x \<in> set xs \<Longrightarrow> k (f x) = k x"
  shows "map k (map f xs) = map k xs"
  using assms by simp

lemma map_if_fixed:
  "(\<And>x. x \<in> set xs \<Longrightarrow> \<not> P x) \<Longrightarrow> map (\<lambda>x. if P x then f x else x) xs = xs"
  by (induction xs) auto

lemma map_of_map_keys: "map_of (map (\<lambda>k. (k, g k)) ks) k = (if k \<in> set ks then Some (g k) else None)"
  by (induction ks) auto

lemma map_of_rev_distinct:
  "distinct (map fst xs) \<Longrightarrow> map_of (rev xs) = map_of xs"
  by (rule map_of_eqI) (auto simp: map_of_eq_Some_iff rev_map [symmetric])

lemma distinct_filter_drop:
  assumes "distinct xs"
  shows "filter (\<lambda>x. x \<notin> set (take n xs)) xs = drop n xs"
proof -
  have "filter (\<lambda>x. x \<notin> set (take n xs)) (take n xs @ drop n xs) = drop n xs"
    using set_take_disj_set_drop_if_distinct [OF assms, of n n] by (simp only: filter_append) (auto simp: filter_empty_conv filter_id_conv)
  then show ?thesis by simp
qed

lemma list_all2_source: "list_all2 P xs ys \<Longrightarrow> y \<in> set ys \<Longrightarrow> \<exists>x \<in> set xs. P x y"
  by (induction rule: list_all2_induct) auto

lemma list_all2_target: "list_all2 P xs ys \<Longrightarrow> x \<in> set xs \<Longrightarrow> \<exists>y \<in> set ys. P x y"
  by (induction rule: list_all2_induct) auto

subsection \<open>Sums over filtered lists\<close>

definition sum_where :: "('a \<Rightarrow> bool) \<Rightarrow> ('a \<Rightarrow> int) \<Rightarrow> 'a list \<Rightarrow> int" where
  "sum_where P f xs = sum_list (map f (filter P xs))"

lemma sum_where_Nil [simp]: "sum_where P f [] = 0"
  by (simp add: sum_where_def)

lemma sum_where_Cons [simp]:
  "sum_where P f (x # xs) = (if P x then f x else 0) + sum_where P f xs"
  by (simp add: sum_where_def)

lemma sum_where_append [simp]: "sum_where P f (xs @ ys) = sum_where P f xs + sum_where P f ys"
  by (simp add: sum_where_def)

lemma sum_where_nonneg: "(\<And>x. x \<in> set xs \<Longrightarrow> 0 \<le> f x) \<Longrightarrow> 0 \<le> sum_where P f xs"
  by (induction xs) auto

lemma sum_where_ge_member:
  assumes "\<And>x. x \<in> set xs \<Longrightarrow> 0 \<le> f x" and "y \<in> set xs" "P y"
  shows "f y \<le> sum_where P f xs"
  using assms
proof (induction xs)
  case Nil
  then show ?case by simp
next
  case (Cons x xs)
  then show ?case
    using sum_where_nonneg [of xs f P] by (cases "y = x") (auto, fastforce)
qed

text \<open>Dropping one row of a table with a unique key from the sum.\<close>

lemma sum_where_map_out:
  assumes "distinct (map k xs)" "y \<in> set xs" "P y" "\<not> P (g y)"
  shows "sum_where P f (map (\<lambda>x. if k x = k y then g x else x) xs) = sum_where P f xs - f y"
  using assms
proof (induction xs)
  case Nil
  then show ?case by simp
next
  case (Cons x xs)
  show ?case
  proof (cases "k x = k y")
    case True
    with Cons.prems have "x = y"
      by (auto simp: image_iff dest: sym)
    moreover have "map (\<lambda>x. if k x = k y then g x else x) xs = xs"
      using Cons.prems(1) True by (intro map_if_fixed) (auto simp: image_iff dest: sym)
    ultimately show ?thesis using Cons.prems by simp
  next
    case False
    with Cons show ?thesis by auto
  qed
qed

subsection \<open>Sum values\<close>

lemma case_sum_eq_Inr:
  "(case r of Inl e \<Rightarrow> Inl e | Inr x \<Rightarrow> f x) = Inr y \<longleftrightarrow> (\<exists>x. r = Inr x \<and> f x = Inr y)"
  by (cases r) auto

end
