(* ===== verification/GoRuntime.thy ===== *)
theory GoRuntime
  imports Prelude
begin

text \<open>
  What the services use of Go itself: \<open>error\<close> values with the unwrapping that \<open>errors.Is\<close>
  and \<open>errors.As\<close> do, 64-bit signed arithmetic, and decimal formatting of unsigned
  integers (\<open>strconv.FormatUint\<close>).  Go's \<open>uint\<close> is a \<open>nat\<close> here and its \<open>int\<close>/\<open>int64\<close> an
  \<open>int\<close>; where a value can leave the 64-bit range, the wrap-around (\<open>wrap64\<close>) or the
  range check is written out.
\<close>

subsection \<open>Errors\<close>

text \<open>The gRPC status codes the code names (google.golang.org/grpc/codes).\<close>

datatype grpc_code =
  CodeCanceled | CodeUnknown | CodeDeadlineExceeded | CodeNotFound | CodeAlreadyExists
| CodeResourceExhausted | CodeInternal | CodeUnavailable | CodeOther nat

text \<open>
  One constructor for each kind of error value the code creates, compares with or looks for.
  \<open>Wrapped m e\<close> is \<open>fmt.Errorf("m: %w", e)\<close>.
\<close>

datatype go_error =
  ErrRecordNotFound
| MySQLError nat
| CodeError int string
| GrpcStatus grpc_code string
| ErrMiss
| ErrBreakerOpen
| CtxCanceled
| CtxDeadlineExceeded
| JsonError string
| PlainError string
| Wrapped string go_error

text \<open>\<open>errors.Is(err, target)\<close>: some error in the chain is the target.\<close>

fun errors_is :: "go_error \<Rightarrow> go_error \<Rightarrow> bool" where
  "errors_is (Wrapped m e) target = (Wrapped m e = target \<or> errors_is e target)"
| "errors_is e target = (e = target)"

text \<open>\<open>errors.As(err, &myErr)\<close> for \<open>*mysql.MySQLError\<close>: the number of the first one in the chain.\<close>

fun errors_as_mysql :: "go_error \<Rightarrow> nat option" where
  "errors_as_mysql (Wrapped m e) = errors_as_mysql e"
| "errors_as_mysql (MySQLError n) = Some n"
| "errors_as_mysql _ = None"

text \<open>\<open>status.FromError(err)\<close>: the status of an error that is, or wraps, a gRPC status.\<close>

fun status_from_error :: "go_error \<Rightarrow> grpc_code option" where
  "status_from_error (Wrapped m e) = status_from_error e"
| "status_from_error (GrpcStatus c m) = Some c"
| "status_from_error _ = None"

lemma errors_is_refl [simp]: "errors_is e e"
  by (cases e) auto

subsection \<open>64-bit signed integers\<close>

definition wrap64 :: "int \<Rightarrow> int" where
  "wrap64 x = (x + 2 ^ 63) mod 2 ^ 64 - 2 ^ 63"

definition in_int64 :: "int \<Rightarrow> bool" where
  "in_int64 x \<longleftrightarrow> - (2 ^ 63) \<le> x \<and> x < 2 ^ 63"

lemma wrap64_range: "in_int64 (wrap64 x)"
proof -
  have "0 \<le> (x + 2 ^ 63) mod 2 ^ 64" and "(x + 2 ^ 63) mod 2 ^ 64 < 2 ^ 64"
    by simp_all
  then show ?thesis by (simp add: wrap64_def in_int64_def)
qed

lemma wrap64_id: "in_int64 x \<Longrightarrow> wrap64 x = x"
  by (simp add: wrap64_def in_int64_def)

subsection \<open>Decimal text\<close>

definition digit_char :: "nat \<Rightarrow> char" where
  "digit_char d = char_of (48 + d)"

fun format_uint :: "nat \<Rightarrow> string" where
  "format_uint n =
     (if n < 10 then [digit_char n] else format_uint (n div 10) @ [digit_char (n mod 10)])"

declare format_uint.simps [simp del]

definition digit_value :: "char \<Rightarrow> nat option" where
  "digit_value c = (let v = of_char c in if 48 \<le> v \<and> v \<le> 57 then Some (v - 48) else None)"

text \<open>
  The value of a string of decimal digits, \<open>None\<close> for an empty string or another character:
  the syntax \<open>strconv.ParseUint(s, 10, _)\<close> accepts.
\<close>

fun digits_value :: "nat \<Rightarrow> string \<Rightarrow> nat option" where
  "digits_value acc [] = Some acc"
| "digits_value acc (c # cs) =
     (case digit_value c of None \<Rightarrow> None | Some d \<Rightarrow> digits_value (10 * acc + d) cs)"

definition parse_digits :: "string \<Rightarrow> nat option" where
  "parse_digits s = (if s = [] then None else digits_value 0 s)"

lemma digit_value_char [simp]: "d < 10 \<Longrightarrow> digit_value (digit_char d) = Some d"
  by (simp add: digit_value_def digit_char_def Let_def)

lemma digits_value_append:
  "digits_value acc (xs @ ys) =
     (case digits_value acc xs of None \<Rightarrow> None | Some a \<Rightarrow> digits_value a ys)"
  by (induction acc xs rule: digits_value.induct) (auto split: option.splits)

lemma format_uint_nonempty: "format_uint n \<noteq> []"
  by (subst format_uint.simps) simp

lemma digits_value_format: "digits_value 0 (format_uint n) = Some n"
proof (induction n rule: format_uint.induct)
  case (1 n)
  show ?case
  proof (cases "n < 10")
    case True
    then show ?thesis by (subst format_uint.simps) simp
  next
    case False
    with 1 show ?thesis by (subst format_uint.simps) (simp add: digits_value_append)
  qed
qed

lemma format_uint_digits: "c \<in> set (format_uint n) \<Longrightarrow> \<exists>d < 10. c = digit_char d"
proof (induction n rule: format_uint.induct)
  case (1 n)
  then show ?case
    by (subst (asm) (2) format_uint.simps) (auto split: if_splits intro: exI [of _ "n mod 10"])
qed

lemma format_uint_hd:
  obtains c cs where "format_uint n = c # cs" "digit_value c \<noteq> None" "c \<noteq> CHR ''-''" "c \<noteq> CHR ''+''" "c \<noteq> CHR ''.''"
proof -
  obtain c cs where c: "format_uint n = c # cs" using format_uint_nonempty by (cases "format_uint n") auto
  with format_uint_digits [of c n] obtain d where "d < 10" "c = digit_char d" by auto
  with digit_value_char [of d] have "digit_value c \<noteq> None" by simp
  moreover from this have "c \<noteq> CHR ''-''" "c \<noteq> CHR ''+''" "c \<noteq> CHR ''.''" by (auto simp: digit_value_def)
  ultimately show thesis using that c by blast
qed

lemma parse_format_uint: "parse_digits (format_uint n) = Some n"
  by (simp add: parse_digits_def format_uint_nonempty digits_value_format)

lemma format_uint_inj: "format_uint m = format_uint n \<longleftrightarrow> m = n"
  by (metis option.inject parse_format_uint)

text \<open>
  \<open>strconv.Atoi\<close>: an optional sign and decimal digits that fit 64 bits; \<open>None\<close> is the error.
\<close>

definition go_atoi :: "string \<Rightarrow> int option" where
  "go_atoi s =
     (let (neg, ds) = (case s of [] \<Rightarrow> (False, [])
                       | c # cs \<Rightarrow> if c = CHR ''-'' then (True, cs)
                                  else if c = CHR ''+'' then (False, cs) else (False, s))
      in case parse_digits ds of
           None \<Rightarrow> None
         | Some n \<Rightarrow> let v = (if neg then - int n else int n) in if in_int64 v then Some v else None)"

text \<open>\<open>strconv.ParseUint(s, 10, 64)\<close>\<close>

definition parse_uint64 :: "string \<Rightarrow> nat option" where
  "parse_uint64 s =
     (case parse_digits s of None \<Rightarrow> None | Some n \<Rightarrow> if n < 2 ^ 64 then Some n else None)"

lemma parse_uint64_format [simp]: "parse_uint64 (format_uint n) = (if n < 2 ^ 64 then Some n else None)"
  by (simp add: parse_uint64_def parse_format_uint)

subsection \<open>Network addresses\<close>

text \<open>\<open>net.JoinHostPort\<close>: an IPv6 address gets brackets.\<close>

definition join_host_port :: "string \<Rightarrow> string \<Rightarrow> string" where
  "join_host_port host p =
     (if CHR '':'' \<in> set host then ''['' @ host @ '']:'' @ p else host @ '':'' @ p)"

text \<open>The text before and after the first, or the last, occurrence of a character.\<close>

fun cut_first :: "char \<Rightarrow> string \<Rightarrow> (string \<times> string) option" where
  "cut_first c [] = None"
| "cut_first c (x # xs) =
     (if x = c then Some ([], xs) else case cut_first c xs of None \<Rightarrow> None | Some (a, b) \<Rightarrow> Some (x # a, b))"

fun cut_last :: "char \<Rightarrow> string \<Rightarrow> (string \<times> string) option" where
  "cut_last c [] = None"
| "cut_last c (x # xs) =
     (case cut_last c xs of Some (a, b) \<Rightarrow> Some (x # a, b) | None \<Rightarrow> if x = c then Some ([], xs) else None)"

text \<open>
  \<open>net.SplitHostPort\<close>; \<open>None\<close> is its error.  A host in brackets must be followed by the last colon, a bare
  host has no colon, and there are no other brackets.
\<close>

definition split_host_port :: "string \<Rightarrow> (string \<times> string) option" where
  "split_host_port s =
     (case cut_last (CHR '':'') s of
        None \<Rightarrow> None
      | Some (before, p) \<Rightarrow>
          if hd s = CHR ''['' then
            (case cut_first (CHR '']'') (tl s) of
               None \<Rightarrow> None
             | Some (host, rest) \<Rightarrow>
                 if rest = CHR '':'' # p \<and> CHR ''['' \<notin> set (tl s) \<and> CHR '']'' \<notin> set rest then Some (host, p) else None)
          else if CHR '':'' \<in> set before \<or> CHR ''['' \<in> set s \<or> CHR '']'' \<in> set s then None
          else Some (before, p))"

lemma cut_first_absent: "cut_first c xs = None \<longleftrightarrow> c \<notin> set xs"
  by (induction xs) (auto split: option.splits)

lemma cut_last_absent: "cut_last c xs = None \<longleftrightarrow> c \<notin> set xs"
  by (induction xs) (auto split: option.splits if_splits)

lemma cut_first_append: "c \<notin> set xs \<Longrightarrow> cut_first c (xs @ c # ys) = Some (xs, ys)"
  by (induction xs) auto

lemma cut_last_append: "c \<notin> set ys \<Longrightarrow> cut_last c (xs @ c # ys) = Some (xs, ys)"
  using cut_last_absent [of c ys] by (induction xs) auto

lemma split_join_host_port:
  assumes "CHR ''['' \<notin> set host" "CHR '']'' \<notin> set host"
    and "CHR '':'' \<notin> set p" "CHR ''['' \<notin> set p" "CHR '']'' \<notin> set p"
  shows "split_host_port (join_host_port host p) = Some (host, p)"
proof (cases "CHR '':'' \<in> set host")
  case True
  with assms cut_last_append [OF assms(3), of "''['' @ host @ '']''"] cut_first_append [OF assms(2), of "CHR '':'' # p"]
  show ?thesis by (simp add: split_host_port_def join_host_port_def)
next
  case False
  have "hd (host @ CHR '':'' # p) \<noteq> CHR ''[''" using assms(1) by (cases host) auto
  with False assms cut_last_append [OF assms(3), of host] show ?thesis
    by (simp add: split_host_port_def join_host_port_def)
qed

text \<open>\<open>strings.TrimSpace\<close> on ASCII text.\<close>

definition is_space :: "char \<Rightarrow> bool" where
  "is_space c \<longleftrightarrow> (let n = of_char c :: nat in n = 32 \<or> 9 \<le> n \<and> n \<le> 13)"

definition trim_space :: "string \<Rightarrow> string" where
  "trim_space s = rev (dropWhile is_space (rev (dropWhile is_space s)))"

text \<open>\<open>strings.Contains\<close>\<close>

fun str_contains :: "string \<Rightarrow> string \<Rightarrow> bool" where
  "str_contains sub [] = (sub = [])"
| "str_contains sub (c # cs) = (take (length sub) (c # cs) = sub \<or> str_contains sub cs)"

end
