(* ===== verification/SqlTx.thy ===== *)
theory SqlTx
  imports GoRuntime
begin

text \<open>
  How the services talk to their MySQL database through GORM.  A database operation is a
  function on a \<open>session\<close>: the data, what the driver will answer to the next statements, and
  the messages published while the operation runs (which no rollback takes back).

  The driver's answers are an input: each statement, each \<open>BEGIN\<close> and each \<open>COMMIT\<close> takes the
  next \<open>reply\<close> of the schedule, so a statement can fail at any point (deadlock 1213, lock wait
  timeout 1205, a lost connection), and a commit can be applied although its reply is lost.
  When the schedule is used up, everything runs.  A transaction that returns an error leaves
  the data as it was.  Transactions are atomic steps here: isolation between two transactions
  is InnoDB's, and reads that the code makes before it opens its transaction are separate
  operations.
\<close>

subsection \<open>Sessions and replies\<close>

datatype driver_fault = MySQLFault nat | ConnFault string

fun fault_error :: "driver_fault \<Rightarrow> go_error" where
  "fault_error (MySQLFault n) = MySQLError n"
| "fault_error (ConnFault m) = PlainError m"

datatype reply = Runs | Fails driver_fault | Lost driver_fault

record ('db, 'm) session =
  db :: 'db
  sched :: "reply list"
  wire :: "'m list"

type_synonym ('db, 'm, 'a) tx = "('db, 'm) session \<Rightarrow> (go_error + 'a) \<times> ('db, 'm) session"

definition next_reply :: "('db, 'm) session \<Rightarrow> reply \<times> ('db, 'm) session" where
  "next_reply s = (case sched s of [] \<Rightarrow> (Runs, s) | r # rs \<Rightarrow> (r, s\<lparr>sched := rs\<rparr>))"

subsection \<open>Combinators\<close>

definition ret :: "'a \<Rightarrow> ('db, 'm, 'a) tx" where
  "ret a s = (Inr a, s)"

definition throw :: "go_error \<Rightarrow> ('db, 'm, 'a) tx" where
  "throw e s = (Inl e, s)"

definition bind_tx :: "('db, 'm, 'a) tx \<Rightarrow> ('a \<Rightarrow> ('db, 'm, 'b) tx) \<Rightarrow> ('db, 'm, 'b) tx" where
  "bind_tx t f s = (case t s of (Inl e, s1) \<Rightarrow> (Inl e, s1) | (Inr a, s1) \<Rightarrow> f a s1)"

text \<open>The error as a value, for code that looks at it and goes on.\<close>

definition try_tx :: "('db, 'm, 'a) tx \<Rightarrow> ('db, 'm, go_error + 'a) tx" where
  "try_tx t s = (case t s of (r, s1) \<Rightarrow> (Inr r, s1))"

definition lift_err :: "go_error + 'a \<Rightarrow> ('db, 'm, 'a) tx" where
  "lift_err r s = (r, s)"

text \<open>One SQL statement.\<close>

definition stmt :: "('db \<Rightarrow> (go_error + 'a) \<times> 'db) \<Rightarrow> ('db, 'm, 'a) tx" where
  "stmt f s = (case next_reply s of
       (Runs, s1) \<Rightarrow> (case f (db s1) of (r, d) \<Rightarrow> (r, s1\<lparr>db := d\<rparr>))
     | (Fails e, s1) \<Rightarrow> (Inl (fault_error e), s1)
     | (Lost e, s1) \<Rightarrow> (Inl (fault_error e), s1))"

definition query :: "('db \<Rightarrow> go_error + 'a) \<Rightarrow> ('db, 'm, 'a) tx" where
  "query f = stmt (\<lambda>d. (f d, d))"

text \<open>
  \<open>db.Transaction(func(tx) error)\<close>: \<open>BEGIN\<close>, the body, then \<open>COMMIT\<close>, or \<open>ROLLBACK\<close> when the
  body returns an error.
\<close>

definition transaction :: "('db, 'm, 'a) tx \<Rightarrow> ('db, 'm, 'a) tx" where
  "transaction body s = (case next_reply s of
       (Fails e, s0) \<Rightarrow> (Inl (fault_error e), s0)
     | (Lost e, s0) \<Rightarrow> (Inl (fault_error e), s0)
     | (Runs, s0) \<Rightarrow>
         (case body s0 of
            (Inl e, s1) \<Rightarrow> (Inl e, s1\<lparr>db := db s\<rparr>)
          | (Inr a, s1) \<Rightarrow>
              (case next_reply s1 of
                 (Runs, s2) \<Rightarrow> (Inr a, s2)
               | (Fails e, s2) \<Rightarrow> (Inl (fault_error e), s2\<lparr>db := db s\<rparr>)
               | (Lost e, s2) \<Rightarrow> (Inl (fault_error e), s2))))"

text \<open>
  \<open>db.Begin()\<close> and \<open>tx.Commit()\<close> written out, with errors of the caller's own for a
  \<open>BEGIN\<close> and a \<open>COMMIT\<close> that fail.
\<close>

definition transaction_as ::
  "(driver_fault \<Rightarrow> go_error) \<Rightarrow> (driver_fault \<Rightarrow> go_error) \<Rightarrow> ('db, 'm, 'a) tx \<Rightarrow> ('db, 'm, 'a) tx" where
  "transaction_as begin_err commit_err body s = (case next_reply s of
       (Fails e, s0) \<Rightarrow> (Inl (begin_err e), s0)
     | (Lost e, s0) \<Rightarrow> (Inl (begin_err e), s0)
     | (Runs, s0) \<Rightarrow>
         (case body s0 of
            (Inl e, s1) \<Rightarrow> (Inl e, s1\<lparr>db := db s\<rparr>)
          | (Inr a, s1) \<Rightarrow>
              (case next_reply s1 of
                 (Runs, s2) \<Rightarrow> (Inr a, s2)
               | (Fails e, s2) \<Rightarrow> (Inl (commit_err e), s2\<lparr>db := db s\<rparr>)
               | (Lost e, s2) \<Rightarrow> (Inl (commit_err e), s2))))"

lemma transaction_as_fault: "transaction = transaction_as fault_error fault_error"
  by (simp add: transaction_def transaction_as_def fun_eq_iff)

text \<open>A single write outside an explicit transaction: GORM wraps it in one of its own.\<close>

definition autocommit :: "('db \<Rightarrow> (go_error + 'a) \<times> 'db) \<Rightarrow> ('db, 'm, 'a) tx" where
  "autocommit f = transaction (stmt f)"

definition exec_tx :: "('db, 'm, 'a) tx \<Rightarrow> reply list \<Rightarrow> 'db \<Rightarrow> (go_error + 'a) \<times> 'db" where
  "exec_tx t rs d = (case t \<lparr>db = d, sched = rs, wire = []\<rparr> of (r, s) \<Rightarrow> (r, db s))"

subsection \<open>Rows\<close>

definition first_row :: "('r \<Rightarrow> bool) \<Rightarrow> 'r list \<Rightarrow> go_error + 'r" where
  "first_row p rows = (case find p rows of None \<Rightarrow> Inl ErrRecordNotFound | Some r \<Rightarrow> Inr r)"

text \<open>
  \<open>UPDATE ... SET f WHERE p\<close>: the new rows, and the affected rows as the MySQL driver
  reports them without \<open>clientFoundRows\<close>, the rows the statement really changed.
\<close>

definition update_rows :: "('r \<Rightarrow> bool) \<Rightarrow> ('r \<Rightarrow> 'r) \<Rightarrow> 'r list \<Rightarrow> 'r list \<times> nat" where
  "update_rows p f rows =
     (map (\<lambda>r. if p r then f r else r) rows, length (filter (\<lambda>r. p r \<and> f r \<noteq> r) rows))"

lemma first_row_Inr: "first_row p rows = Inr r \<longleftrightarrow> find p rows = Some r"
  by (auto simp: first_row_def split: option.splits)

lemma first_row_Inl: "first_row p rows = Inl e \<longleftrightarrow> find p rows = None \<and> e = ErrRecordNotFound"
  by (auto simp: first_row_def split: option.splits)

lemma first_row_member: "first_row p rows = Inr r \<Longrightarrow> r \<in> set rows \<and> p r"
  by (auto simp: first_row_Inr dest: find_SomeD)

lemma snd_update_rows_0:
  "snd (update_rows p f rows) = 0 \<Longrightarrow> fst (update_rows p f rows) = rows"
  by (induction rows) (auto simp: update_rows_def split: if_splits)

text \<open>
  An update guarded by a unique key changes one row, or none, and the count says which.
\<close>

lemma update_rows_keyed:
  assumes "distinct (map k rows)" and p: "\<And>r. p r \<Longrightarrow> k r = i" and f: "\<And>r. p r \<Longrightarrow> f r \<noteq> r"
  shows "update_rows p f rows =
    (if \<exists>r \<in> set rows. p r then (map (\<lambda>r. if k r = i then f r else r) rows, 1) else (rows, 0))"
  using assms(1)
proof (induction rows)
  case Nil
  then show ?case by (simp add: update_rows_def)
next
  case (Cons x rows)
  show ?case
  proof (cases "k x = i")
    case True
    then have "k r \<noteq> i" if "r \<in> set rows" for r
      using Cons.prems that by (auto simp: image_iff)
    moreover from this have "\<not> p r" if "r \<in> set rows" for r
      using p that by blast
    ultimately show ?thesis
      using True f by (auto simp: update_rows_def map_idI filter_empty_conv)
  next
    case False
    with p have "\<not> p x" by blast
    with Cons False show ?thesis
      by (cases "\<exists>r \<in> set rows. p r") (simp_all add: update_rows_def)
  qed
qed

subsection \<open>Weakest preconditions\<close>

text \<open>
  \<open>holds t d w Q\<close>: started on data \<open>d\<close> with messages \<open>w\<close> published, and whatever the driver
  replies, \<open>t\<close> ends with a result, data and messages that satisfy \<open>Q\<close>.
\<close>

definition holds ::
  "('db, 'm, 'a) tx \<Rightarrow> 'db \<Rightarrow> 'm list \<Rightarrow> (go_error + 'a \<Rightarrow> 'db \<Rightarrow> 'm list \<Rightarrow> bool) \<Rightarrow> bool" where
  "holds t d w Q \<longleftrightarrow>
     (\<forall>rs. case t \<lparr>db = d, sched = rs, wire = w\<rparr> of (r, s) \<Rightarrow> Q r (db s) (wire s))"

definition is_fault :: "go_error \<Rightarrow> bool" where
  "is_fault e \<longleftrightarrow> (\<exists>f. e = fault_error f)"

lemma is_fault_fault_error [simp]: "is_fault (fault_error f)"
  by (auto simp: is_fault_def)

lemma not_fault [simp]:
  "\<not> is_fault ErrRecordNotFound" "\<not> is_fault (CodeError c m)" "\<not> is_fault (JsonError j)"
  "\<not> is_fault ErrMiss" "\<not> is_fault (GrpcStatus g m)" "\<not> is_fault (Wrapped m e)"
  by (auto simp: is_fault_def elim: fault_error.elims [OF sym])

lemma fault_not_found: "is_fault e \<Longrightarrow> \<not> errors_is e ErrRecordNotFound"
  by (auto simp: is_fault_def elim!: fault_error.elims [OF sym])

lemma fault_ne:
  "is_fault e \<Longrightarrow> e \<noteq> ErrRecordNotFound" "is_fault e \<Longrightarrow> e \<noteq> CodeError c m"
  by auto

lemma holds_sessionD:
  assumes "holds t d w Q" and "t s = (r, s')" and "db s = d" "wire s = w"
  shows "Q r (db s') (wire s')"
proof -
  have "s = \<lparr>db = d, sched = sched s, wire = w\<rparr>"
    using assms(3,4) by simp
  then have "t \<lparr>db = d, sched = sched s, wire = w\<rparr> = (r, s')"
    using assms(2) by simp
  then show ?thesis
    using assms(1) unfolding holds_def by (metis (mono_tags, lifting) case_prod_conv)
qed

lemma holds_exec:
  "holds t d [] Q \<Longrightarrow> exec_tx t rs d = (r, d') \<Longrightarrow> \<exists>w. Q r d' w"
  unfolding exec_tx_def
  by (fastforce split: prod.splits dest: holds_sessionD)

lemma holds_conseq:
  "holds t d w P \<Longrightarrow> (\<And>r d' w'. P r d' w' \<Longrightarrow> Q r d' w') \<Longrightarrow> holds t d w Q"
  unfolding holds_def by (auto split: prod.splits)

lemma holds_conj:
  "holds t d w P \<Longrightarrow> holds t d w Q \<Longrightarrow> holds t d w (\<lambda>r d' w'. P r d' w' \<and> Q r d' w')"
  unfolding holds_def by (auto split: prod.splits)

lemma next_reply_data:
  "next_reply s = (r, s') \<Longrightarrow> db s' = db s \<and> wire s' = wire s"
  by (auto simp: next_reply_def split: list.splits)

lemma holds_ret [wp_intro]: "Q (Inr a) d w \<Longrightarrow> holds (ret a) d w Q"
  by (simp add: holds_def ret_def)

lemma holds_throw [wp_intro]: "Q (Inl e) d w \<Longrightarrow> holds (throw e) d w Q"
  by (simp add: holds_def throw_def)

lemma holds_lift_err [wp_intro]: "Q r d w \<Longrightarrow> holds (lift_err r) d w Q"
  by (simp add: holds_def lift_err_def)

lemma holds_bind [wp_intro]:
  assumes "holds t d w (\<lambda>r d' w'. case r of Inl e \<Rightarrow> Q (Inl e) d' w' | Inr a \<Rightarrow> holds (f a) d' w' Q)"
  shows "holds (bind_tx t f) d w Q"
  unfolding holds_def bind_tx_def
proof (intro allI)
  fix rs
  obtain r s1 where t: "t \<lparr>db = d, sched = rs, wire = w\<rparr> = (r, s1)"
    by (cases "t \<lparr>db = d, sched = rs, wire = w\<rparr>")
  from holds_sessionD [OF assms t] have
    "case r of Inl e \<Rightarrow> Q (Inl e) (db s1) (wire s1) | Inr a \<Rightarrow> holds (f a) (db s1) (wire s1) Q"
    by simp
  then show "case (case t \<lparr>db = d, sched = rs, wire = w\<rparr> of
      (Inl e, s1) \<Rightarrow> (Inl e, s1) | (Inr a, s1) \<Rightarrow> f a s1) of (r, s) \<Rightarrow> Q r (db s) (wire s)"
    by (auto simp: t split: sum.splits prod.splits dest: holds_sessionD)
qed

lemma holds_try [wp_intro]:
  "holds t d w (\<lambda>r d' w'. Q (Inr r) d' w') \<Longrightarrow> holds (try_tx t) d w Q"
  by (auto simp: holds_def try_tx_def split: prod.splits)

lemma holds_stmt [wp_intro]:
  assumes "\<And>e. is_fault e \<Longrightarrow> Q (Inl e) d w" and "case f d of (r, d') \<Rightarrow> Q r d' w"
  shows "holds (stmt f) d w Q"
  unfolding holds_def stmt_def
  using assms by (auto simp: next_reply_def split: list.splits reply.splits prod.splits)

lemma holds_query [wp_intro]:
  "(\<And>e. is_fault e \<Longrightarrow> Q (Inl e) d w) \<Longrightarrow> Q (f d) d w \<Longrightarrow> holds (query f) d w Q"
  unfolding query_def by (rule holds_stmt) auto

lemma holds_transaction_as:
  assumes begin_fails: "\<And>f. Q (Inl (begin_err f)) d w"
    and body: "holds body d w (\<lambda>r d' w'. case r of
        Inl e \<Rightarrow> Q (Inl e) d w'
      | Inr a \<Rightarrow> Q (Inr a) d' w' \<and> (\<forall>f. Q (Inl (commit_err f)) d w' \<and> Q (Inl (commit_err f)) d' w'))"
  shows "holds (transaction_as begin_err commit_err body) d w Q"
  unfolding holds_def transaction_as_def
proof (intro allI)
  fix rs
  let ?s = "\<lparr>db = d, sched = rs, wire = w\<rparr>"
  obtain b s0 where n: "next_reply ?s = (b, s0)" by (cases "next_reply ?s")
  then have s0: "db s0 = d" "wire s0 = w" by (auto dest: next_reply_data)
  obtain r s1 where t: "body s0 = (r, s1)" by (cases "body s0")
  obtain c s2 where m: "next_reply s1 = (c, s2)" by (cases "next_reply s1")
  then have s2: "db s2 = db s1" "wire s2 = wire s1" by (auto dest: next_reply_data)
  from holds_sessionD [OF body t s0] show
    "case (case next_reply ?s of
       (Fails e, s0) \<Rightarrow> (Inl (begin_err e), s0)
     | (Lost e, s0) \<Rightarrow> (Inl (begin_err e), s0)
     | (Runs, s0) \<Rightarrow>
         (case body s0 of
            (Inl e, s1) \<Rightarrow> (Inl e, s1\<lparr>db := db ?s\<rparr>)
          | (Inr a, s1) \<Rightarrow>
              (case next_reply s1 of
                 (Runs, s2) \<Rightarrow> (Inr a, s2)
               | (Fails e, s2) \<Rightarrow> (Inl (commit_err e), s2\<lparr>db := db ?s\<rparr>)
               | (Lost e, s2) \<Rightarrow> (Inl (commit_err e), s2)))) of
      (r, s) \<Rightarrow> Q r (db s) (wire s)"
    using begin_fails s0 s2 by (cases b; cases r; cases c) (simp_all add: n t m)
qed

lemma holds_transaction [wp_intro]:
  assumes "\<And>e. is_fault e \<Longrightarrow> Q (Inl e) d w"
    and "holds body d w (\<lambda>r d' w'. case r of
        Inl e \<Rightarrow> Q (Inl e) d w'
      | Inr a \<Rightarrow> Q (Inr a) d' w' \<and> (\<forall>e. is_fault e \<longrightarrow> Q (Inl e) d w' \<and> Q (Inl e) d' w'))"
  shows "holds (transaction body) d w Q"
  unfolding transaction_as_fault
  by (rule holds_transaction_as, simp add: assms(1), rule holds_conseq [OF assms(2)]) (auto split: sum.splits)

lemma holds_autocommit [wp_intro]:
  assumes "\<And>e. is_fault e \<Longrightarrow> Q (Inl e) d w"
    and "case f d of (r, d') \<Rightarrow> (case r of
        Inl e \<Rightarrow> Q (Inl e) d w
      | Inr a \<Rightarrow> Q (Inr a) d' w \<and> (\<forall>e. is_fault e \<longrightarrow> Q (Inl e) d' w))"
  shows "holds (autocommit f) d w Q"
  unfolding autocommit_def
  by (rule holds_transaction, fact assms(1), rule holds_stmt)
    (use assms in \<open>auto split: prod.splits sum.splits\<close>)

lemma holds_if [wp_intro]:
  "(b \<Longrightarrow> holds t d w Q) \<Longrightarrow> (\<not> b \<Longrightarrow> holds u d w Q) \<Longrightarrow> holds (if b then t else u) d w Q"
  by simp

lemma holds_case_sum [wp_intro]:
  "(\<And>x. r = Inl x \<Longrightarrow> holds (f x) d w Q) \<Longrightarrow> (\<And>y. r = Inr y \<Longrightarrow> holds (g y) d w Q) \<Longrightarrow>
   holds (case r of Inl x \<Rightarrow> f x | Inr y \<Rightarrow> g y) d w Q"
  by (cases r) auto

lemma holds_case_option [wp_intro]:
  "(r = None \<Longrightarrow> holds f d w Q) \<Longrightarrow> (\<And>y. r = Some y \<Longrightarrow> holds (g y) d w Q) \<Longrightarrow>
   holds (case r of None \<Rightarrow> f | Some y \<Rightarrow> g y) d w Q"
  by (cases r) auto

subsection \<open>Fault-free runs\<close>

lemmas run_simps =
  ret_def throw_def bind_tx_def try_tx_def lift_err_def stmt_def query_def
  transaction_def autocommit_def next_reply_def exec_tx_def

end
