(* ===== verification/Json.thy ===== *)
theory Json
  imports GoRuntime "HOL-Library.Log_Nat" "HOL-Library.Char_ord" "HOL-Library.List_Lexorder"
begin

text \<open>
  JSON documents as \<open>encoding/json\<close> writes and reads them, at the level of the document
  rather than of its text: an integer literal is an \<open>int\<close>, a string its characters, an object
  its members in order (a repeated key keeps the last value, as the decoder does).  Keys are
  matched exactly; literals with a fraction or an exponent are not represented.

  The consumers decode an envelope whose \<open>Data\<close> field has type \<open>any\<close>, encode that value again
  and decode the result into the typed event.  Decoding into \<open>any\<close> turns every number into a
  \<open>float64\<close>, so the double step is modelled with the rounding of \<open>float64\<close>
  (\<open>f64_of_int\<close>, round to nearest, ties to even) and the shortest decimal text that
  \<open>strconv.FormatFloat(x, 'f', -1, 64)\<close> prints for the rounded value (\<open>f64_text\<close>).
\<close>

datatype json =
  JNull
| JBool bool
| JInt int
| JStr string
| JArr "json list"
| JObj "(string \<times> json) list"

text \<open>The bytes of a message: a JSON text, or bytes \<open>json.Unmarshal\<close> rejects as syntax.\<close>

datatype payload = Doc json | Garbage string

subsection \<open>Numbers through \<open>float64\<close>\<close>

definition f64_of_int :: "int \<Rightarrow> int" where
  "f64_of_int n =
     (if \<bar>n\<bar> \<le> 2 ^ 53 then n
      else let a = \<bar>n\<bar>; e = nat (bitlen a) - 53; q = a div 2 ^ e; r = a mod 2 ^ e; h = 2 ^ (e - 1);
               q' = (if h < r \<or> h = r \<and> odd q then q + 1 else q)
           in sgn n * (q' * 2 ^ e))"

definition nearest_multiple :: "nat \<Rightarrow> int \<Rightarrow> int" where
  "nearest_multiple k x = sgn x * ((\<bar>x\<bar> + 10 ^ k div 2) div 10 ^ k * 10 ^ k)"

definition f64_text :: "int \<Rightarrow> int" where
  "f64_text x =
     (if \<bar>x\<bar> \<le> 2 ^ 53 then x
      else case find (\<lambda>k. f64_of_int (nearest_multiple k x) = x) (rev [0..<25]) of
             Some k \<Rightarrow> nearest_multiple k x
           | None \<Rightarrow> x)"

definition through_float :: "int \<Rightarrow> int" where
  "through_float n = f64_text (f64_of_int n)"

lemma through_float_exact [simp]: "\<bar>n\<bar> \<le> 2 ^ 53 \<Longrightarrow> through_float n = n"
  by (simp add: through_float_def f64_of_int_def f64_text_def)

subsection \<open>Encoding a decoded value again\<close>

text \<open>\<open>map[string]any\<close> is encoded with its keys sorted, each key once.\<close>

definition normal_fields :: "(string \<times> json) list \<Rightarrow> (string \<times> json) list" where
  "normal_fields fs =
     map (\<lambda>k. (k, the (map_of (rev fs) k))) (sort (remdups (map fst fs)))"

fun remarshal :: "json \<Rightarrow> json" where
  "remarshal (JInt n) = JInt (through_float n)"
| "remarshal (JArr js) = JArr (map remarshal js)"
| "remarshal (JObj fs) = JObj (normal_fields (map (\<lambda>(k, v). (k, remarshal v)) fs))"
| "remarshal j = j"

subsection \<open>Decoding into typed fields\<close>

text \<open>
  A missing member and a \<open>null\<close> leave the Go zero value; a value of another type, or a number
  outside the field's range, is an error of \<open>json.Unmarshal\<close>.
\<close>

definition jfield :: "(string \<times> json) list \<Rightarrow> string \<Rightarrow> json option" where
  "jfield fs k = map_of (rev fs) k"

fun dec_uint :: "json option \<Rightarrow> go_error + nat" where
  "dec_uint None = Inr 0"
| "dec_uint (Some JNull) = Inr 0"
| "dec_uint (Some (JInt n)) =
     (if 0 \<le> n \<and> n < 2 ^ 64 then Inr (nat n) else Inl (JsonError ''number out of range''))"
| "dec_uint _ = Inl (JsonError ''cannot unmarshal into uint'')"

fun dec_int :: "json option \<Rightarrow> go_error + int" where
  "dec_int None = Inr 0"
| "dec_int (Some JNull) = Inr 0"
| "dec_int (Some (JInt n)) =
     (if in_int64 n then Inr n else Inl (JsonError ''number out of range''))"
| "dec_int _ = Inl (JsonError ''cannot unmarshal into int'')"

fun dec_string :: "json option \<Rightarrow> go_error + string" where
  "dec_string None = Inr ''''"
| "dec_string (Some JNull) = Inr ''''"
| "dec_string (Some (JStr s)) = Inr s"
| "dec_string _ = Inl (JsonError ''cannot unmarshal into string'')"

fun dec_object :: "json \<Rightarrow> go_error + (string \<times> json) list" where
  "dec_object JNull = Inr []"
| "dec_object (JObj fs) = Inr fs"
| "dec_object _ = Inl (JsonError ''cannot unmarshal into struct'')"

definition bind_err :: "go_error + 'a \<Rightarrow> ('a \<Rightarrow> go_error + 'b) \<Rightarrow> go_error + 'b" where
  "bind_err r f = (case r of Inl e \<Rightarrow> Inl e | Inr x \<Rightarrow> f x)"

lemma bind_err_simps [simp]:
  "bind_err (Inl e) f = Inl e" "bind_err (Inr x) f = f x"
  by (simp_all add: bind_err_def)

lemma bind_err_Inr: "bind_err r f = Inr y \<longleftrightarrow> (\<exists>x. r = Inr x \<and> f x = Inr y)"
  by (cases r) auto

subsection \<open>Members of an encoded object\<close>

lemma jfield_normal_fields: "jfield (normal_fields fs) k = jfield fs k"
proof -
  have "distinct (map fst (normal_fields fs))"
    by (simp add: normal_fields_def comp_def)
  then have "jfield (normal_fields fs) k = map_of (normal_fields fs) k"
    by (simp add: jfield_def map_of_rev_distinct)
  also have "\<dots> = (if k \<in> fst ` set fs then Some (the (map_of (rev fs) k)) else None)"
    by (simp add: normal_fields_def map_of_map_keys)
  also have "\<dots> = map_of (rev fs) k"
  proof (cases "map_of (rev fs) k")
    case None
    then have "k \<notin> fst ` set fs"
      by (simp add: map_of_eq_None_iff)
    with None show ?thesis by simp
  next
    case (Some v)
    then have "k \<in> fst ` set fs"
      by (force dest: map_of_SomeD)
    with Some show ?thesis by simp
  qed
  finally show ?thesis by (simp add: jfield_def)
qed

lemma jfield_map: "jfield (map (\<lambda>(k, v). (k, f v)) fs) k = map_option f (jfield fs k)"
  by (simp add: jfield_def rev_map map_of_map)

lemma jfield_Cons:
  "jfield ((k', v) # fs) k =
     (case jfield fs k of Some x \<Rightarrow> Some x | None \<Rightarrow> if k = k' then Some v else None)"
  by (auto simp: jfield_def map_add_def split: option.splits)

lemma jfield_Nil [simp]: "jfield [] k = None"
  by (simp add: jfield_def)

subsection \<open>Timestamps\<close>

text \<open>
  \<open>time.Time\<close> travels as its RFC 3339 text.  \<open>rfc3339\<close> is the check of \<open>Time.UnmarshalJSON\<close>:
  \<open>YYYY-MM-DDThh:mm:ss\<close>, an optional fraction, then \<open>Z\<close> or an offset \<open>+hh:mm\<close>.  A year that
  does not have four digits cannot be written (\<open>Time.MarshalJSON\<close> returns an error).
\<close>

definition num2 :: "char \<Rightarrow> char \<Rightarrow> nat option" where
  "num2 a b = parse_digits [a, b]"

definition num_between :: "nat option \<Rightarrow> nat \<Rightarrow> nat \<Rightarrow> bool" where
  "num_between v lo hi = (case v of None \<Rightarrow> False | Some n \<Rightarrow> lo \<le> n \<and> n \<le> hi)"

definition days_in_month :: "nat \<Rightarrow> nat \<Rightarrow> nat" where
  "days_in_month y m =
     (if m = 2 then (if y mod 4 = 0 \<and> (y mod 100 \<noteq> 0 \<or> y mod 400 = 0) then 29 else 28)
      else if m \<in> {4, 6, 9, 11} then 30 else 31)"

definition date_ok :: "string \<Rightarrow> bool" where
  "date_ok s =
     (case (parse_digits (take 4 s), num2 (s ! 5) (s ! 6), num2 (s ! 8) (s ! 9)) of
        (Some y, Some m, Some d) \<Rightarrow>
          s ! 4 = CHR ''-'' \<and> s ! 7 = CHR ''-'' \<and>
          1 \<le> m \<and> m \<le> 12 \<and> 1 \<le> d \<and> d \<le> days_in_month y m
      | _ \<Rightarrow> False)"

definition zone_ok :: "string \<Rightarrow> bool" where
  "zone_ok z =
     (z = ''Z'' \<or>
      length z = 6 \<and> (z ! 0 = CHR ''+'' \<or> z ! 0 = CHR ''-'') \<and> z ! 3 = CHR '':'' \<and>
      num_between (num2 (z ! 1) (z ! 2)) 0 23 \<and> num_between (num2 (z ! 4) (z ! 5)) 0 59)"

definition drop_fraction :: "string \<Rightarrow> string" where
  "drop_fraction s =
     (case s of
        [] \<Rightarrow> []
      | c # cs \<Rightarrow>
          if c = CHR ''.'' \<and> cs \<noteq> [] \<and> digit_value (hd cs) \<noteq> None
          then dropWhile (\<lambda>x. digit_value x \<noteq> None) cs
          else s)"

definition rfc3339 :: "string \<Rightarrow> bool" where
  "rfc3339 s =
     (20 \<le> length s \<and> date_ok s \<and> s ! 10 = CHR ''T'' \<and>
      s ! 13 = CHR '':'' \<and> s ! 16 = CHR '':'' \<and>
      num_between (num2 (s ! 11) (s ! 12)) 0 23 \<and> num_between (num2 (s ! 14) (s ! 15)) 0 59 \<and>
      num_between (num2 (s ! 17) (s ! 18)) 0 59 \<and> zone_ok (drop_fraction (drop 19 s)))"

definition zero_time :: string where
  "zero_time = ''0001-01-01T00:00:00Z''"

fun dec_time :: "json option \<Rightarrow> go_error + string" where
  "dec_time None = Inr zero_time"
| "dec_time (Some JNull) = Inr zero_time"
| "dec_time (Some (JStr s)) =
     (if rfc3339 s then Inr s else Inl (JsonError ''cannot parse as RFC 3339''))"
| "dec_time _ = Inl (JsonError ''Time.UnmarshalJSON: input is not a JSON string'')"

lemma rfc3339_example: "rfc3339 ''2026-01-31T12:30:05.125Z''"
  by code_simp

end
