(* ===== verification/Events.thy ===== *)
theory Events
  imports Json
begin

text \<open>
  \<open>common/xevent/event.go\<close>: the topics and their topology, the event types, the envelope every
  Kafka message carries and the typed data of each event, with the encoding the producers use
  (\<open>json.Marshal\<close> of an \<open>Envelope\<close>) and the decoding of the consumers.
\<close>

subsection \<open>Topics and event types\<close>

definition TopicUserEvents :: string where [simp]: "TopicUserEvents = ''user-events''"
definition TopicOrderEvents :: string where [simp]: "TopicOrderEvents = ''order-events''"
definition TopicInventoryEvents :: string where
  [simp]: "TopicInventoryEvents = ''inventory-events''"

record topic_spec =
  ts_name :: string
  ts_num_partitions :: int
  ts_replication_factor :: int
  ts_retention_ms :: int

definition TopicSpecs :: "topic_spec list" where
  "TopicSpecs =
     [\<lparr>ts_name = TopicUserEvents, ts_num_partitions = 3, ts_replication_factor = 3,
       ts_retention_ms = 7 * 24 * 3600 * 1000\<rparr>,
      \<lparr>ts_name = TopicOrderEvents, ts_num_partitions = 3, ts_replication_factor = 3,
       ts_retention_ms = 7 * 24 * 3600 * 1000\<rparr>,
      \<lparr>ts_name = TopicInventoryEvents, ts_num_partitions = 3, ts_replication_factor = 3,
       ts_retention_ms = 7 * 24 * 3600 * 1000\<rparr>]"

definition UserRegistered :: string where [simp]: "UserRegistered = ''user.registered''"
definition OrderCreated :: string where [simp]: "OrderCreated = ''order.created''"
definition OrderCancelled :: string where [simp]: "OrderCancelled = ''order.cancelled''"
definition InventoryReserved :: string where [simp]: "InventoryReserved = ''inventory.reserved''"
definition ReservationFailed :: string where
  [simp]: "ReservationFailed = ''inventory.reservation_failed''"

definition ReasonUserCancelled :: string where [simp]: "ReasonUserCancelled = ''USER_CANCELLED''"
definition ReasonOutOfStock :: string where [simp]: "ReasonOutOfStock = ''OUT_OF_STOCK''"

subsection \<open>Typed event data\<close>

record user_registered_data =
  ur_user_id :: nat
  ur_username :: string

record order_created_data =
  oc_order_id :: nat
  oc_user_id :: nat
  oc_sku :: string
  oc_quantity :: int
  oc_product_name :: string
  oc_amount :: int
  oc_status :: string

record order_cancelled_data =
  ox_order_id :: nat
  ox_sku :: string
  ox_quantity :: int
  ox_reason :: string

record inventory_reserved_data =
  ir_order_id :: nat

record reservation_failed_data =
  rf_order_id :: nat
  rf_reason :: string

definition marshal_user_registered :: "user_registered_data \<Rightarrow> json" where
  "marshal_user_registered d =
     JObj [(''user_id'', JInt (int (ur_user_id d))), (''username'', JStr (ur_username d))]"

definition marshal_order_created :: "order_created_data \<Rightarrow> json" where
  "marshal_order_created d =
     JObj [(''order_id'', JInt (int (oc_order_id d))), (''user_id'', JInt (int (oc_user_id d))),
           (''sku'', JStr (oc_sku d)), (''quantity'', JInt (oc_quantity d)),
           (''product_name'', JStr (oc_product_name d)), (''amount'', JInt (oc_amount d)),
           (''status'', JStr (oc_status d))]"

definition marshal_order_cancelled :: "order_cancelled_data \<Rightarrow> json" where
  "marshal_order_cancelled d =
     JObj [(''order_id'', JInt (int (ox_order_id d))), (''sku'', JStr (ox_sku d)),
           (''quantity'', JInt (ox_quantity d)), (''reason'', JStr (ox_reason d))]"

definition marshal_inventory_reserved :: "inventory_reserved_data \<Rightarrow> json" where
  "marshal_inventory_reserved d = JObj [(''order_id'', JInt (int (ir_order_id d)))]"

definition marshal_reservation_failed :: "reservation_failed_data \<Rightarrow> json" where
  "marshal_reservation_failed d =
     JObj [(''order_id'', JInt (int (rf_order_id d))), (''reason'', JStr (rf_reason d))]"

definition unmarshal_user_registered :: "json \<Rightarrow> go_error + user_registered_data" where
  "unmarshal_user_registered j =
     bind_err (dec_object j) (\<lambda>fs.
     bind_err (dec_uint (jfield fs ''user_id'')) (\<lambda>i.
     bind_err (dec_string (jfield fs ''username'')) (\<lambda>u.
       Inr \<lparr>ur_user_id = i, ur_username = u\<rparr>)))"

definition unmarshal_order_created :: "json \<Rightarrow> go_error + order_created_data" where
  "unmarshal_order_created j =
     bind_err (dec_object j) (\<lambda>fs.
     bind_err (dec_uint (jfield fs ''order_id'')) (\<lambda>i.
     bind_err (dec_uint (jfield fs ''user_id'')) (\<lambda>u.
     bind_err (dec_string (jfield fs ''sku'')) (\<lambda>s.
     bind_err (dec_int (jfield fs ''quantity'')) (\<lambda>q.
     bind_err (dec_string (jfield fs ''product_name'')) (\<lambda>p.
     bind_err (dec_int (jfield fs ''amount'')) (\<lambda>a.
     bind_err (dec_string (jfield fs ''status'')) (\<lambda>st.
       Inr \<lparr>oc_order_id = i, oc_user_id = u, oc_sku = s, oc_quantity = q,
            oc_product_name = p, oc_amount = a, oc_status = st\<rparr>))))))))"

definition unmarshal_order_cancelled :: "json \<Rightarrow> go_error + order_cancelled_data" where
  "unmarshal_order_cancelled j =
     bind_err (dec_object j) (\<lambda>fs.
     bind_err (dec_uint (jfield fs ''order_id'')) (\<lambda>i.
     bind_err (dec_string (jfield fs ''sku'')) (\<lambda>s.
     bind_err (dec_int (jfield fs ''quantity'')) (\<lambda>q.
     bind_err (dec_string (jfield fs ''reason'')) (\<lambda>r.
       Inr \<lparr>ox_order_id = i, ox_sku = s, ox_quantity = q, ox_reason = r\<rparr>)))))"

definition unmarshal_reservation_failed :: "json \<Rightarrow> go_error + reservation_failed_data" where
  "unmarshal_reservation_failed j =
     bind_err (dec_object j) (\<lambda>fs.
     bind_err (dec_uint (jfield fs ''order_id'')) (\<lambda>i.
     bind_err (dec_string (jfield fs ''reason'')) (\<lambda>r.
       Inr \<lparr>rf_order_id = i, rf_reason = r\<rparr>)))"

subsection \<open>Envelopes\<close>

record envelope =
  env_event :: string
  env_version :: int
  env_occurred_at :: string
  env_data :: json

definition marshal_envelope :: "envelope \<Rightarrow> go_error + json" where
  "marshal_envelope e =
     (if rfc3339 (env_occurred_at e)
      then Inr (JObj [(''event'', JStr (env_event e)), (''version'', JInt (env_version e)),
                      (''occurred_at'', JStr (env_occurred_at e)), (''data'', env_data e)])
      else Inl (JsonError ''Time.MarshalJSON: year outside of range [0,9999]''))"

definition unmarshal_envelope :: "payload \<Rightarrow> go_error + envelope" where
  "unmarshal_envelope p =
     (case p of
        Garbage b \<Rightarrow> Inl (JsonError ''invalid character'')
      | Doc j \<Rightarrow>
          bind_err (dec_object j) (\<lambda>fs.
          bind_err (dec_string (jfield fs ''event'')) (\<lambda>ev.
          bind_err (dec_int (jfield fs ''version'')) (\<lambda>v.
          bind_err (dec_time (jfield fs ''occurred_at'')) (\<lambda>t.
            Inr \<lparr>env_event = ev, env_version = v, env_occurred_at = t,
                 env_data = (case jfield fs ''data'' of None \<Rightarrow> JNull | Some d \<Rightarrow> d)\<rparr>)))))"

text \<open>\<open>json.Marshal(envelope.Data)\<close> of a decoded envelope.\<close>

definition envelope_data :: "envelope \<Rightarrow> json" where
  "envelope_data e = remarshal (env_data e)"

subsection \<open>Round trips\<close>

lemma unmarshal_marshal_envelope:
  assumes "marshal_envelope e = Inr j" and "in_int64 (env_version e)"
  shows "unmarshal_envelope (Doc j) = Inr e"
proof -
  from assms(1) have t: "rfc3339 (env_occurred_at e)"
    and j: "j = JObj [(''event'', JStr (env_event e)), (''version'', JInt (env_version e)),
                      (''occurred_at'', JStr (env_occurred_at e)), (''data'', env_data e)]"
    by (auto simp: marshal_envelope_def split: if_splits)
  with assms(2) show ?thesis
    by (simp add: unmarshal_envelope_def jfield_Cons del: dec_int.simps(3))
      (simp add: assms(2))
qed

lemma remarshal_field:
  "remarshal (JObj fs) = JObj gs \<Longrightarrow> jfield gs k = map_option remarshal (jfield fs k)"
  by (auto simp: jfield_normal_fields jfield_map)

definition float_exact :: "int \<Rightarrow> bool" where
  "float_exact n \<longleftrightarrow> \<bar>n\<bar> \<le> 2 ^ 53"

lemma float_exact_through: "float_exact n \<Longrightarrow> through_float n = n"
  by (simp add: float_exact_def)

lemma dec_uint_float: "float_exact (int n) \<Longrightarrow> dec_uint (Some (JInt (int n))) = Inr n"
  by (simp add: float_exact_def)

lemma dec_int_float: "float_exact n \<Longrightarrow> dec_int (Some (JInt n)) = Inr n"
  by (auto simp: float_exact_def in_int64_def)

lemmas float_decode = float_exact_through dec_uint_float dec_int_float
lemmas decode_simps = jfield_normal_fields jfield_Cons float_decode

lemma remarshal_user_registered:
  assumes "float_exact (int (ur_user_id d))"
  shows "unmarshal_user_registered (remarshal (marshal_user_registered d)) = Inr d"
  using assms
  by (simp add: unmarshal_user_registered_def marshal_user_registered_def decode_simps
      del: dec_uint.simps(3))

lemma remarshal_order_created:
  assumes "float_exact (int (oc_order_id d))" "float_exact (int (oc_user_id d))"
    and "float_exact (oc_quantity d)" "float_exact (oc_amount d)"
  shows "unmarshal_order_created (remarshal (marshal_order_created d)) = Inr d"
  using assms
  by (simp add: unmarshal_order_created_def marshal_order_created_def decode_simps
      del: dec_uint.simps(3) dec_int.simps(3))

lemma remarshal_order_cancelled:
  assumes "float_exact (int (ox_order_id d))" and "float_exact (ox_quantity d)"
  shows "unmarshal_order_cancelled (remarshal (marshal_order_cancelled d)) = Inr d"
  using assms
  by (simp add: unmarshal_order_cancelled_def marshal_order_cancelled_def decode_simps
      del: dec_uint.simps(3) dec_int.simps(3))

lemma remarshal_reservation_failed:
  assumes "float_exact (int (rf_order_id d))"
  shows "unmarshal_reservation_failed (remarshal (marshal_reservation_failed d)) = Inr d"
  using assms
  by (simp add: unmarshal_reservation_failed_def marshal_reservation_failed_def decode_simps
      del: dec_uint.simps(3))

subsection \<open>Properties\<close>

text \<open>
  C19: an \<open>order.created\<close> event arrives as it was sent.  What the outbox stores decodes to the same
  envelope, and its data, decoded to \<open>any\<close>, encoded again and decoded, is the event, when
  the ids, the quantity and the amount are within \<open>2 ^ 53\<close>, where \<open>float64\<close> is exact.
\<close>

theorem order_created_delivered:
  assumes "marshal_envelope \<lparr>env_event = ev, env_version = 1, env_occurred_at = t, env_data = marshal_order_created d\<rparr> = Inr j"
    and "float_exact (int (oc_order_id d))" "float_exact (int (oc_user_id d))"
    and "float_exact (oc_quantity d)" "float_exact (oc_amount d)"
  shows "\<exists>e. unmarshal_envelope (Doc j) = Inr e \<and> env_event e = ev \<and> env_occurred_at e = t \<and>
    unmarshal_order_created (envelope_data e) = Inr d"
  using unmarshal_marshal_envelope [OF assms(1)] remarshal_order_created [OF assms(2-5)]
  by (simp add: in_int64_def envelope_data_def)

definition sample_created :: order_created_data where
  "sample_created = \<lparr>oc_order_id = 1, oc_user_id = 7, oc_sku = ''SKU-1'', oc_quantity = 2, oc_product_name = ''pen'',
     oc_amount = 100, oc_status = ''pending''\<rparr>"

lemma order_created_delivered_witness:
  "\<exists>j e. marshal_envelope \<lparr>env_event = OrderCreated, env_version = 1, env_occurred_at = ''2026-01-31T12:30:05Z'',
      env_data = marshal_order_created sample_created\<rparr> = Inr j \<and>
    unmarshal_envelope (Doc j) = Inr e \<and> unmarshal_order_created (envelope_data e) = Inr sample_created"
proof -
  have "rfc3339 ''2026-01-31T12:30:05Z''" by code_simp
  then obtain j where j: "marshal_envelope \<lparr>env_event = OrderCreated, env_version = 1, env_occurred_at = ''2026-01-31T12:30:05Z'',
      env_data = marshal_order_created sample_created\<rparr> = Inr j" by (simp add: marshal_envelope_def)
  from order_created_delivered [OF this] j show ?thesis by (auto simp: sample_created_def float_exact_def)
qed


end
