(* ===== verification/Outbox.thy ===== *)
theory Outbox
  imports SqlTx Events
begin

text \<open>
  \<open>common/xevent/outbox.go\<close> and \<open>outbox_repo.go\<close>: the transactional outbox.  Each service's
  database holds its own tables (\<open>biz\<close>), an \<open>outbox_events\<close> table and a \<open>processed_events\<close>
  table (the migrations under \<open>common/xdb/migrations\<close>).  The rows keep the columns of
  \<open>OutboxEvent\<close>; times are milliseconds.
\<close>

definition OutboxStatusPending :: string where [simp]: "OutboxStatusPending = ''pending''"
definition OutboxStatusSent :: string where [simp]: "OutboxStatusSent = ''sent''"
definition OutboxStatusFailed :: string where [simp]: "OutboxStatusFailed = ''failed''"
definition MaxRetries :: nat where [simp]: "MaxRetries = 5"

record outbox_event =
  ob_id :: nat
  ob_event_id :: string
  ob_topic :: string
  ob_event_key :: string
  ob_event_type :: string
  ob_version :: int
  ob_payload :: json
  ob_status :: string
  ob_retry_count :: nat
  ob_last_error :: string
  ob_created_at :: nat
  ob_sent_at :: "nat option"

record outbox_table =
  ob_rows :: "outbox_event list"
  ob_next_id :: nat

record 'd svc_db =
  biz :: 'd
  outbox :: outbox_table
  processed :: "string list"

text \<open>The MySQL error of a violated unique index (\<open>ER_DUP_ENTRY\<close>).\<close>

definition ErrDupEntry :: go_error where [simp]: "ErrDupEntry = MySQLError 1062"

subsection \<open>Repository operations\<close>

text \<open>
  \<open>Insert\<close> creates the row with the next auto-increment id; \<open>event_id\<close> has a unique index.
  The result is the row as GORM leaves it in the caller's struct.
\<close>

definition outbox_insert :: "outbox_event \<Rightarrow> ('d svc_db, 'm, outbox_event) tx" where
  "outbox_insert e = stmt (\<lambda>d.
     let t = outbox d; row = e\<lparr>ob_id := ob_next_id t\<rparr>
     in if \<exists>r \<in> set (ob_rows t). ob_event_id r = ob_event_id e then (Inl ErrDupEntry, d)
        else (Inr row, d\<lparr>outbox := t\<lparr>ob_rows := ob_rows t @ [row], ob_next_id := Suc (ob_next_id t)\<rparr>\<rparr>))"

definition update_outbox ::
  "nat \<Rightarrow> (outbox_event \<Rightarrow> outbox_event) \<Rightarrow> 'd svc_db \<Rightarrow> (go_error + unit) \<times> 'd svc_db" where
  "update_outbox i f d =
     (Inr (), d\<lparr>outbox := (outbox d)\<lparr>ob_rows :=
        fst (update_rows (\<lambda>r. ob_id r = i) f (ob_rows (outbox d)))\<rparr>\<rparr>)"

definition mark_as_sent :: "nat \<Rightarrow> nat \<Rightarrow> ('d svc_db, 'm, unit) tx" where
  "mark_as_sent now i = stmt (update_outbox i (\<lambda>r. r\<lparr>ob_status := OutboxStatusSent, ob_sent_at := Some now\<rparr>))"

definition mark_as_failed :: "nat \<Rightarrow> string \<Rightarrow> ('d svc_db, 'm, unit) tx" where
  "mark_as_failed i msg = autocommit (update_outbox i
     (\<lambda>r. r\<lparr>ob_status := OutboxStatusFailed, ob_last_error := msg\<rparr>))"

definition increment_retry_count :: "nat \<Rightarrow> string \<Rightarrow> ('d svc_db, 'm, unit) tx" where
  "increment_retry_count i msg = stmt (update_outbox i
     (\<lambda>r. r\<lparr>ob_retry_count := ob_retry_count r + 1, ob_last_error := msg\<rparr>))"

definition is_pending :: "outbox_event \<Rightarrow> bool" where
  "is_pending r \<longleftrightarrow> ob_status r = OutboxStatusPending \<and> ob_retry_count r < MaxRetries"

text \<open>
  \<open>WHERE status = 'pending' AND retry_count < 5 ORDER BY created_at ASC LIMIT n\<close>; with
  \<open>FOR UPDATE SKIP LOCKED\<close> the rows another instance has locked are left out.
\<close>

definition pending_rows :: "(nat \<Rightarrow> bool) \<Rightarrow> nat \<Rightarrow> outbox_event list \<Rightarrow> outbox_event list" where
  "pending_rows locked limit rows =
     take limit (sort_key ob_created_at (filter (\<lambda>r. is_pending r \<and> \<not> locked (ob_id r)) rows))"

definition find_pending :: "nat \<Rightarrow> ('d svc_db, 'm, outbox_event list) tx" where
  "find_pending limit = query (\<lambda>d. Inr (pending_rows (\<lambda>_. False) limit (ob_rows (outbox d))))"

definition process_pending ::
  "(nat \<Rightarrow> bool) \<Rightarrow> nat \<Rightarrow> (outbox_event list \<Rightarrow> ('d svc_db, 'm, unit) tx) \<Rightarrow> ('d svc_db, 'm, unit) tx" where
  "process_pending locked limit handler = transaction (
     bind_tx (query (\<lambda>d. Inr (pending_rows locked limit (ob_rows (outbox d))))) (\<lambda>events.
       if events = [] then ret () else handler events))"

subsection \<open>The table invariant\<close>

definition outbox_ok :: "outbox_table \<Rightarrow> bool" where
  "outbox_ok t \<longleftrightarrow>
     distinct (map ob_id (ob_rows t)) \<and> distinct (map ob_event_id (ob_rows t)) \<and>
     (\<forall>r \<in> set (ob_rows t). ob_id r < ob_next_id t)"

text \<open>
  What never changes of a row once it is written: everything but the delivery columns
  (status, retry count, last error, sent time).
\<close>

definition core :: "outbox_event \<Rightarrow> outbox_event" where
  "core r = r\<lparr>ob_status := '''', ob_retry_count := 0, ob_last_error := '''', ob_sent_at := None\<rparr>"

lemma core_eqD:
  assumes "core r = core s"
  shows "ob_id r = ob_id s" "ob_event_id r = ob_event_id s" "ob_topic r = ob_topic s"
    "ob_event_key r = ob_event_key s" "ob_event_type r = ob_event_type s"
    "ob_version r = ob_version s" "ob_payload r = ob_payload s" "ob_created_at r = ob_created_at s"
  using assms by (cases r; cases s; simp add: core_def)+

text \<open>The rows grow at the end and only their delivery columns change.\<close>

definition outbox_extends :: "outbox_table \<Rightarrow> outbox_table \<Rightarrow> bool" where
  "outbox_extends t t' \<longleftrightarrow>
     (\<exists>new. map core (ob_rows t') = map core (ob_rows t) @ new) \<and> ob_next_id t \<le> ob_next_id t'"

lemma outbox_extends_refl [simp]: "outbox_extends t t"
  by (simp add: outbox_extends_def)

lemma outbox_extends_trans:
  "outbox_extends t u \<Longrightarrow> outbox_extends u v \<Longrightarrow> outbox_extends t v"
  by (auto simp: outbox_extends_def)

lemma map_ob_id_core: "map ob_id (map core rows) = map ob_id rows"
  by (simp add: core_def comp_def)

lemma map_event_id_core: "map ob_event_id (map core rows) = map ob_event_id rows"
  by (simp add: core_def comp_def)

lemma outbox_ok_core:
  assumes "map core (ob_rows t') = map core (ob_rows t)" and "ob_next_id t' = ob_next_id t"
  shows "outbox_ok t' \<longleftrightarrow> outbox_ok t"
proof -
  have ids: "map ob_id (ob_rows t') = map ob_id (ob_rows t)"
    using assms(1) map_ob_id_core by metis
  have evs: "map ob_event_id (ob_rows t') = map ob_event_id (ob_rows t)"
    using assms(1) map_event_id_core by metis
  have "(\<forall>r \<in> set (ob_rows t'). ob_id r < ob_next_id t') \<longleftrightarrow>
      (\<forall>i \<in> set (map ob_id (ob_rows t')). i < ob_next_id t)"
    using assms(2) by simp
  also have "\<dots> \<longleftrightarrow> (\<forall>r \<in> set (ob_rows t). ob_id r < ob_next_id t)"
    unfolding ids by simp
  finally show ?thesis
    by (simp add: outbox_ok_def ids evs)
qed

lemma update_outbox_core:
  assumes "\<And>r. core (f r) = core r"
  shows "map core (ob_rows (outbox (snd (update_outbox i f d)))) = map core (ob_rows (outbox d))"
  by (simp add: update_outbox_def update_rows_def assms)

lemma update_outbox_frame [simp]:
  "biz (snd (update_outbox i f d)) = biz d"
  "processed (snd (update_outbox i f d)) = processed d"
  "ob_next_id (outbox (snd (update_outbox i f d))) = ob_next_id (outbox d)"
  "fst (update_outbox i f d) = Inr ()"
  by (simp_all add: update_outbox_def)

lemma ob_rows_update_outbox:
  "ob_rows (outbox (snd (update_outbox i f d))) =
     map (\<lambda>r. if ob_id r = i then f r else r) (ob_rows (outbox d))"
  by (simp add: update_outbox_def update_rows_def)

subsection \<open>Insertion\<close>

definition insert_row :: "outbox_event \<Rightarrow> outbox_table \<Rightarrow> outbox_table" where
  "insert_row e t =
     t\<lparr>ob_rows := ob_rows t @ [e\<lparr>ob_id := ob_next_id t\<rparr>], ob_next_id := Suc (ob_next_id t)\<rparr>"

definition event_id_used :: "string \<Rightarrow> outbox_table \<Rightarrow> bool" where
  "event_id_used i t \<longleftrightarrow> (\<exists>r \<in> set (ob_rows t). ob_event_id r = i)"

lemma holds_outbox_insert [op_wp]:
  assumes "\<And>e. is_fault e \<Longrightarrow> Q (Inl e) d w"
    and "event_id_used (ob_event_id e) (outbox d) \<Longrightarrow> Q (Inl ErrDupEntry) d w"
    and "\<not> event_id_used (ob_event_id e) (outbox d) \<Longrightarrow>
      Q (Inr (e\<lparr>ob_id := ob_next_id (outbox d)\<rparr>)) (d\<lparr>outbox := insert_row e (outbox d)\<rparr>) w"
  shows "holds (outbox_insert e) d w Q"
  unfolding outbox_insert_def
  by (rule holds_stmt) (use assms in \<open>auto simp: Let_def event_id_used_def insert_row_def\<close>)

lemma outbox_ok_insert_row:
  "outbox_ok t \<Longrightarrow> \<not> event_id_used (ob_event_id e) t \<Longrightarrow> outbox_ok (insert_row e t)"
  by (fastforce simp: outbox_ok_def insert_row_def event_id_used_def)

lemma outbox_extends_insert_row: "outbox_extends t (insert_row e t)"
  by (simp add: outbox_extends_def insert_row_def)

lemma set_insert_row: "set (ob_rows (insert_row e t)) = insert (e\<lparr>ob_id := ob_next_id t\<rparr>) (set (ob_rows t))"
  by (simp add: insert_row_def)

subsection \<open>What is pending\<close>

lemma pending_rows_member:
  "r \<in> set (pending_rows locked n rows) \<Longrightarrow> r \<in> set rows \<and> is_pending r \<and> \<not> locked (ob_id r)"
  by (auto simp: pending_rows_def dest: in_set_takeD)

lemma pending_rows_distinct:
  assumes "distinct (map ob_id rows)"
  shows "distinct (map ob_id (pending_rows locked n rows))"
proof -
  have "distinct (map ob_id (sort_key ob_created_at (filter (\<lambda>r. is_pending r \<and> \<not> locked (ob_id r)) rows)))"
    using assms by (auto simp: distinct_map inj_on_def)
  then show ?thesis
    unfolding pending_rows_def take_map [symmetric] by (rule distinct_take)
qed

lemma pending_rows_sorted: "sorted (map ob_created_at (pending_rows locked n rows))"
  unfolding pending_rows_def take_map [symmetric] by (rule sorted_wrt_take) simp

lemma pending_rows_all:
  assumes "r \<in> set rows" "is_pending r" "\<not> locked (ob_id r)"
    and "length (filter (\<lambda>r. is_pending r \<and> \<not> locked (ob_id r)) rows) \<le> n"
  shows "r \<in> set (pending_rows locked n rows)"
  using assms by (simp add: pending_rows_def)

end
