(* ===== verification/OrderRepo.thy ===== *)
theory OrderRepo
  imports Outbox
begin

text \<open>
  The order service's tables and \<open>repository/order.go\<close>: \<open>orders\<close> rows (\<open>model/order.go\<close> and the
  migrations under \<open>common/xdb/migrations/order\<close>) and the statements GORM builds for them.
  Soft-deleted rows are kept (\<open>gorm.Model\<close> has a \<open>DeletedAt\<close>), and every statement filters them
  out; no code deletes an order.  A transaction that rolls back gives its ids back, where InnoDB
  leaves a gap.

  The status column is protected by optimistic locking: an update names the status and version
  the caller has read.  The locale \<open>versioned\<close> states that contract for one update operation and
  \<open>versioned_pair\<close> what follows for two of them that race; both repository operations
  interpret it.
\<close>

definition StatusPending :: string where [simp]: "StatusPending = ''pending''"
definition StatusPaid :: string where [simp]: "StatusPaid = ''paid''"
definition StatusCancelled :: string where [simp]: "StatusCancelled = ''cancelled''"

record order =
  o_id :: nat
  o_created_at :: nat
  o_updated_at :: nat
  o_deleted_at :: "nat option"
  o_user_id :: nat
  o_product_name :: string
  o_amount :: int
  o_status :: string
  o_version :: int
  o_sku :: string
  o_quantity :: int
  o_cancel_reason :: string

record known_user =
  ku_user_id :: nat
  ku_username :: string
  ku_seen_at :: string

record order_tables =
  orders :: "order list"
  next_order_id :: nat
  known_users :: "known_user list"

type_synonym order_db = "order_tables svc_db"

abbreviation set_orders :: "order list \<Rightarrow> order_db \<Rightarrow> order_db" where
  "set_orders os d \<equiv> d\<lparr>biz := (biz d)\<lparr>orders := os\<rparr>\<rparr>"

subsection \<open>Column checks\<close>

text \<open>
  What the table accepts in strict mode: \<open>product_name VARCHAR(256)\<close>, \<open>sku VARCHAR(32)\<close>
  (migration 00003), \<open>quantity INT\<close>, \<open>cancel_reason VARCHAR(32)\<close>; error 1406 is "data too
  long", 1264 "out of range".
\<close>

definition in_int32 :: "int \<Rightarrow> bool" where
  "in_int32 x \<longleftrightarrow> - (2 ^ 31) \<le> x \<and> x < 2 ^ 31"

definition check_order :: "order \<Rightarrow> go_error option" where
  "check_order o' =
     (if 256 < length (o_product_name o') then Some (MySQLError 1406)
      else if 32 < length (o_sku o') then Some (MySQLError 1406)
      else if \<not> in_int32 (o_quantity o') then Some (MySQLError 1264)
      else if 32 < length (o_cancel_reason o') then Some (MySQLError 1406)
      else None)"

subsection \<open>Operations\<close>

text \<open>
  \<open>tx.Create(order)\<close>: GORM fills the columns that declare a default in their tag when the field
  is zero (\<open>status\<close>, \<open>quantity\<close>), stamps the times and reads the id back into the struct.
\<close>

definition create_defaults :: "order \<Rightarrow> order" where
  "create_defaults o' = o'\<lparr>
     o_status := (if o_status o' = '''' then StatusPending else o_status o'),
     o_quantity := (if o_quantity o' = 0 then 1 else o_quantity o')\<rparr>"

definition create_order_row :: "nat \<Rightarrow> order \<Rightarrow> (order_db, 'm, order) tx" where
  "create_order_row now o' = stmt (\<lambda>d.
     let row = (create_defaults o')\<lparr>o_id := next_order_id (biz d), o_created_at := now, o_updated_at := now\<rparr>
     in case check_order row of
          Some e \<Rightarrow> (Inl e, d)
        | None \<Rightarrow> (Inr row, d\<lparr>biz := (biz d)\<lparr>orders := orders (biz d) @ [row],
                                            next_order_id := Suc (next_order_id (biz d))\<rparr>\<rparr>))"

definition live :: "order \<Rightarrow> bool" where
  "live o' \<longleftrightarrow> o_deleted_at o' = None"

definition find_by_id_and_user_id :: "nat \<Rightarrow> nat \<Rightarrow> (order_db, 'm, order) tx" where
  "find_by_id_and_user_id i user_id = query (\<lambda>d.
     first_row (\<lambda>o'. live o' \<and> o_id o' = i \<and> o_user_id o' = user_id) (orders (biz d)))"

definition by_id_desc :: "order list \<Rightarrow> order list" where
  "by_id_desc os = rev (sort_key o_id os)"

definition find_by_user_id :: "nat \<Rightarrow> (order_db, 'm, order list) tx" where
  "find_by_user_id user_id = query (\<lambda>d.
     Inr (by_id_desc (filter (\<lambda>o'. live o' \<and> o_user_id o' = user_id) (orders (biz d)))))"

text \<open>GORM leaves out a non-positive \<open>OFFSET\<close> and a negative \<open>LIMIT\<close>.\<close>

definition offset_limit :: "int \<Rightarrow> int \<Rightarrow> 'a list \<Rightarrow> 'a list" where
  "offset_limit off lmt xs =
     (let ys = drop (nat off) xs in if lmt < 0 then ys else take (nat lmt) ys)"

definition find_by_user_id_with_page :: "nat \<Rightarrow> int \<Rightarrow> int \<Rightarrow> (order_db, 'm, order list \<times> nat) tx" where
  "find_by_user_id_with_page user_id off lmt =
     bind_tx (query (\<lambda>d. Inr (length (filter (\<lambda>o'. live o' \<and> o_user_id o' = user_id) (orders (biz d))))))
       (\<lambda>total. bind_tx (find_by_user_id user_id) (\<lambda>os. ret (offset_limit off lmt os, total)))"

definition matches :: "nat \<Rightarrow> nat \<Rightarrow> string \<Rightarrow> int \<Rightarrow> order \<Rightarrow> bool" where
  "matches user_id i from_status version o' \<longleftrightarrow>
     live o' \<and> o_id o' = i \<and> o_user_id o' = user_id \<and> o_status o' = from_status \<and> o_version o' = version"

definition update_orders ::
  "(order \<Rightarrow> bool) \<Rightarrow> (order \<Rightarrow> order) \<Rightarrow> order_db \<Rightarrow> (go_error + nat) \<times> order_db" where
  "update_orders p f d =
     (let (rows, n) = update_rows p f (orders (biz d)) in (Inr n, set_orders rows d))"

definition update_status ::
  "nat \<Rightarrow> nat \<Rightarrow> nat \<Rightarrow> string \<Rightarrow> string \<Rightarrow> int \<Rightarrow> (order_db, 'm, nat) tx" where
  "update_status now user_id i from_status to_status version = autocommit (update_orders
     (matches user_id i from_status version)
     (\<lambda>o'. o'\<lparr>o_status := to_status, o_version := o_version o' + 1, o_updated_at := now\<rparr>))"

text \<open>
  \<open>Cancel\<close> runs in the caller's transaction and reads the cancelled order back; no row changed
  is \<open>(0, nil, nil)\<close>.
\<close>

definition cancel_order_row ::
  "nat \<Rightarrow> nat \<Rightarrow> nat \<Rightarrow> int \<Rightarrow> string \<Rightarrow> (order_db, 'm, nat \<times> order option) tx" where
  "cancel_order_row now user_id i version reason =
     bind_tx (stmt (\<lambda>d.
         if (\<exists>o' \<in> set (orders (biz d)). matches user_id i StatusPending version o') \<and> 32 < length reason
         then (Inl (MySQLError 1406), d)
         else update_orders (matches user_id i StatusPending version)
           (\<lambda>o'. o'\<lparr>o_status := StatusCancelled, o_version := o_version o' + 1,
                    o_cancel_reason := reason, o_updated_at := now\<rparr>) d))
       (\<lambda>affected.
          if affected = 0 then ret (0, None)
          else bind_tx (query (\<lambda>d. first_row (\<lambda>o'. live o' \<and> o_id o' = i) (orders (biz d))))
            (\<lambda>o'. ret (affected, Some o')))"

text \<open>
  \<open>model.UpsertKnownUser\<close>: \<open>tx.Save\<close> updates every column of the row with the primary key and
  inserts the row when the update matched none; a zero primary key inserts at once without the column, which has no
  default (error 1364).  The handler
  leaves \<open>SeenAt\<close> empty: an insert takes the column's default \<open>seen\<close>, an update writes the
  empty string, which \<open>zero_dates\<close> says whether the server's \<open>sql_mode\<close> takes (error 1292).
  \<open>username\<close> is a \<open>VARCHAR(64)\<close>.
\<close>

definition upsert_known_user :: "bool \<Rightarrow> string \<Rightarrow> nat \<Rightarrow> string \<Rightarrow> (order_db, 'm, unit) tx" where
  "upsert_known_user zero_dates seen uid name = stmt (\<lambda>d.
     let us = known_users (biz d) in
     if uid = 0 then (Inl (MySQLError 1364), d)
     else if 64 < length name then (Inl (MySQLError 1406), d)
     else if \<exists>u \<in> set us. ku_user_id u = uid then
       (if zero_dates then
          (Inr (), d\<lparr>biz := (biz d)\<lparr>known_users :=
             map (\<lambda>u. if ku_user_id u = uid then u\<lparr>ku_username := name, ku_seen_at := ''0000-00-00''\<rparr> else u) us\<rparr>\<rparr>)
        else (Inl (MySQLError 1292), d))
     else (Inr (), d\<lparr>biz := (biz d)\<lparr>known_users :=
        us @ [\<lparr>ku_user_id = uid, ku_username = name, ku_seen_at = seen\<rparr>]\<rparr>\<rparr>))"

subsection \<open>The table\<close>

definition order_row :: "order_db \<Rightarrow> nat \<Rightarrow> order option" where
  "order_row d i = find (\<lambda>o'. live o' \<and> o_id o' = i) (orders (biz d))"

definition orders_ok :: "order_db \<Rightarrow> bool" where
  "orders_ok d \<longleftrightarrow> distinct (map o_id (orders (biz d))) \<and>
     (\<forall>o' \<in> set (orders (biz d)). o_id o' < next_order_id (biz d))"

text \<open>The rows with row \<open>i\<close> replaced by \<open>f\<close> of it.\<close>

definition put_order :: "nat \<Rightarrow> (order \<Rightarrow> order) \<Rightarrow> order_db \<Rightarrow> order_db" where
  "put_order i f d = set_orders (map (\<lambda>o'. if o_id o' = i then f o' else o') (orders (biz d))) d"

lemma order_row_Some:
  assumes "orders_ok d"
  shows "order_row d i = Some o' \<longleftrightarrow> o' \<in> set (orders (biz d)) \<and> live o' \<and> o_id o' = i"
proof
  assume "order_row d i = Some o'"
  then show "o' \<in> set (orders (biz d)) \<and> live o' \<and> o_id o' = i"
    unfolding order_row_def by (auto dest: find_SomeD)
next
  assume o': "o' \<in> set (orders (biz d)) \<and> live o' \<and> o_id o' = i"
  then obtain x where x: "order_row d i = Some x"
    unfolding order_row_def by (cases "find (\<lambda>o'. live o' \<and> o_id o' = i) (orders (biz d))") (auto dest: find_NoneD)
  then have "x \<in> set (orders (biz d)) \<and> o_id x = i"
    unfolding order_row_def by (auto dest: find_SomeD)
  with o' assms have "x = o'"
    unfolding orders_ok_def by (metis distinct_key_eq)
  with x show "order_row d i = Some o'" by simp
qed

lemma set_orders_same: "set_orders (orders (biz d)) d = d"
  by simp

lemma put_order_frame [simp]:
  "outbox (put_order i f d) = outbox d" "processed (put_order i f d) = processed d"
  "next_order_id (biz (put_order i f d)) = next_order_id (biz d)"
  "known_users (biz (put_order i f d)) = known_users (biz d)"
  by (simp_all add: put_order_def)

lemma orders_put_order:
  "orders (biz (put_order i f d)) = map (\<lambda>o'. if o_id o' = i then f o' else o') (orders (biz d))"
  by (simp add: put_order_def)

lemma orders_ok_put_order:
  assumes "orders_ok d" "\<And>o'. o_id (f o') = o_id o'"
  shows "orders_ok (put_order i f d)"
proof -
  have "map o_id (orders (biz (put_order i f d))) = map o_id (orders (biz d))"
    using assms(2) by (simp add: orders_put_order)
  with assms show ?thesis
    by (auto simp: orders_ok_def) (auto simp: orders_put_order)
qed

lemma order_row_put_order:
  assumes "orders_ok d" "\<And>o'. o_id (f o') = o_id o'" "\<And>o'. live (f o') = live o'"
  shows "order_row (put_order i f d) j =
    (if j = i then map_option f (order_row d i) else order_row d j)"
proof -
  have "find (\<lambda>o'. live o' \<and> o_id o' = j) (map (\<lambda>o'. if o_id o' = i then f o' else o') os) =
      (if j = i then map_option f (find (\<lambda>o'. live o' \<and> o_id o' = i) os)
       else find (\<lambda>o'. live o' \<and> o_id o' = j) os)" for os
    using assms(2,3) by (induction os) auto
  then show ?thesis by (simp add: order_row_def orders_put_order)
qed

text \<open>
  An update guarded by the id changes that one row, or no row; the affected count says which.
\<close>

lemma update_orders_one:
  assumes "orders_ok d" "\<And>o'. p o' \<Longrightarrow> o_id o' = i" "\<And>o'. p o' \<Longrightarrow> f o' \<noteq> o'"
  shows "update_orders p f d =
    (if \<exists>o' \<in> set (orders (biz d)). p o' then (Inr 1, put_order i f d) else (Inr 0, d))"
  using assms update_rows_keyed [of o_id "orders (biz d)" p i f]
  by (auto simp: update_orders_def orders_ok_def put_order_def)

text \<open>What the guard of the optimistic update says about the row with that id.\<close>

lemma matches_row:
  assumes "orders_ok d"
  shows "(\<exists>o' \<in> set (orders (biz d)). matches u i st v o') \<longleftrightarrow>
    (\<exists>o'. order_row d i = Some o' \<and> o_user_id o' = u \<and> o_status o' = st \<and> o_version o' = v)"
  using assms by (auto simp: order_row_Some matches_def)

subsection \<open>Rules for the operations\<close>

definition new_order :: "nat \<Rightarrow> order \<Rightarrow> order_db \<Rightarrow> order" where
  "new_order now o' d =
     (create_defaults o')\<lparr>o_id := next_order_id (biz d), o_created_at := now, o_updated_at := now\<rparr>"

definition insert_order :: "order \<Rightarrow> order_db \<Rightarrow> order_db" where
  "insert_order row d = d\<lparr>biz := (biz d)\<lparr>orders := orders (biz d) @ [row],
                                          next_order_id := Suc (next_order_id (biz d))\<rparr>\<rparr>"

lemma insert_order_frame [simp]:
  "outbox (insert_order row d) = outbox d" "processed (insert_order row d) = processed d"
  "orders (biz (insert_order row d)) = orders (biz d) @ [row]"
  "next_order_id (biz (insert_order row d)) = Suc (next_order_id (biz d))"
  "known_users (biz (insert_order row d)) = known_users (biz d)"
  by (simp_all add: insert_order_def)

lemma orders_ok_insert_order:
  "orders_ok d \<Longrightarrow> o_id row = next_order_id (biz d) \<Longrightarrow> orders_ok (insert_order row d)"
  by (auto simp: orders_ok_def)

lemma holds_create_order_row [op_wp]:
  assumes "\<And>e. is_fault e \<Longrightarrow> Q (Inl e) d w"
    and "\<And>e. check_order (new_order now o' d) = Some e \<Longrightarrow> Q (Inl e) d w"
    and "check_order (new_order now o' d) = None \<Longrightarrow>
      Q (Inr (new_order now o' d)) (insert_order (new_order now o' d) d) w"
  shows "holds (create_order_row now o') d w Q"
  unfolding create_order_row_def
  by (rule holds_stmt)
    (use assms in \<open>auto simp: Let_def insert_order_def new_order_def split: option.splits\<close>)

definition set_status :: "string \<Rightarrow> nat \<Rightarrow> order \<Rightarrow> order" where
  "set_status st now o' = o'\<lparr>o_status := st, o_version := o_version o' + 1, o_updated_at := now\<rparr>"

definition set_cancelled :: "string \<Rightarrow> nat \<Rightarrow> order \<Rightarrow> order" where
  "set_cancelled reason now o' = o'\<lparr>o_status := StatusCancelled, o_version := o_version o' + 1,
     o_cancel_reason := reason, o_updated_at := now\<rparr>"

lemma set_status_sel [simp]:
  "o_id (set_status st now o') = o_id o'" "live (set_status st now o') = live o'"
  "o_status (set_status st now o') = st" "o_version (set_status st now o') = o_version o' + 1"
  "o_user_id (set_status st now o') = o_user_id o'" "o_sku (set_status st now o') = o_sku o'"
  "o_quantity (set_status st now o') = o_quantity o'" "o_amount (set_status st now o') = o_amount o'"
  "o_product_name (set_status st now o') = o_product_name o'"
  "o_cancel_reason (set_status st now o') = o_cancel_reason o'"
  by (simp_all add: set_status_def live_def)

lemma set_cancelled_sel [simp]:
  "o_id (set_cancelled re now o') = o_id o'" "live (set_cancelled re now o') = live o'"
  "o_status (set_cancelled re now o') = StatusCancelled"
  "o_version (set_cancelled re now o') = o_version o' + 1"
  "o_user_id (set_cancelled re now o') = o_user_id o'" "o_sku (set_cancelled re now o') = o_sku o'"
  "o_quantity (set_cancelled re now o') = o_quantity o'" "o_amount (set_cancelled re now o') = o_amount o'"
  "o_product_name (set_cancelled re now o') = o_product_name o'"
  "o_cancel_reason (set_cancelled re now o') = re"
  by (simp_all add: set_cancelled_def live_def)

lemma version_changes [simp]: "set_status st now o' \<noteq> o'" "set_cancelled re now o' \<noteq> o'"
  by (metis add_cancel_right_right set_status_sel(4) zero_neq_one,
      metis add_cancel_right_right set_cancelled_sel(4) zero_neq_one)

text \<open>The row an optimistic update hits: the live row with the id, unchanged since it was read.\<close>

definition current :: "order_db \<Rightarrow> nat \<Rightarrow> nat \<Rightarrow> string \<Rightarrow> int \<Rightarrow> order \<Rightarrow> bool" where
  "current d u i st v c \<longleftrightarrow>
     order_row d i = Some c \<and> o_user_id c = u \<and> o_status c = st \<and> o_version c = v"

lemma update_orders_current:
  assumes "orders_ok d" "\<And>o'. f o' \<noteq> o'"
  shows "update_orders (matches u i st v) f d =
    (if \<exists>c. current d u i st v c then (Inr 1, put_order i f d) else (Inr 0, d))"
proof -
  have "(\<exists>c. current d u i st v c) \<longleftrightarrow> (\<exists>o' \<in> set (orders (biz d)). matches u i st v o')"
    by (simp only: matches_row [OF assms(1)] current_def)
  then show ?thesis
    by (simp only:, intro update_orders_one) (use assms in \<open>auto simp: matches_def\<close>)
qed

lemma update_status_alt:
  "update_status now u i st to v = autocommit (update_orders (matches u i st v) (set_status to now))"
  by (simp add: update_status_def set_status_def [abs_def])

lemma holds_update_status [op_wp]:
  assumes ok: "orders_ok d"
    and fault: "\<And>e. is_fault e \<Longrightarrow> Q (Inl e) d w"
    and miss: "(\<And>c. \<not> current d u i st v c) \<Longrightarrow> Q (Inr 0) d w"
    and hit: "\<And>c. current d u i st v c \<Longrightarrow>
      Q (Inr 1) (put_order i (set_status to now) d) w \<and>
      (\<forall>e. is_fault e \<longrightarrow> Q (Inl e) (put_order i (set_status to now) d) w)"
  shows "holds (update_status now u i st to v) d w Q"
  unfolding update_status_alt
  by (intro holds_autocommit)
    (use fault miss hit in \<open>auto simp: update_orders_current [OF ok] split: if_splits\<close>)

lemma holds_cancel_order_row [op_wp]:
  assumes ok: "orders_ok d"
    and fault: "\<And>e. is_fault e \<Longrightarrow> Q (Inl e) d w"
    and miss: "(\<And>c. \<not> current d u i StatusPending v c) \<Longrightarrow> Q (Inr (0, None)) d w"
    and long: "\<And>c. current d u i StatusPending v c \<Longrightarrow> 32 < length reason \<Longrightarrow>
      Q (Inl (MySQLError 1406)) d w"
    and hit: "\<And>c. current d u i StatusPending v c \<Longrightarrow> length reason \<le> 32 \<Longrightarrow>
      Q (Inr (1, Some (set_cancelled reason now c))) (put_order i (set_cancelled reason now) d) w \<and>
      (\<forall>e. is_fault e \<longrightarrow> Q (Inl e) (put_order i (set_cancelled reason now) d) w)"
  shows "holds (cancel_order_row now u i v reason) d w Q"
proof -
  have some: "(\<exists>o' \<in> set (orders (biz d)). matches u i StatusPending v o') \<longleftrightarrow>
      (\<exists>c. current d u i StatusPending v c)"
    by (simp only: matches_row [OF ok] current_def)
  have c: "cancel_order_row now u i v reason =
     bind_tx (stmt (\<lambda>d.
         if (\<exists>o' \<in> set (orders (biz d)). matches u i StatusPending v o') \<and> 32 < length reason
         then (Inl (MySQLError 1406), d)
         else update_orders (matches u i StatusPending v) (set_cancelled reason now) d))
       (\<lambda>affected.
          if affected = 0 then ret (0, None)
          else bind_tx (query (\<lambda>d. first_row (\<lambda>o'. live o' \<and> o_id o' = i) (orders (biz d))))
            (\<lambda>o'. ret (affected, Some o')))"
    by (simp only: cancel_order_row_def set_cancelled_def [abs_def])
  have read: "first_row (\<lambda>o'. live o' \<and> o_id o' = i)
        (orders (biz (put_order i (set_cancelled reason now) d))) = Inr (set_cancelled reason now x)"
    if "current d u i StatusPending v x" for x
    using order_row_put_order [OF ok, of "set_cancelled reason now" i i] that
    by (simp add: first_row_Inr current_def order_row_def)
  show ?thesis
    unfolding c
    by (intro holds_bind holds_stmt)
      (use fault miss long hit in \<open>auto simp: some update_orders_current [OF ok] read
        simp del: StatusPending_def split: if_splits intro!: holds_ret holds_bind holds_query\<close>)
qed

lemma find_owned:
  assumes "orders_ok d"
  shows "first_row (\<lambda>o'. live o' \<and> o_id o' = i \<and> o_user_id o' = u) (orders (biz d)) =
    (case order_row d i of None \<Rightarrow> Inl ErrRecordNotFound | Some c \<Rightarrow> if o_user_id c = u then Inr c else Inl ErrRecordNotFound)"
proof (cases "find (\<lambda>o'. live o' \<and> o_id o' = i \<and> o_user_id o' = u) (orders (biz d))")
  case None
  then show ?thesis by (auto simp: first_row_def order_row_Some [OF assms] dest: find_NoneD split: option.splits)
next
  case (Some c)
  then have "order_row d i = Some c" "o_user_id c = u"
    using find_SomeD [OF Some] by (simp_all add: order_row_Some [OF assms])
  with Some show ?thesis by (simp add: first_row_def)
qed

lemma holds_find_by_id_and_user_id [op_wp]:
  assumes "orders_ok d"
    and "\<And>e. is_fault e \<Longrightarrow> Q (Inl e) d w"
    and "(\<And>c. order_row d i = Some c \<Longrightarrow> o_user_id c \<noteq> u) \<Longrightarrow> Q (Inl ErrRecordNotFound) d w"
    and "\<And>c. order_row d i = Some c \<Longrightarrow> o_user_id c = u \<Longrightarrow> Q (Inr c) d w"
  shows "holds (find_by_id_and_user_id i u) d w Q"
  unfolding find_by_id_and_user_id_def
  by (rule holds_query, fact assms(2)) (use assms(3,4) in \<open>auto simp: find_owned [OF assms(1)] split: option.splits\<close>)

subsection \<open>Optimistic locking as an interface\<close>

text \<open>
  \<open>cas o\<close> tries to update the row the snapshot \<open>o\<close> was read from; \<open>won\<close> tells from its result
  whether it did.  Either nothing changes and it has not won, or the row still had the
  snapshot's version, and now has the next one.
\<close>

locale versioned =
  fixes row :: "'db \<Rightarrow> nat \<Rightarrow> order option"
    and ok :: "'db \<Rightarrow> bool"
    and cas :: "order \<Rightarrow> ('db, 'm, 'a) tx"
    and won :: "'a \<Rightarrow> bool"
    and to :: string
  assumes cas_effect: "ok d \<Longrightarrow> holds (cas s) d w (\<lambda>r d' w'.
      d' = d \<and> (\<forall>a. r = Inr a \<longrightarrow> \<not> won a) \<or>
      (\<exists>c c'. row d (o_id s) = Some c \<and> o_version c = o_version s \<and> ok d' \<and>
         row d' (o_id s) = Some c' \<and> o_version c' = o_version s + 1 \<and> o_status c' = to \<and>
         (\<forall>j. j \<noteq> o_id s \<longrightarrow> row d' j = row d j)))"
begin

text \<open>A snapshot whose version is no longer the row's never wins and changes nothing.\<close>

lemma stale:
  assumes "ok d" "\<And>c. row d (o_id s) = Some c \<Longrightarrow> o_version c \<noteq> o_version s"
  shows "holds (cas s) d w (\<lambda>r d' _. d' = d \<and> (\<forall>a. r = Inr a \<longrightarrow> \<not> won a))"
  by (rule holds_conseq [OF cas_effect [OF assms(1)]]) (use assms(2) in blast)

lemma bumps:
  assumes "ok d"
  shows "holds (cas s) d w (\<lambda>r d' _. ok d' \<and>
    ((\<exists>a. r = Inr a \<and> won a) \<longrightarrow> (\<exists>c'. row d' (o_id s) = Some c' \<and> o_version c' = o_version s + 1)))"
  by (rule holds_conseq [OF cas_effect [OF assms]]) (use assms in auto)

end

locale versioned_pair =
  first: versioned row ok cas1 won1 to1 + second: versioned row ok cas2 won2 to2
  for row :: "'db \<Rightarrow> nat \<Rightarrow> order option"
    and ok :: "'db \<Rightarrow> bool"
    and cas1 :: "order \<Rightarrow> ('db, 'm, 'a) tx"
    and won1 :: "'a \<Rightarrow> bool"
    and to1 :: string
    and cas2 :: "order \<Rightarrow> ('db, 'm, 'b) tx"
    and won2 :: "'b \<Rightarrow> bool"
    and to2 :: string
begin

text \<open>Two operations that start from snapshots of one row with one version: at most one wins.\<close>

lemma one_winner:
  assumes "ok d" "o_id s2 = o_id s1" "o_version s2 = o_version s1"
  shows "holds (cas1 s1) d w (\<lambda>r d' w'. (\<exists>a. r = Inr a \<and> won1 a) \<longrightarrow>
    holds (cas2 s2) d' w' (\<lambda>r2 d'' _. d'' = d' \<and> (\<forall>a. r2 = Inr a \<longrightarrow> \<not> won2 a)))"
  by (rule holds_conseq [OF first.bumps [OF assms(1)]])
    (use assms(2,3) in \<open>auto intro!: second.stale\<close>)

end

subsection \<open>The repository implements it\<close>

definition pay_cas :: "nat \<Rightarrow> order \<Rightarrow> (order_db, 'm, nat) tx" where
  "pay_cas now s = update_status now (o_user_id s) (o_id s) (o_status s) StatusPaid (o_version s)"

definition cancel_cas :: "nat \<Rightarrow> string \<Rightarrow> order \<Rightarrow> (order_db, 'm, nat \<times> order option) tx" where
  "cancel_cas now reason s = cancel_order_row now (o_user_id s) (o_id s) (o_version s) reason"

lemma put_order_cas:
  assumes "orders_ok d" "current d u i st v c"
    and "\<And>o'. o_id (f o') = o_id o'" "\<And>o'. live (f o') = live o'"
    and "\<And>o'. o_version (f o') = o_version o' + 1" "\<And>o'. o_status (f o') = to"
  shows "\<exists>c c'. order_row d i = Some c \<and> o_version c = v \<and> orders_ok (put_order i f d) \<and>
    order_row (put_order i f d) i = Some c' \<and> o_version c' = v + 1 \<and> o_status c' = to \<and>
    (\<forall>j. j \<noteq> i \<longrightarrow> order_row (put_order i f d) j = order_row d j)"
  using assms by (simp add: order_row_put_order orders_ok_put_order current_def)

lemma pay_cas_effect:
  assumes "orders_ok d"
  shows "holds (pay_cas now s) d w (\<lambda>r d' w'.
      d' = d \<and> (\<forall>a. r = Inr a \<longrightarrow> \<not> (a \<noteq> 0)) \<or>
      (\<exists>c c'. order_row d (o_id s) = Some c \<and> o_version c = o_version s \<and> orders_ok d' \<and>
         order_row d' (o_id s) = Some c' \<and> o_version c' = o_version s + 1 \<and> o_status c' = StatusPaid \<and>
         (\<forall>j. j \<noteq> o_id s \<longrightarrow> order_row d' j = order_row d j)))"
  unfolding pay_cas_def
  by (rule holds_update_status [OF assms])
    (use put_order_cas [OF assms, where f = "set_status StatusPaid now" and to = StatusPaid] in \<open>force+\<close>)

lemma cancel_cas_effect:
  assumes "orders_ok d"
  shows "holds (cancel_cas now reason s) d w (\<lambda>r d' w'.
      d' = d \<and> (\<forall>a. r = Inr a \<longrightarrow> \<not> (fst a \<noteq> 0)) \<or>
      (\<exists>c c'. order_row d (o_id s) = Some c \<and> o_version c = o_version s \<and> orders_ok d' \<and>
         order_row d' (o_id s) = Some c' \<and> o_version c' = o_version s + 1 \<and> o_status c' = StatusCancelled \<and>
         (\<forall>j. j \<noteq> o_id s \<longrightarrow> order_row d' j = order_row d j)))"
  unfolding cancel_cas_def
  by (rule holds_cancel_order_row [OF assms])
    (use put_order_cas [OF assms, where f = "set_cancelled reason now" and to = StatusCancelled] in \<open>force+\<close>)

interpretation pay: versioned order_row orders_ok "pay_cas now" "\<lambda>a. a \<noteq> 0" StatusPaid for now
  by unfold_locales (rule pay_cas_effect)

interpretation cancel: versioned order_row orders_ok "cancel_cas now reason" "\<lambda>a. fst a \<noteq> 0"
    StatusCancelled for now reason
  by unfold_locales (rule cancel_cas_effect)

interpretation pay_cancel: versioned_pair order_row orders_ok
    "pay_cas now" "\<lambda>a. a \<noteq> 0" StatusPaid "cancel_cas now2 reason" "\<lambda>a. fst a \<noteq> 0" StatusCancelled
    for now now2 reason
  by unfold_locales

interpretation cancel_pay: versioned_pair order_row orders_ok
    "cancel_cas now reason" "\<lambda>a. fst a \<noteq> 0" StatusCancelled "pay_cas now2" "\<lambda>a. a \<noteq> 0" StatusPaid
    for now now2 reason
  by unfold_locales

end
