(* ===== verification/LabFaults.thy ===== *)
theory LabFaults
  imports GoRuntime
begin

text \<open>
  The fault injection the troubleshooting labs switch on: \<open>common/xlab/bugtoggle.go\<close> and
  \<open>logic/order/lab_faults.go\<close> of the order service.  The environment is a function from variable
  names to values, the empty string for an unset variable, as \<open>os.Getenv\<close> returns it.
\<close>

type_synonym environ = "string \<Rightarrow> string"

definition BugEnabled :: "environ \<Rightarrow> string \<Rightarrow> bool" where
  "BugEnabled getenv env \<longleftrightarrow> getenv env = ''1''"

definition BugEnvInt :: "environ \<Rightarrow> string \<Rightarrow> int \<Rightarrow> int" where
  "BugEnvInt getenv env def =
     (let v = getenv env in
      if v = '''' then def
      else case go_atoi v of None \<Rightarrow> def | Some n \<Rightarrow> if n < 0 then def else n)"

text \<open>The two tunables of this file are taken only when positive.\<close>

definition env_positive :: "environ \<Rightarrow> string \<Rightarrow> nat \<Rightarrow> nat" where
  "env_positive getenv env def =
     (let v = getenv env in
      if v = '''' then def
      else case go_atoi v of None \<Rightarrow> def | Some n \<Rightarrow> if 0 < n then nat n else def)"

subsection \<open>The CPU hot spot\<close>

text \<open>
  The two inner loops: every pair of positions of the name is compared.  The second result
  counts the comparisons.
\<close>

fun scan_from :: "char \<Rightarrow> string \<Rightarrow> nat \<times> nat \<Rightarrow> nat \<times> nat" where
  "scan_from c [] acc = acc"
| "scan_from c (x # xs) (score, work) =
     scan_from c xs (if c = x then score + 1 else score, work + 1)"

fun scan_pairs :: "string \<Rightarrow> nat \<times> nat \<Rightarrow> nat \<times> nat" where
  "scan_pairs [] acc = acc"
| "scan_pairs (c # cs) acc = scan_pairs cs (scan_from c cs acc)"

definition compute_risk_score :: "environ \<Rightarrow> string \<Rightarrow> nat \<times> nat" where
  "compute_risk_score getenv name =
     ((scan_pairs name) ^^ env_positive getenv ''BUG_CPU_ITERS'' 50000) (0, 0)"

lemma scan_from_work: "snd (scan_from c xs acc) = snd acc + length xs"
  by (induction c xs acc rule: scan_from.induct) auto

lemma scan_from_score: "fst (scan_from c xs acc) = fst acc + count_list xs c"
  by (induction c xs acc rule: scan_from.induct) auto

lemma scan_pairs_work: "snd (scan_pairs xs acc) = snd acc + length xs * (length xs - 1) div 2"
proof (induction xs arbitrary: acc)
  case Nil
  then show ?case by simp
next
  case (Cons x xs)
  have "length xs + length xs * (length xs - 1) div 2 = Suc (length xs) * length xs div 2"
    by (cases xs) (auto simp: algebra_simps)
  with Cons show ?case by (simp add: scan_from_work)
qed

text \<open>The pairs of equal characters, as a specification of the score.\<close>

definition equal_pairs :: "string \<Rightarrow> nat" where
  "equal_pairs xs = card {(i, j). i < j \<and> j < length xs \<and> xs ! i = xs ! j}"

lemma equal_pairs_Cons: "equal_pairs (x # xs) = count_list xs x + equal_pairs xs"
proof -
  let ?A = "(\<lambda>j. (0 :: nat, Suc j)) ` {j. j < length xs \<and> xs ! j = x}"
  let ?B = "(\<lambda>(i, j). (Suc i, Suc j)) ` {(i, j). i < j \<and> j < length xs \<and> xs ! i = xs ! j}"
  have "{(i, j). i < j \<and> j < length (x # xs) \<and> (x # xs) ! i = (x # xs) ! j} = ?A \<union> ?B"
  proof (intro set_eqI iffI)
    fix p
    assume "p \<in> {(i, j). i < j \<and> j < length (x # xs) \<and> (x # xs) ! i = (x # xs) ! j}"
    then obtain i j where p: "p = (i, Suc j)" "i \<le> j" "j < length xs" "(x # xs) ! i = xs ! j"
      by (cases p; cases "snd p") auto
    then show "p \<in> ?A \<union> ?B"
      by (cases i) (auto simp: image_iff)
  qed auto
  moreover have "finite {(i, j). i < j \<and> j < length xs \<and> xs ! i = xs ! j}"
    by (rule finite_subset [of _ "{..<length xs} \<times> {..<length xs}"]) auto
  moreover have "?A \<inter> ?B = {}" by auto
  ultimately have "equal_pairs (x # xs) = card ?A + card ?B"
    unfolding equal_pairs_def by (simp add: card_Un_disjoint)
  moreover have "card ?A = count_list xs x"
    by (subst card_image) (auto simp: inj_on_def count_list_eq_length_filter length_filter_conv_card
        intro!: arg_cong [where f = card])
  moreover have "card ?B = equal_pairs xs"
    unfolding equal_pairs_def by (rule card_image) (auto simp: inj_on_def)
  ultimately show ?thesis by simp
qed

lemma scan_pairs_score: "fst (scan_pairs xs acc) = fst acc + equal_pairs xs"
proof (induction xs arbitrary: acc)
  case Nil
  then show ?case by (simp add: equal_pairs_def)
next
  case (Cons x xs)
  then show ?case by (simp add: scan_from_score equal_pairs_Cons)
qed

lemma scan_pairs_iterate:
  "((scan_pairs name) ^^ k) (0, 0) = (k * equal_pairs name, k * (length name * (length name - 1) div 2))"
  by (induction k) (auto simp: prod_eq_iff scan_pairs_score scan_pairs_work)

subsection \<open>The leaking cache\<close>

record risk_profile =
  rp_user_id :: nat
  rp_reason :: string
  rp_score :: int
  rp_created_at :: nat
  rp_snapshot :: "nat list"

type_synonym risk_cache = "string \<Rightarrow> risk_profile option"

definition cache_risk_profile ::
  "environ \<Rightarrow> nat \<Rightarrow> nat \<Rightarrow> string \<Rightarrow> string \<Rightarrow> string \<Rightarrow> risk_cache \<Rightarrow> risk_cache" where
  "cache_risk_profile getenv now user_id sku product_name key cache =
     (let k = (if key = '''' then sku @ ''|'' @ product_name else key);
          sz = env_positive getenv ''BUG_MEMLEAK_BYTES'' (32 * 1024)
      in cache(k \<mapsto> \<lparr>rp_user_id = user_id, rp_reason = ''auto-cached'', rp_score = 0,
                     rp_created_at = now, rp_snapshot = map (\<lambda>i. i mod 256) [0..<sz]\<rparr>))"

text \<open>Nothing is ever evicted: the keys only grow.\<close>

lemma cache_risk_profile_dom:
  "dom (cache_risk_profile getenv now u sku name key cache) =
     insert (if key = '''' then sku @ ''|'' @ name else key) (dom cache)"
  by (auto simp: cache_risk_profile_def Let_def)

end
