(* ===== verification/HttpCommon.thy ===== *)
theory HttpCommon
  imports Json
begin

text \<open>
  What the HTTP services share: the business error codes (\<open>common/ecode\<close>), the JSON response
  envelope (\<open>common/middleware/response.go\<close>), pagination (\<open>common/page\<close>) and the checks of the
  \<open>validate\<close> tags on request structs (\<open>common/validator\<close>).
\<close>

subsection \<open>Business errors\<close>

definition EcodeOK :: go_error where [simp]: "EcodeOK = CodeError 0 ''ok''"
definition ErrParam :: go_error where [simp]: "ErrParam = CodeError 100001 ''invalid parameter''"
definition ErrUnauthorized :: go_error where [simp]: "ErrUnauthorized = CodeError 100002 ''unauthorized''"
definition ErrNotFound :: go_error where [simp]: "ErrNotFound = CodeError 100003 ''resource not found''"
definition ErrInternal :: go_error where [simp]: "ErrInternal = CodeError 100004 ''internal server error''"
definition ErrRateLimit :: go_error where [simp]: "ErrRateLimit = CodeError 100005 ''rate limit exceeded''"
definition ErrOptimisticConflict :: go_error where
  [simp]: "ErrOptimisticConflict = CodeError 100006 ''optimistic lock conflict''"
definition ErrUserExists :: go_error where
  [simp]: "ErrUserExists = CodeError 200001 ''username or email already exists''"
definition ErrInvalidCredentials :: go_error where
  [simp]: "ErrInvalidCredentials = CodeError 200002 ''invalid username or password''"
definition ErrUserNotFound :: go_error where [simp]: "ErrUserNotFound = CodeError 200003 ''user not found''"
definition ErrOrderNotFound :: go_error where [simp]: "ErrOrderNotFound = CodeError 400001 ''order not found''"
definition ErrInvalidStatusTransition :: go_error where
  [simp]: "ErrInvalidStatusTransition = CodeError 400002 ''invalid status transition''"
definition ErrIdempotencyConflict :: go_error where
  [simp]: "ErrIdempotencyConflict = CodeError 400003 ''idempotent request in flight''"

text \<open>
  \<open>err.Error()\<close>, as far as responses show it.  Of the text of a MySQL error only the number is kept here; where the code
  logs the text, it is an argument (\<open>GormLogger\<close>).
\<close>

fun error_text :: "go_error \<Rightarrow> string" where
  "error_text (CodeError c m) = m"
| "error_text (JsonError m) = m"
| "error_text (PlainError m) = m"
| "error_text (GrpcStatus c m) = m"
| "error_text (Wrapped m e) = m @ '': '' @ error_text e"
| "error_text ErrRecordNotFound = ''record not found''"
| "error_text ErrMiss = ''xcache: cache miss (negative)''"
| "error_text ErrBreakerOpen = ''circuit breaker is open''"
| "error_text CtxCanceled = ''context canceled''"
| "error_text CtxDeadlineExceeded = ''context deadline exceeded''"
| "error_text (MySQLError n) = ''Error '' @ format_uint n"

subsection \<open>Responses\<close>

record 'a response =
  rs_status :: nat
  rs_code :: int
  rs_message :: string
  rs_data :: "'a option"

definition ok_json :: "'a \<Rightarrow> 'a response" where
  "ok_json x = \<lparr>rs_status = 200, rs_code = 0, rs_message = ''ok'', rs_data = Some x\<rparr>"

definition created_json :: "'a \<Rightarrow> 'a response" where
  "created_json x = \<lparr>rs_status = 201, rs_code = 0, rs_message = ''created'', rs_data = Some x\<rparr>"

definition error_json :: "nat \<Rightarrow> string \<Rightarrow> 'a response" where
  "error_json st m = \<lparr>rs_status = st, rs_code = -1, rs_message = m, rs_data = None\<rparr>"

definition bad_request :: "string \<Rightarrow> 'a response" where "bad_request m = error_json 400 m"
definition unauthorized :: "string \<Rightarrow> 'a response" where "unauthorized m = error_json 401 m"
definition not_found :: "string \<Rightarrow> 'a response" where "not_found m = error_json 404 m"
definition internal_error :: "string \<Rightarrow> 'a response" where "internal_error m = error_json 500 m"
definition not_allow_handler :: "'a response" where
  "not_allow_handler = error_json 405 ''method not allowed''"

lemmas response_simps [simp] =
  ok_json_def created_json_def error_json_def bad_request_def unauthorized_def not_found_def
  internal_error_def not_allow_handler_def

subsection \<open>Pagination\<close>

text \<open>
  \<open>float64(a) / float64(b)\<close> for positive integers that are exact doubles: the quotient rounded
  to 53 bits, ties to even, as a pair \<open>(m, k)\<close> that stands for \<open>m / 2 ^ k\<close>.
\<close>

definition round_half_even :: "int \<Rightarrow> int \<Rightarrow> int" where
  "round_half_even n d =
     (let q = n div d; r = n mod d in if d < 2 * r \<or> d = 2 * r \<and> odd q then q + 1 else q)"

definition f64_div :: "int \<Rightarrow> int \<Rightarrow> int \<times> int" where
  "f64_div a b =
     (let k0 = 53 + bitlen b - bitlen a;
          k = (if 2 ^ 53 * (b * 2 ^ nat (- k0)) \<le> a * 2 ^ nat k0 then k0 - 1 else k0)
      in (round_half_even (a * 2 ^ nat k) (b * 2 ^ nat (- k)), k))"

text \<open>\<open>math.Ceil\<close> of \<open>m / 2 ^ k\<close>\<close>

definition f64_ceil :: "int \<times> int \<Rightarrow> int" where
  "f64_ceil x = (case x of (m, k) \<Rightarrow> if 0 \<le> k then - ((- m) div 2 ^ nat k) else m * 2 ^ nat (- k))"

record 'a page_result =
  pg_items :: "'a list"
  pg_total :: nat
  pg_page :: int
  pg_page_size :: int
  pg_pages :: int

definition page_offset :: "int \<Rightarrow> int \<Rightarrow> int" where
  "page_offset pg page_size = wrap64 (wrap64 (pg - 1) * page_size)"

definition new_page_result :: "'a list \<Rightarrow> nat \<Rightarrow> int \<Rightarrow> int \<Rightarrow> 'a page_result" where
  "new_page_result items tot page_num page_size =
     \<lparr>pg_items = items, pg_total = tot, pg_page = page_num, pg_page_size = page_size,
      pg_pages = (if 0 < page_size then
                    (if tot = 0 then 0
                     else f64_ceil (f64_div (f64_of_int (int tot)) (f64_of_int page_size)))
                  else 0)\<rparr>"

text \<open>Rounding the quotient up gives the integer ceiling while the divisor is small.\<close>

lemma ceil_round:
  fixes a b :: int
  assumes "0 \<le> a" "0 < b" "b < 2 ^ Suc k"
  shows "- ((- round_half_even (a * 2 ^ k) b) div 2 ^ k) = (a + b - 1) div b"
proof -
  define c r where "c = a div b" and "r = a mod b"
  have a: "a = c * b + r" and r: "0 \<le> r" "r < b"
    using assms(2) by (simp_all add: c_def r_def)
  define s where "s = r * 2 ^ k"
  have A: "a * 2 ^ k = c * 2 ^ k * b + s"
    by (simp add: a s_def algebra_simps)
  have q: "(a * 2 ^ k) div b = c * 2 ^ k + s div b" "(a * 2 ^ k) mod b = s mod b"
    unfolding A using assms(2) by simp_all
  show ?thesis
  proof (cases "r = 0")
    case True
    then have "round_half_even (a * 2 ^ k) b = c * 2 ^ k"
      using assms(2) q by (simp add: round_half_even_def Let_def s_def)
    moreover have "(a + b - 1) div b = c"
      by (rule int_div_pos_eq [where r = "b - 1"]) (use True assms(2) in \<open>auto simp: a\<close>)
    moreover have "- (c * 2 ^ k) div 2 ^ k = - c"
      by (rule int_div_pos_eq [where r = 0]) auto
    ultimately show ?thesis by simp
  next
    case False
    with r have r1: "1 \<le> r" by simp
    then have s1: "2 ^ k \<le> s" unfolding s_def by (simp add: mult_le_cancel_right1)
    have "s < b * 2 ^ k" unfolding s_def using r by simp
    have sd: "s div b < 2 ^ k"
    proof (rule ccontr)
      assume "\<not> s div b < 2 ^ k"
      then have "2 ^ k * b \<le> s div b * b" using assms(2) by (intro mult_right_mono) auto
      also have "\<dots> \<le> s" using div_mult_mod_eq [of s b] pos_mod_sign [OF assms(2), of s] by linarith
      finally show False using \<open>s < b * 2 ^ k\<close> by (simp add: mult.commute)
    qed
    let ?m = "round_half_even (a * 2 ^ k) b"
    have up: "?m \<le> (c + 1) * 2 ^ k"
      using sd by (simp add: round_half_even_def Let_def q algebra_simps)
    have low: "c * 2 ^ k < ?m"
    proof (cases "s div b = 0")
      case True
      then have "s mod b = s" by (metis add_0 mult_zero_right div_mult_mod_eq mult.commute)
      moreover have "b < 2 * s" using s1 assms(3) by simp
      ultimately show ?thesis using True by (simp add: round_half_even_def Let_def q)
    next
      case False
      moreover have "0 \<le> s div b" using r1 assms(2) by (simp add: s_def pos_imp_zdiv_nonneg_iff)
      ultimately show ?thesis by (simp add: round_half_even_def Let_def q)
    qed
    have "(- ?m) div 2 ^ k = - (c + 1)"
    proof (rule int_div_pos_eq [where r = "(c + 1) * 2 ^ k - ?m"])
      show "- ?m = 2 ^ k * - (c + 1) + ((c + 1) * 2 ^ k - ?m)" by (simp add: algebra_simps)
      show "0 \<le> (c + 1) * 2 ^ k - ?m" using up by simp
      show "(c + 1) * 2 ^ k - ?m < 2 ^ k" using low by (simp add: algebra_simps)
    qed
    moreover have "(a + b - 1) div b = c + 1"
      by (rule int_div_pos_eq [where r = "r - 1"]) (use r r1 in \<open>auto simp: a algebra_simps\<close>)
    ultimately show ?thesis by simp
  qed
qed

lemma f64_ceil_div:
  assumes "0 < a" "a \<le> 2 ^ 45" "0 < b" "b \<le> 100"
  shows "f64_ceil (f64_div a b) = (a + b - 1) div b"
proof -
  have la: "bitlen a \<le> 46"
    using assms(1,2) by (subst bitlen_le_iff_power) auto
  have lb: "1 \<le> bitlen b"
    using bitlen_nonneg [of b] bitlen_eq_zero_iff [of b] assms(3) by linarith
  define k0 where "k0 = 53 + bitlen b - bitlen a"
  define k where "k = (if 2 ^ 53 * (b * 2 ^ nat (- k0)) \<le> a * 2 ^ nat k0 then k0 - 1 else k0)"
  have k: "7 \<le> k" using la lb by (auto simp: k_def k0_def)
  have "f64_div a b = (round_half_even (a * 2 ^ nat k) (b * 2 ^ nat (- k)), k)"
    by (simp only: f64_div_def Let_def k_def k0_def)
  moreover have "b < 2 ^ Suc (nat k)"
  proof -
    have "(2 :: int) ^ 8 \<le> 2 ^ Suc (nat k)" using k by (intro power_increasing) auto
    with assms(4) show ?thesis by simp
  qed
  ultimately show ?thesis
    using k assms ceil_round [of a b "nat k"] by (simp add: f64_ceil_def)
qed

lemma pages_ceiling:
  assumes "tot \<le> 2 ^ 45" "0 < page_size" "page_size \<le> 100"
  shows "pg_pages (new_page_result items tot pg page_size) = (int tot + page_size - 1) div page_size"
proof -
  have "int tot \<le> 2 ^ 45" using assms(1) by (metis of_nat_le_iff of_nat_numeral of_nat_power)
  then have "f64_of_int (int tot) = int tot" "f64_of_int page_size = page_size"
    using assms by (simp_all add: f64_of_int_def)
  with assms \<open>int tot \<le> 2 ^ 45\<close> show ?thesis
    by (auto simp: new_page_result_def f64_ceil_div)
qed

subsection \<open>Tags of \<open>validate\<close>\<close>

definition required_str :: "string \<Rightarrow> bool" where "required_str s \<longleftrightarrow> s \<noteq> ''''"
definition len_between :: "nat \<Rightarrow> nat \<Rightarrow> string \<Rightarrow> bool" where
  "len_between lo hi s \<longleftrightarrow> lo \<le> length s \<and> length s \<le> hi"

end
