(* ===== verification/RedisClient.thy ===== *)
theory RedisClient
  imports Json
begin

text \<open>
  The Redis server as its clients see it.  Redis is outside the program, so its operations are a
  parameter, \<open>redis_client\<close>: the go-redis commands the code calls, each a function of the
  server's state that may answer with an error.  \<open>redis_reliable\<close> states the documented behaviour
  of the commands while the server answers and no key expires; \<open>mem_redis\<close> is an instance.
\<close>

record 'r redis_client =
  rc_get :: "string \<Rightarrow> 'r \<Rightarrow> (go_error + payload) \<times> 'r"
  rc_set :: "string \<Rightarrow> payload \<Rightarrow> int \<Rightarrow> 'r \<Rightarrow> (go_error + unit) \<times> 'r"
  rc_setnx :: "string \<Rightarrow> payload \<Rightarrow> int \<Rightarrow> 'r \<Rightarrow> (go_error + bool) \<times> 'r"
  rc_del :: "string list \<Rightarrow> 'r \<Rightarrow> (go_error + unit) \<times> 'r"

definition RedisNil :: go_error where "RedisNil = PlainError ''redis: nil''"

definition redis_reliable :: "'r redis_client \<Rightarrow> ('r \<Rightarrow> string \<Rightarrow> payload option) \<Rightarrow> bool" where
  "redis_reliable rc view \<longleftrightarrow>
     (\<forall>k r. rc_get rc k r = (case view r k of None \<Rightarrow> Inl RedisNil | Some v \<Rightarrow> Inr v, r)) \<and>
     (\<forall>k v t r. fst (rc_set rc k v t r) = Inr () \<and> view (snd (rc_set rc k v t r)) = (view r)(k \<mapsto> v)) \<and>
     (\<forall>k v t r. fst (rc_setnx rc k v t r) = Inr (view r k = None) \<and>
        view (snd (rc_setnx rc k v t r)) = (if view r k = None then (view r)(k \<mapsto> v) else view r)) \<and>
     (\<forall>ks r. fst (rc_del rc ks r) = Inr () \<and>
        view (snd (rc_del rc ks r)) = (\<lambda>k. if k \<in> set ks then None else view r k))"

lemma redis_reliableD:
  assumes "redis_reliable rc view"
  shows "rc_get rc k r = (case view r k of None \<Rightarrow> Inl RedisNil | Some v \<Rightarrow> Inr v, r)"
    and "fst (rc_set rc k v t r) = Inr ()" "view (snd (rc_set rc k v t r)) = (view r)(k \<mapsto> v)"
    and "fst (rc_setnx rc k v t r) = Inr (view r k = None)"
    and "view (snd (rc_setnx rc k v t r)) = (if view r k = None then (view r)(k \<mapsto> v) else view r)"
    and "fst (rc_del rc ks r) = Inr ()"
    and "view (snd (rc_del rc ks r)) = (\<lambda>k. if k \<in> set ks then None else view r k)"
  using assms unfolding redis_reliable_def by blast+

text \<open>\<open>len(val) > 0\<close>: a JSON document is never empty.\<close>

fun payload_empty :: "payload \<Rightarrow> bool" where
  "payload_empty (Doc j) = False"
| "payload_empty (Garbage s) = (s = '''')"

subsection \<open>An instance\<close>

definition mem_redis :: "((string \<times> payload) list) redis_client" where
  "mem_redis = \<lparr>
     rc_get = (\<lambda>k r. (case map_of r k of None \<Rightarrow> Inl RedisNil | Some v \<Rightarrow> Inr v, r)),
     rc_set = (\<lambda>k v t r. (Inr (), (k, v) # r)),
     rc_setnx = (\<lambda>k v t r. if map_of r k = None then (Inr True, (k, v) # r) else (Inr False, r)),
     rc_del = (\<lambda>ks r. (Inr (), filter (\<lambda>(k, v). k \<notin> set ks) r))\<rparr>"

lemma map_of_filter_keys: "map_of (filter (\<lambda>(k, v). k \<notin> S) r) k = (if k \<in> S then None else map_of r k)"
  by (induction r) auto

lemma mem_redis_reliable: "redis_reliable mem_redis map_of"
  by (auto simp: redis_reliable_def mem_redis_def map_of_filter_keys fun_eq_iff)

end
