(* ===== verification/OrderLogic.thy ===== *)
theory OrderLogic
  imports OrderRepo LabFaults HttpCommon RedisClient
begin

text \<open>
  The business logic of the order API (\<open>service/order/api/internal/logic/order\<close>) and its HTTP
  handlers: creating an order behind an idempotency key, changing its status, reading and
  listing.  Each operation is the whole method: the reads it makes, the transaction with the
  outbox event it writes, and every early return.
\<close>

subsection \<open>Inputs\<close>

text \<open>
  What a request takes from outside: the environment, the clock (in milliseconds, and as the
  text \<open>time.Time\<close> marshals to), a fresh UUID, the answer of user-rpc to \<open>ValidateUser\<close>,
  \<open>hex(sha256(s))\<close>, and the JSON text of a timestamp with its parser.
\<close>

record order_env =
  en_getenv :: environ
  en_now :: nat
  en_now_text :: string
  en_uuid :: string
  en_validate :: "nat \<Rightarrow> go_error + bool"
  en_sha256_hex :: "string \<Rightarrow> string"
  en_time_text :: "nat \<Rightarrow> string"
  en_time_parse :: "string \<Rightarrow> nat"

record create_order_request =
  cr_product_name :: string
  cr_sku :: string
  cr_quantity :: int
  cr_amount :: int

definition valid_create_order_request :: "create_order_request \<Rightarrow> bool" where
  "valid_create_order_request q \<longleftrightarrow>
     required_str (cr_product_name q) \<and> len_between 1 256 (cr_product_name q) \<and>
     required_str (cr_sku q) \<and> len_between 1 64 (cr_sku q) \<and>
     cr_quantity q \<noteq> 0 \<and> 1 \<le> cr_quantity q \<and> cr_amount q \<noteq> 0 \<and> 0 < cr_amount q"

record list_order_request =
  lr_page :: int
  lr_page_size :: int

definition valid_list_order_request :: "list_order_request \<Rightarrow> bool" where
  "valid_list_order_request q \<longleftrightarrow> 1 \<le> lr_page q \<and> 1 \<le> lr_page_size q \<and> lr_page_size q \<le> 100"

definition valid_update_status_request :: "string \<Rightarrow> bool" where
  "valid_update_status_request s \<longleftrightarrow> s \<in> {''paid'', ''cancelled''}"

subsection \<open>Status transitions\<close>

definition validTransitions :: "string \<Rightarrow> string list option" where
  "validTransitions = map_of
     [(StatusPending, [StatusPaid, StatusCancelled]), (StatusPaid, []), (StatusCancelled, [])]"

definition isValidTransition :: "string \<Rightarrow> string \<Rightarrow> bool" where
  "isValidTransition from_status to_status =
     (case validTransitions from_status of None \<Rightarrow> False | Some allowed \<Rightarrow> to_status \<in> set allowed)"

lemma isValidTransition_iff:
  "isValidTransition a b \<longleftrightarrow> a = StatusPending \<and> (b = StatusPaid \<or> b = StatusCancelled)"
  by (auto simp: isValidTransition_def validTransitions_def)

subsection \<open>Outbox events of an order\<close>

definition outbox_row :: "order_env \<Rightarrow> string \<Rightarrow> string \<Rightarrow> json \<Rightarrow> outbox_event" where
  "outbox_row env key ev payload =
     \<lparr>ob_id = 0, ob_event_id = en_uuid env, ob_topic = TopicOrderEvents, ob_event_key = key,
      ob_event_type = ev, ob_version = 1, ob_payload = payload, ob_status = OutboxStatusPending,
      ob_retry_count = 0, ob_last_error = '''', ob_created_at = en_now env, ob_sent_at = None\<rparr>"

definition order_created_data_of :: "order \<Rightarrow> order_created_data" where
  "order_created_data_of o' =
     \<lparr>oc_order_id = o_id o', oc_user_id = o_user_id o', oc_sku = o_sku o', oc_quantity = o_quantity o',
      oc_product_name = o_product_name o', oc_amount = o_amount o', oc_status = o_status o'\<rparr>"

definition order_cancelled_data_of :: "order \<Rightarrow> string \<Rightarrow> order_cancelled_data" where
  "order_cancelled_data_of o' reason =
     \<lparr>ox_order_id = o_id o', ox_sku = o_sku o', ox_quantity = o_quantity o', ox_reason = reason\<rparr>"

definition created_event :: "order_env \<Rightarrow> order \<Rightarrow> go_error + outbox_event" where
  "created_event env o' = bind_err
     (marshal_envelope \<lparr>env_event = OrderCreated, env_version = 1, env_occurred_at = en_now_text env,
        env_data = marshal_order_created (order_created_data_of o')\<rparr>)
     (\<lambda>p. Inr (outbox_row env (format_uint (o_user_id o')) OrderCreated p))"

definition cancelled_event :: "order_env \<Rightarrow> order \<Rightarrow> string \<Rightarrow> go_error + outbox_event" where
  "cancelled_event env o' reason = bind_err
     (marshal_envelope \<lparr>env_event = OrderCancelled, env_version = 1, env_occurred_at = en_now_text env,
        env_data = marshal_order_cancelled (order_cancelled_data_of o' reason)\<rparr>)
     (\<lambda>p. Inr (outbox_row env (format_uint (o_id o')) OrderCancelled p))"

subsection \<open>Creating an order\<close>

definition order_of_request :: "nat \<Rightarrow> create_order_request \<Rightarrow> order" where
  "order_of_request user_id q =
     \<lparr>o_id = 0, o_created_at = 0, o_updated_at = 0, o_deleted_at = None, o_user_id = user_id,
      o_product_name = cr_product_name q, o_amount = cr_amount q, o_status = StatusPending,
      o_version = 0, o_sku = cr_sku q, o_quantity = cr_quantity q, o_cancel_reason = ''''\<rparr>"

definition create_order_txn :: "order_env \<Rightarrow> nat \<Rightarrow> create_order_request \<Rightarrow> (order_db, 'm, order) tx" where
  "create_order_txn env user_id q = transaction (
     bind_tx (create_order_row (en_now env) (order_of_request user_id q)) (\<lambda>o'.
     bind_tx (lift_err (created_event env o')) (\<lambda>e.
     bind_tx (outbox_insert e) (\<lambda>_. ret o'))))"

definition create_order :: "order_env \<Rightarrow> nat \<Rightarrow> create_order_request \<Rightarrow> (order_db, 'm, order) tx" where
  "create_order env user_id q =
     (case en_validate env user_id of
        Inl e \<Rightarrow> throw e
      | Inr found \<Rightarrow> if \<not> found then throw ErrUserNotFound else create_order_txn env user_id q)"

text \<open>The JSON of \<open>model.Order\<close>, as the idempotency gate stores it.\<close>

definition marshal_order :: "(nat \<Rightarrow> string) \<Rightarrow> order \<Rightarrow> json" where
  "marshal_order tt o' = JObj
     [(''ID'', JInt (int (o_id o'))), (''CreatedAt'', JStr (tt (o_created_at o'))),
      (''UpdatedAt'', JStr (tt (o_updated_at o'))),
      (''DeletedAt'', case o_deleted_at o' of None \<Rightarrow> JNull | Some t \<Rightarrow> JStr (tt t)),
      (''user_id'', JInt (int (o_user_id o'))), (''product_name'', JStr (o_product_name o')),
      (''amount'', JInt (o_amount o')), (''status'', JStr (o_status o')),
      (''version'', JInt (o_version o')), (''sku'', JStr (o_sku o')),
      (''quantity'', JInt (o_quantity o')), (''cancel_reason'', JStr (o_cancel_reason o'))]"

definition unmarshal_order :: "(string \<Rightarrow> nat) \<Rightarrow> payload \<Rightarrow> go_error + order" where
  "unmarshal_order tp p = (case p of
       Garbage b \<Rightarrow> Inl (JsonError ''invalid character'')
     | Doc j \<Rightarrow>
         bind_err (dec_object j) (\<lambda>fs.
         bind_err (dec_uint (jfield fs ''ID'')) (\<lambda>i.
         bind_err (dec_time (jfield fs ''CreatedAt'')) (\<lambda>ca.
         bind_err (dec_time (jfield fs ''UpdatedAt'')) (\<lambda>ua.
         bind_err (case jfield fs ''DeletedAt'' of
             None \<Rightarrow> Inr None | Some JNull \<Rightarrow> Inr None
           | Some v \<Rightarrow> bind_err (dec_time (Some v)) (\<lambda>t. Inr (Some (tp t)))) (\<lambda>da.
         bind_err (dec_uint (jfield fs ''user_id'')) (\<lambda>u.
         bind_err (dec_string (jfield fs ''product_name'')) (\<lambda>pn.
         bind_err (dec_int (jfield fs ''amount'')) (\<lambda>am.
         bind_err (dec_string (jfield fs ''status'')) (\<lambda>st.
         bind_err (dec_int (jfield fs ''version'')) (\<lambda>ve.
         bind_err (dec_string (jfield fs ''sku'')) (\<lambda>sk.
         bind_err (dec_int (jfield fs ''quantity'')) (\<lambda>qu.
         bind_err (dec_string (jfield fs ''cancel_reason'')) (\<lambda>cr.
           Inr \<lparr>o_id = i, o_created_at = tp ca, o_updated_at = tp ua, o_deleted_at = da, o_user_id = u,
                o_product_name = pn, o_amount = am, o_status = st, o_version = ve, o_sku = sk,
                o_quantity = qu, o_cancel_reason = cr\<rparr>))))))))))))))"

text \<open>The service around one request: Redis, the database, the fault-injection cache, the metric.\<close>

record ('r, 'm) order_world =
  ow_redis :: 'r
  ow_session :: "(order_db, 'm) session"
  ow_risk :: risk_cache
  ow_cpu_sink :: nat
  ow_orders_created :: "string list"

definition count_created :: "string \<Rightarrow> ('r, 'm) order_world \<Rightarrow> ('r, 'm) order_world" where
  "count_created label w = w\<lparr>ow_orders_created := ow_orders_created w @ [label]\<rparr>"

definition idempotencyTTL :: int where "idempotencyTTL = 15 * 60 * 1000000000"

definition orderIDempotencyKey :: "order_env \<Rightarrow> nat \<Rightarrow> string \<Rightarrow> string" where
  "orderIDempotencyKey env user_id key =
     ''order:idem:'' @ en_sha256_hex env (format_uint user_id @ '':'' @ key)"

definition replay_order ::
  "order_env \<Rightarrow> 'r redis_client \<Rightarrow> string \<Rightarrow> ('r, 'm) order_world \<Rightarrow> (go_error + order) \<times> ('r, 'm) order_world" where
  "replay_order env rc gate w =
     (case rc_get rc gate (ow_redis w) of (res, r) \<Rightarrow>
        ((case res of
            Inl e \<Rightarrow> Inl ErrIdempotencyConflict
          | Inr val \<Rightarrow>
              if payload_empty val then Inl ErrIdempotencyConflict
              else case unmarshal_order (en_time_parse env) val of
                     Inl e \<Rightarrow> Inl ErrIdempotencyConflict
                   | Inr cached \<Rightarrow> Inr cached),
         w\<lparr>ow_redis := r\<rparr>))"

text \<open>The part of \<open>Create\<close> after the gate: \<open>gate = ''''\<close> when there is none.\<close>

definition create_gated ::
  "order_env \<Rightarrow> 'r redis_client option \<Rightarrow> string \<Rightarrow> nat \<Rightarrow> create_order_request \<Rightarrow>
   ('r, 'm) order_world \<Rightarrow> (go_error + order) \<times> ('r, 'm) order_world" where
  "create_gated env rdb gate user_id q w =
     (case create_order env user_id q (ow_session w) of
        (Inl e, s) \<Rightarrow>
          let w1 = w\<lparr>ow_session := s\<rparr>;
              w2 = (case rdb of
                      Some rc \<Rightarrow> if gate \<noteq> '''' then w1\<lparr>ow_redis := snd (rc_del rc [gate] (ow_redis w1))\<rparr> else w1
                    | None \<Rightarrow> w1)
          in (Inl e, count_created ''error'' w2)
      | (Inr o', s) \<Rightarrow>
          let w1 = w\<lparr>ow_session := s\<rparr>;
              w2 = (case rdb of
                      Some rc \<Rightarrow>
                        if gate \<noteq> '''' then w1\<lparr>ow_redis := snd (rc_set rc gate
                          (Doc (marshal_order (en_time_text env) o')) idempotencyTTL (ow_redis w1))\<rparr> else w1
                    | None \<Rightarrow> w1)
          in (Inr o', count_created ''success'' w2))"

definition create ::
  "order_env \<Rightarrow> 'r redis_client option \<Rightarrow> nat \<Rightarrow> create_order_request \<Rightarrow> string \<Rightarrow>
   ('r, 'm) order_world \<Rightarrow> (go_error + order) \<times> ('r, 'm) order_world" where
  "create env rdb user_id q idem_key w0 =
     (let wc = (if BugEnabled (en_getenv env) ''BUG_CPU''
                then w0\<lparr>ow_cpu_sink := fst (compute_risk_score (en_getenv env) (cr_product_name q))\<rparr>
                else w0);
          w = (if BugEnabled (en_getenv env) ''BUG_MEMLEAK''
               then wc\<lparr>ow_risk := cache_risk_profile (en_getenv env) (en_now env) user_id
                         (cr_sku q) (cr_product_name q) idem_key (ow_risk wc)\<rparr>
               else wc)
      in case rdb of
           None \<Rightarrow> create_gated env rdb '''' user_id q w
         | Some rc \<Rightarrow>
             if idem_key = '''' then create_gated env rdb '''' user_id q w
             else
               let gate = orderIDempotencyKey env user_id idem_key in
               case rc_setnx rc gate (Garbage '''') idempotencyTTL (ow_redis w) of
                 (Inl e, r) \<Rightarrow> create_gated env rdb '''' user_id q (w\<lparr>ow_redis := r\<rparr>)
               | (Inr acquired, r) \<Rightarrow>
                   if \<not> acquired
                   then replay_order env rc gate (count_created ''conflict'' (w\<lparr>ow_redis := r\<rparr>))
                   else create_gated env rdb gate user_id q (w\<lparr>ow_redis := r\<rparr>))"

subsection \<open>Changing the status\<close>

text \<open>
  \<open>cancelOrder\<close> and \<open>paidOrder\<close> work on the order the caller has read, outside their own
  transaction.  A result of one affected row without an order cannot occur; the code would
  dereference a nil pointer there.
\<close>

definition cancel_order :: "order_env \<Rightarrow> order \<Rightarrow> string \<Rightarrow> (order_db, 'm, order) tx" where
  "cancel_order env o' reason = transaction (
     bind_tx (cancel_order_row (en_now env) (o_user_id o') (o_id o') (o_version o') reason) (\<lambda>(affected, ord).
       if affected = 0 then throw ErrOptimisticConflict
       else case ord of
              None \<Rightarrow> throw (PlainError ''nil pointer dereference'')
            | Some cancelled \<Rightarrow>
                bind_tx (lift_err (cancelled_event env cancelled reason)) (\<lambda>e.
                bind_tx (outbox_insert e) (\<lambda>_. ret cancelled))))"

definition paid_order :: "order_env \<Rightarrow> order \<Rightarrow> (order_db, 'm, order) tx" where
  "paid_order env o' =
     bind_tx (update_status (en_now env) (o_user_id o') (o_id o') (o_status o') StatusPaid (o_version o'))
       (\<lambda>affected. if affected = 0 then throw ErrOptimisticConflict else ret (o'\<lparr>o_status := StatusPaid\<rparr>))"

text \<open>\<open>UpdateStatus\<close> after its read, so that a step of the system can come in between.\<close>

definition update_order_from :: "order_env \<Rightarrow> order \<Rightarrow> string \<Rightarrow> (order_db, 'm, order) tx" where
  "update_order_from env o' to_status =
     (if \<not> isValidTransition (o_status o') to_status then throw ErrInvalidStatusTransition
      else if to_status = StatusCancelled then cancel_order env o' ReasonUserCancelled
      else paid_order env o')"

definition update_order_status :: "order_env \<Rightarrow> nat \<Rightarrow> nat \<Rightarrow> string \<Rightarrow> (order_db, 'm, order) tx" where
  "update_order_status env user_id i to_status =
     bind_tx (try_tx (find_by_id_and_user_id i user_id)) (\<lambda>found.
       case found of
         Inl err \<Rightarrow> if errors_is err ErrRecordNotFound then throw ErrOrderNotFound else throw err
       | Inr o' \<Rightarrow> update_order_from env o' to_status)"

subsection \<open>Reading\<close>

definition get_by_id :: "nat \<Rightarrow> nat \<Rightarrow> (order_db, 'm, order) tx" where
  "get_by_id user_id i =
     bind_tx (try_tx (find_by_id_and_user_id i user_id)) (\<lambda>found.
       case found of
         Inl err \<Rightarrow> if errors_is err ErrRecordNotFound then throw ErrOrderNotFound else throw err
       | Inr o' \<Rightarrow> ret o')"

definition list_by_user_id :: "nat \<Rightarrow> int \<Rightarrow> int \<Rightarrow> (order_db, 'm, order page_result) tx" where
  "list_by_user_id user_id pg page_size =
     bind_tx (find_by_user_id_with_page user_id (page_offset pg page_size) page_size) (\<lambda>(os, total_rows).
       ret (new_page_result os total_rows pg page_size))"

subsection \<open>Handlers\<close>

text \<open>
  The handlers map results to responses.  What \<open>httpx.Parse\<close> and the validator make of the
  request is their argument: the parsed struct, or the error to show.
\<close>

definition create_order_response :: "go_error + order \<Rightarrow> order response" where
  "create_order_response r = (case r of
       Inl err \<Rightarrow>
         if errors_is err ErrIdempotencyConflict then error_json 409 (error_text err)
         else if errors_is err ErrUserNotFound then bad_request (error_text err)
         else internal_error ''failed to create order''
     | Inr o' \<Rightarrow> created_json o')"

definition create_order_handler ::
  "order_env \<Rightarrow> 'r redis_client option \<Rightarrow> nat \<Rightarrow> go_error + create_order_request \<Rightarrow> string \<Rightarrow>
   ('r, 'm) order_world \<Rightarrow> order response \<times> ('r, 'm) order_world" where
  "create_order_handler env rdb user_id parsed idem_key w =
     (case parsed of
        Inl err \<Rightarrow> (bad_request (error_text err), w)
      | Inr q \<Rightarrow> (case create env rdb user_id q idem_key w of (r, w1) \<Rightarrow> (create_order_response r, w1)))"

definition get_order_response :: "go_error + order \<Rightarrow> order response" where
  "get_order_response r = (case r of
       Inl err \<Rightarrow> if errors_is err ErrOrderNotFound then not_found (error_text err)
                  else internal_error ''failed to get order''
     | Inr o' \<Rightarrow> ok_json o')"

definition get_order_handler :: "nat \<Rightarrow> go_error + nat \<Rightarrow> (order_db, 'm, order response) tx" where
  "get_order_handler user_id parsed = (case parsed of
       Inl err \<Rightarrow> ret (bad_request ''invalid id'')
     | Inr i \<Rightarrow> bind_tx (try_tx (get_by_id user_id i)) (\<lambda>r. ret (get_order_response r)))"

definition list_order_handler ::
  "nat \<Rightarrow> go_error + list_order_request \<Rightarrow> (order_db, 'm, order page_result response) tx" where
  "list_order_handler user_id parsed = (case parsed of
       Inl err \<Rightarrow> ret (bad_request (error_text err))
     | Inr q \<Rightarrow> bind_tx (try_tx (list_by_user_id user_id (lr_page q) (lr_page_size q))) (\<lambda>r.
         ret (case r of Inl err \<Rightarrow> internal_error ''failed to list orders'' | Inr x \<Rightarrow> ok_json x)))"

definition update_status_response :: "go_error + order \<Rightarrow> order response" where
  "update_status_response r = (case r of
       Inl err \<Rightarrow>
         if errors_is err ErrOrderNotFound then not_found (error_text err)
         else if errors_is err ErrInvalidStatusTransition then bad_request (error_text err)
         else internal_error ''failed to update order''
     | Inr o' \<Rightarrow> ok_json o')"

definition update_order_status_handler ::
  "order_env \<Rightarrow> nat \<Rightarrow> go_error + nat \<Rightarrow> go_error + string \<Rightarrow> (order_db, 'm, order response) tx" where
  "update_order_status_handler env user_id path_req req = (case path_req of
       Inl err \<Rightarrow> ret (bad_request ''invalid id'')
     | Inr i \<Rightarrow> (case req of
         Inl err \<Rightarrow> ret (bad_request (error_text err))
       | Inr st \<Rightarrow> bind_tx (try_tx (update_order_status env user_id i st)) (\<lambda>r.
           ret (update_status_response r))))"

subsection \<open>What the operations do\<close>

text \<open>A created order: the new row and its event, and nothing else.\<close>

definition order_created_by ::
  "order_env \<Rightarrow> nat \<Rightarrow> create_order_request \<Rightarrow> order_db \<Rightarrow> order \<Rightarrow> outbox_event \<Rightarrow> order_db \<Rightarrow> bool" where
  "order_created_by env user_id q d o' e d' \<longleftrightarrow>
     o' = new_order (en_now env) (order_of_request user_id q) d \<and> check_order o' = None \<and>
     created_event env o' = Inr e \<and> \<not> event_id_used (ob_event_id e) (outbox d) \<and>
     d' = (insert_order o' d)\<lparr>outbox := insert_row e (outbox d)\<rparr>"

lemma holds_create_order_txn:
  assumes "\<And>x. Q (Inl x) d w"
    and "\<And>o' e d'. order_created_by env u q d o' e d' \<Longrightarrow>
      Q (Inr o') d' w \<and> (\<forall>x. is_fault x \<longrightarrow> Q (Inl x) d' w)"
  shows "holds (create_order_txn env u q) d w Q"
  unfolding create_order_txn_def
  apply (rule holds_transaction, rule assms(1))
  apply (rule holds_bind, rule holds_create_order_row; simp add: assms(1))
  apply (rule holds_bind, rule holds_lift_err)
  apply (cases "created_event env (new_order (en_now env) (order_of_request u q) d)"; simp add: assms(1))
  apply (rule holds_bind, rule holds_outbox_insert; simp add: assms(1))
  apply (rule holds_ret)
  apply (use assms in \<open>simp add: order_created_by_def\<close>)
  done

definition order_cancelled_by ::
  "order_env \<Rightarrow> order \<Rightarrow> string \<Rightarrow> order_db \<Rightarrow> order \<Rightarrow> outbox_event \<Rightarrow> order_db \<Rightarrow> bool" where
  "order_cancelled_by env o' reason d c e d' \<longleftrightarrow>
     current d (o_user_id o') (o_id o') StatusPending (o_version o') c \<and> length reason \<le> 32 \<and>
     cancelled_event env (set_cancelled reason (en_now env) c) reason = Inr e \<and>
     \<not> event_id_used (ob_event_id e) (outbox d) \<and>
     d' = (put_order (o_id o') (set_cancelled reason (en_now env)) d)\<lparr>outbox := insert_row e (outbox d)\<rparr>"

lemma holds_cancel_order_errors:
  assumes ok: "orders_ok d"
    and fault: "\<And>x. is_fault x \<Longrightarrow> Q (Inl x) d w"
    and stale: "(\<And>c. \<not> current d (o_user_id o') (o_id o') StatusPending (o_version o') c) \<Longrightarrow>
      Q (Inl ErrOptimisticConflict) d w"
    and long: "\<And>c. current d (o_user_id o') (o_id o') StatusPending (o_version o') c \<Longrightarrow> 32 < length reason \<Longrightarrow>
      Q (Inl (MySQLError 1406)) d w"
    and event: "\<And>c x. current d (o_user_id o') (o_id o') StatusPending (o_version o') c \<Longrightarrow>
      cancelled_event env (set_cancelled reason (en_now env) c) reason = Inl x \<Longrightarrow> Q (Inl x) d w"
    and used: "\<And>c e. current d (o_user_id o') (o_id o') StatusPending (o_version o') c \<Longrightarrow>
      cancelled_event env (set_cancelled reason (en_now env) c) reason = Inr e \<Longrightarrow>
      event_id_used (ob_event_id e) (outbox d) \<Longrightarrow> Q (Inl ErrDupEntry) d w"
    and did: "\<And>c e d'. order_cancelled_by env o' reason d c e d' \<Longrightarrow>
      Q (Inr (set_cancelled reason (en_now env) c)) d' w \<and> (\<forall>x. is_fault x \<longrightarrow> Q (Inl x) d' w)"
  shows "holds (cancel_order env o' reason) d w Q"
  unfolding cancel_order_def
  apply (rule holds_transaction, erule fault)
  apply (rule holds_bind, rule holds_cancel_order_row [OF ok])
     apply (simp add: fault)
    apply (simp, rule holds_throw, use stale in \<open>simp\<close>)
   apply (use long in \<open>simp\<close>)
  subgoal for c
    apply (simp add: fault)
    apply (rule holds_bind, rule holds_lift_err)
    apply (cases "cancelled_event env (set_cancelled reason (en_now env) c) reason")
     apply (use event in \<open>simp\<close>)
    apply simp
    apply (rule holds_bind, rule holds_outbox_insert)
      apply (simp add: fault)
     apply (use used in \<open>simp\<close>)
    apply (simp, rule holds_ret)
    apply (use did fault in \<open>simp add: order_cancelled_by_def\<close>)
    done
  done

lemma holds_cancel_order:
  assumes ok: "orders_ok d"
    and other: "\<And>x. x \<noteq> ErrOptimisticConflict \<Longrightarrow> Q (Inl x) d w"
    and stale: "(\<And>c. \<not> current d (o_user_id o') (o_id o') StatusPending (o_version o') c) \<Longrightarrow>
      Q (Inl ErrOptimisticConflict) d w"
    and did: "\<And>c e d'. order_cancelled_by env o' reason d c e d' \<Longrightarrow>
      Q (Inr (set_cancelled reason (en_now env) c)) d' w \<and> (\<forall>x. is_fault x \<longrightarrow> Q (Inl x) d' w)"
  shows "holds (cancel_order env o' reason) d w Q"
proof (rule holds_cancel_order_errors [OF ok])
  show "Q (Inl x) d w" if "cancelled_event env (set_cancelled reason (en_now env) c) reason = Inl x" for c x
    by (rule other) (use that in \<open>auto simp: cancelled_event_def bind_err_def marshal_envelope_def split: if_splits\<close>)
next
  show "Q (Inl x) d w" if "is_fault x" for x
    by (rule other) (use that in auto)
qed (use assms(3,4) other in auto)

text \<open>With a database that answers everything, a current order is cancelled unless its event cannot be written.\<close>

lemma cancel_order_answered:
  assumes ok: "orders_ok d" and c: "current d (o_user_id c) (o_id c) StatusPending (o_version c) c" and len: "length reason \<le> 32"
  shows "cancel_order env c reason \<lparr>db = d, sched = [], wire = w\<rparr> =
    (case cancelled_event env (set_cancelled reason (en_now env) c) reason of
       Inl x \<Rightarrow> (Inl x, \<lparr>db = d, sched = [], wire = w\<rparr>)
     | Inr e \<Rightarrow> if event_id_used (ob_event_id e) (outbox d) then (Inl ErrDupEntry, \<lparr>db = d, sched = [], wire = w\<rparr>)
         else (Inr (set_cancelled reason (en_now env) c),
           \<lparr>db = (put_order (o_id c) (set_cancelled reason (en_now env)) d)\<lparr>outbox := insert_row e (outbox d)\<rparr>, sched = [], wire = w\<rparr>))"
proof -
  let ?f = "set_cancelled reason (en_now env)"
  have upd: "update_orders (matches (o_user_id c) (o_id c) StatusPending (o_version c)) ?f d = (Inr 1, put_order (o_id c) ?f d)"
    using c by (subst update_orders_current [OF ok]) auto
  have read: "first_row (\<lambda>o'. live o' \<and> o_id o' = o_id c) (orders (biz (put_order (o_id c) ?f d))) = Inr (?f c)"
    using order_row_put_order [OF ok, of ?f "o_id c" "o_id c"] c by (simp add: first_row_Inr current_def order_row_def)
  have "cancel_order_row (en_now env) (o_user_id c) (o_id c) (o_version c) reason \<lparr>db = d, sched = [], wire = w\<rparr> =
      (Inr (1, Some (?f c)), \<lparr>db = put_order (o_id c) ?f d, sched = [], wire = w\<rparr>)"
    using len upd [unfolded set_cancelled_def [abs_def]] read [unfolded set_cancelled_def [abs_def]]
    by (simp add: cancel_order_row_def set_cancelled_def [abs_def] run_simps del: StatusPending_def StatusCancelled_def)
  then show ?thesis
    by (auto simp: cancel_order_def transaction_def next_reply_def bind_tx_def lift_err_def throw_def ret_def outbox_insert_def
        stmt_def event_id_used_def insert_row_def Let_def split: sum.splits)
qed

definition order_paid_by :: "order_env \<Rightarrow> order \<Rightarrow> order_db \<Rightarrow> order \<Rightarrow> order_db \<Rightarrow> bool" where
  "order_paid_by env o' d c d' \<longleftrightarrow>
     current d (o_user_id o') (o_id o') (o_status o') (o_version o') c \<and>
     d' = put_order (o_id o') (set_status StatusPaid (en_now env)) d"

lemma holds_paid_order:
  assumes ok: "orders_ok d"
    and fault: "\<And>x. is_fault x \<Longrightarrow> Q (Inl x) d w"
    and stale: "(\<And>c. \<not> current d (o_user_id o') (o_id o') (o_status o') (o_version o') c) \<Longrightarrow>
      Q (Inl ErrOptimisticConflict) d w"
    and did: "\<And>c d'. order_paid_by env o' d c d' \<Longrightarrow>
      Q (Inr (o'\<lparr>o_status := StatusPaid\<rparr>)) d' w \<and> (\<forall>x. is_fault x \<longrightarrow> Q (Inl x) d' w)"
  shows "holds (paid_order env o') d w Q"
  unfolding paid_order_def
  apply (rule holds_bind, rule holds_update_status [OF ok])
    apply (simp add: fault)
   apply (simp, rule holds_throw, use stale in \<open>simp\<close>)
  apply (use did in \<open>auto simp: order_paid_by_def intro!: holds_ret\<close>)
  done

subsection \<open>Whole requests\<close>

lemma holds_create_order:
  "holds (create_order env u q) d w (\<lambda>r d' w'. w' = w \<and>
     (d' = d \<and> (\<forall>x. r \<noteq> Inr x) \<or> (\<exists>o' e. order_created_by env u q d o' e d' \<and> (\<forall>x. r = Inr x \<longrightarrow> x = o'))))"
  unfolding create_order_def
  by (cases "en_validate env u")
    (auto intro!: holds_throw holds_create_order_txn)

lemma holds_update_order_from:
  assumes "orders_ok d"
  shows "holds (update_order_from env s st) d w (\<lambda>r d' w'. w' = w \<and> (d' = d \<and> (\<forall>x. r \<noteq> Inr x) \<or>
    st = StatusPaid \<and> (\<exists>u v c. current d u (o_id s) StatusPending v c \<and>
       d' = put_order (o_id s) (set_status StatusPaid (en_now env)) d) \<or>
    st = StatusCancelled \<and> (\<exists>c e. order_cancelled_by env s ReasonUserCancelled d c e d')))"
proof (cases "isValidTransition (o_status s) st")
  case False
  then show ?thesis
    by (auto simp: update_order_from_def intro!: holds_throw)
next
  case True
  then have s: "o_status s = StatusPending" and st: "st = StatusPaid \<or> st = StatusCancelled"
    by (auto simp: isValidTransition_iff)
  show ?thesis
  proof (cases "st = StatusCancelled")
    case True
    then show ?thesis
      unfolding update_order_from_def
      using \<open>isValidTransition (o_status s) st\<close>
      by (simp del: StatusCancelled_def ReasonUserCancelled_def)
        (rule holds_cancel_order [OF assms]; blast)
  next
    case False
    with st have paid: "st = StatusPaid" by blast
    show ?thesis
      unfolding update_order_from_def
      using \<open>isValidTransition (o_status s) st\<close> False
      apply (simp del: StatusCancelled_def ReasonUserCancelled_def)
      apply (rule holds_paid_order [OF assms])
        apply blast
       apply blast
      apply (use paid in \<open>auto simp: order_paid_by_def s\<close>)
      done
  qed
qed

end
