(* ===== verification/Idempotent.thy ===== *)
theory Idempotent
  imports Outbox
begin

text \<open>
  \<open>common/xevent/idempotent.go\<close>: \<open>IdempotentRepository.Process\<close> runs a consumer's business
  function once per event id, in the transaction that also writes the \<open>processed_events\<close> row.
  The interface the consumers rely on is the locale \<open>dedup\<close>; \<open>process\<close> interprets it.
\<close>

subsection \<open>Process\<close>

definition find_processed :: "string \<Rightarrow> ('d svc_db, 'm, string) tx" where
  "find_processed i = query (\<lambda>d. first_row (\<lambda>r. r = i) (processed d))"

definition create_processed :: "string \<Rightarrow> ('d svc_db, 'm, unit) tx" where
  "create_processed i = stmt (\<lambda>d.
     if i \<in> set (processed d) then (Inl ErrDupEntry, d) else (Inr (), d\<lparr>processed := i # processed d\<rparr>))"

text \<open>
  \<open>True\<close>: the event was handled now; \<open>False\<close>: it had been handled before.  A lookup error
  other than "record not found" ends the transaction.
\<close>

definition process :: "string \<Rightarrow> ('d svc_db, 'm, unit) tx \<Rightarrow> ('d svc_db, 'm, bool) tx" where
  "process i fn = transaction (
     bind_tx (try_tx (find_processed i)) (\<lambda>found.
       case found of
         Inr existing \<Rightarrow> ret False
       | Inl err \<Rightarrow>
           if \<not> errors_is err ErrRecordNotFound then throw err
           else bind_tx fn (\<lambda>_. bind_tx (create_processed i) (\<lambda>_. ret True))))"

subsection \<open>The interface\<close>

text \<open>
  What a consumer may rely on: \<open>seen d i\<close> says that event \<open>i\<close> is marked as handled in \<open>d\<close>.
  Handling a seen event changes nothing and reports "not handled now"; an error leaves the data
  as it was or, when only the reply to the commit was lost, as after the handler with the event
  marked; otherwise the handler ran once and the event is marked.
\<close>

locale dedup =
  fixes seen :: "'db \<Rightarrow> string \<Rightarrow> bool"
    and mark :: "string \<Rightarrow> 'db \<Rightarrow> 'db"
    and proc :: "string \<Rightarrow> ('db, 'm, unit) tx \<Rightarrow> ('db, 'm, bool) tx"
  assumes proc_seen:
    "seen d i \<Longrightarrow> holds (proc i fn) d w (\<lambda>r d' _. d' = d \<and> r \<noteq> Inr True)"
    and proc_new:
    "\<not> seen d i \<Longrightarrow>
     holds fn d w (\<lambda>r d' _. (\<forall>x. r = Inr x \<longrightarrow> P d' \<and> seen d' = seen d)) \<Longrightarrow>
     holds (proc i fn) d w (\<lambda>r d' _.
       d' = d \<and> (\<exists>e. r = Inl e) \<or> (\<exists>d1. P d1 \<and> seen d1 = seen d \<and> d' = mark i d1 \<and> r \<noteq> Inr False))"
    and seen_mark: "seen (mark i d) = (seen d)(i := True)"
begin

text \<open>Whatever happens, the data is as before, or is what the handler made of it, marked.\<close>

lemma proc_effect:
  assumes "holds fn d w (\<lambda>r d' _. (\<forall>x. r = Inr x \<longrightarrow> P d' \<and> seen d' = seen d))"
  shows "holds (proc i fn) d w (\<lambda>r d' _. d' = d \<or> (\<not> seen d i \<and> (\<exists>d1. P d1 \<and> d' = mark i d1)))"
proof (cases "seen d i")
  case True
  show ?thesis
    by (rule holds_conseq [OF proc_seen [OF True]]) simp
next
  case False
  show ?thesis
    by (rule holds_conseq [OF proc_new [OF False assms]]) (use False in auto)
qed

text \<open>A redelivery after the event was handled never changes the data again.\<close>

lemma redelivery:
  assumes "holds fn d w (\<lambda>r d' _. (\<forall>x. r = Inr x \<longrightarrow> seen d' = seen d))"
  shows "holds (proc i fn) d w (\<lambda>r d' w'.
    (r = Inr True \<longrightarrow> seen d' i) \<and> (\<forall>fn2. seen d' i \<longrightarrow> holds (proc i fn2) d' w' (\<lambda>_ d'' _. d'' = d')))"
proof -
  have now: "holds (proc i fn) d w (\<lambda>r d' _. r = Inr True \<longrightarrow> seen d' i)"
  proof (cases "seen d i")
    case True
    show ?thesis
      by (rule holds_conseq [OF proc_seen [OF True]]) simp
  next
    case False
    have "holds fn d w (\<lambda>r d' _. (\<forall>x. r = Inr x \<longrightarrow> True \<and> seen d' = seen d))"
      using assms by simp
    from proc_new [OF False this] show ?thesis
      by (rule holds_conseq) (auto simp: seen_mark)
  qed
  have again: "holds (proc i fn2) d' w' (\<lambda>_ d'' _. d'' = d')" if "seen d' i" for d' w' fn2
    by (rule holds_conseq [OF proc_seen [OF that]]) simp
  show ?thesis
    by (rule holds_conseq [OF now]) (simp add: again)
qed

end

subsection \<open>Process implements it\<close>

definition was_processed :: "'d svc_db \<Rightarrow> string \<Rightarrow> bool" where
  "was_processed d i \<longleftrightarrow> i \<in> set (processed d)"

definition mark_processed :: "string \<Rightarrow> 'd svc_db \<Rightarrow> 'd svc_db" where
  "mark_processed i d = d\<lparr>processed := i # processed d\<rparr>"

lemma holds_find_processed [op_wp]:
  assumes "\<And>e. is_fault e \<Longrightarrow> Q (Inl e) d w"
    and "was_processed d i \<Longrightarrow> Q (Inr i) d w"
    and "\<not> was_processed d i \<Longrightarrow> Q (Inl ErrRecordNotFound) d w"
  shows "holds (find_processed i) d w Q"
  unfolding find_processed_def
  by (rule holds_query)
    (use assms in \<open>auto simp: was_processed_def first_row_def split: option.splits
      dest: find_SomeD find_NoneD\<close>)

lemma holds_create_processed [op_wp]:
  assumes "\<And>e. is_fault e \<Longrightarrow> Q (Inl e) d w"
    and "was_processed d i \<Longrightarrow> Q (Inl ErrDupEntry) d w"
    and "\<not> was_processed d i \<Longrightarrow> Q (Inr ()) (mark_processed i d) w"
  shows "holds (create_processed i) d w Q"
  unfolding create_processed_def
  by (rule holds_stmt) (use assms in \<open>auto simp: was_processed_def mark_processed_def\<close>)

lemma holds_process:
  assumes fault: "\<And>e. is_fault e \<Longrightarrow> Q (Inl e) d w"
    and seen: "was_processed d i \<Longrightarrow> Q (Inr False) d w"
    and new: "\<not> was_processed d i \<Longrightarrow> holds fn d w (\<lambda>r d' w'. case r of
        Inl e \<Rightarrow> Q (Inl e) d w'
      | Inr x \<Rightarrow> (was_processed d' i \<longrightarrow> Q (Inl ErrDupEntry) d w') \<and>
          (\<forall>e. is_fault e \<longrightarrow> Q (Inl e) d w') \<and>
          (\<not> was_processed d' i \<longrightarrow> Q (Inr True) (mark_processed i d') w' \<and>
            (\<forall>e. is_fault e \<longrightarrow> Q (Inl e) (mark_processed i d') w')))"
  shows "holds (process i fn) d w Q"
  unfolding process_def
  apply (rule holds_transaction, fact fault)
  apply (rule holds_bind, rule holds_try, rule holds_find_processed)
    apply (simp add: fault_not_found, rule holds_throw, simp add: fault)
   apply (simp, rule holds_ret, simp add: seen fault)
  apply (simp, rule holds_bind, rule holds_conseq [OF new], assumption)
  apply (auto split: sum.splits intro!: holds_bind holds_create_processed holds_ret)
  done

interpretation process_dedup: dedup was_processed mark_processed process
proof unfold_locales
  fix d :: "'a svc_db" and i w and fn :: "('a svc_db, 'b, unit) tx"
  assume "was_processed d i"
  then show "holds (process i fn) d w (\<lambda>r d' _. d' = d \<and> r \<noteq> Inr True)"
    by (intro holds_process) auto
next
  fix d :: "'a svc_db" and i w and fn :: "('a svc_db, 'b, unit) tx" and P
  assume *: "\<not> was_processed d i"
    and fn: "holds fn d w (\<lambda>r d' _. \<forall>x. r = Inr x \<longrightarrow> P d' \<and> was_processed d' = was_processed d)"
  show "holds (process i fn) d w (\<lambda>r d' _. d' = d \<and> (\<exists>e. r = Inl e) \<or>
      (\<exists>d1. P d1 \<and> was_processed d1 = was_processed d \<and> d' = mark_processed i d1 \<and> r \<noteq> Inr False))"
    by (rule holds_process, simp, simp add: *, rule holds_conseq [OF fn])
      (use * in \<open>auto split: sum.splits\<close>)
next
  fix i and d :: "'a svc_db"
  show "was_processed (mark_processed i d) = (was_processed d)(i := True)"
    by (auto simp: was_processed_def mark_processed_def fun_eq_iff)
qed

subsection \<open>Properties\<close>

text \<open>
  C7: an event is handled at most once.  Whatever the database replies, \<open>Process\<close> leaves the data as
  it was, or as the handler made it with the event marked; and once the event is marked, no
  delivery of it, with any handler, changes the data again.
\<close>

theorem process_once:
  assumes "holds fn d w (\<lambda>r d' _. \<forall>x. r = Inr x \<longrightarrow> P d' \<and> was_processed d' = was_processed d)"
  shows "holds (process i fn) d w (\<lambda>r d' w'.
    (d' = d \<or> (\<not> was_processed d i \<and> (\<exists>d1. P d1 \<and> d' = mark_processed i d1))) \<and> (r = Inr True \<longrightarrow> was_processed d' i) \<and>
    (\<forall>fn2. was_processed d' i \<longrightarrow> holds (process i fn2) d' w' (\<lambda>r2 d'' _. d'' = d' \<and> r2 \<noteq> Inr True)))"
proof -
  have "holds (process i fn) d w (\<lambda>r d' w'. (r = Inr True \<longrightarrow> was_processed d' i) \<and>
      (\<forall>fn2. was_processed d' i \<longrightarrow> holds (process i fn2) d' w' (\<lambda>_ d'' _. d'' = d')))"
    by (rule process_dedup.redelivery [OF holds_conseq [OF assms]]) blast
  from holds_conj [OF process_dedup.proc_effect [OF assms] this] show ?thesis
    by (rule holds_conseq) (blast intro: process_dedup.proc_seen)
qed

lemma process_once_witness:
  "\<exists>s. process ''e1'' (stmt (\<lambda>d. (Inr (), d\<lparr>biz := biz d + 1\<rparr>)))
      \<lparr>db = \<lparr>biz = 0 :: nat, outbox = \<lparr>ob_rows = [], ob_next_id = 1\<rparr>, processed = []\<rparr>, sched = [], wire = [] :: nat list\<rparr> =
      (Inr True, s) \<and> was_processed (db s) ''e1'' \<and> biz (db s) = 1"
proof -
  let ?d = "\<lparr>biz = 0 :: nat, outbox = \<lparr>ob_rows = [], ob_next_id = 1\<rparr>, processed = []\<rparr>"
  have "holds (stmt (\<lambda>d. (Inr (), d\<lparr>biz := biz d + 1\<rparr>)) :: (nat svc_db, nat, unit) tx) ?d []
      (\<lambda>r d' _. \<forall>x. r = Inr x \<longrightarrow> biz d' = 1 \<and> was_processed d' = was_processed ?d)"
    by (rule holds_stmt) (auto simp: was_processed_def)
  note once = process_once [OF this, of "''e1''"]
  let ?c = "process ''e1'' (stmt (\<lambda>d. (Inr (), d\<lparr>biz := biz d + 1\<rparr>))) \<lparr>db = ?d, sched = [], wire = [] :: nat list\<rparr>"
  have "fst ?c = Inr True" by code_simp
  then obtain s where s: "?c = (Inr True, s)" by (cases ?c) simp
  from holds_sessionD [OF once s] show ?thesis using s
    by (auto simp: mark_processed_def was_processed_def)
qed

end
