(* ===== verification/Poller.thy ===== *)
theory Poller
  imports Outbox "HOL-Library.AList" "HOL-Library.Sublist"
begin

text \<open>
  \<open>common/xstream/poller.go\<close> and the producer side of \<open>stream.go\<close>: every tick the poller takes
  a batch of pending outbox rows in one transaction, publishes each to Kafka and marks it sent.
  Kafka is outside the program: what the broker does with each message (\<open>pub\<close>) is an input,
  and a write can be reported as failed although it was stored.  Published messages are kept in
  the session's \<open>wire\<close>, which a rollback does not take back.
\<close>

subsection \<open>Messages\<close>

text \<open>
  \<open>Message\<close> of \<open>stream.go\<close>, with the headers as an association list, the order in which
  \<open>toKafkaHeaders\<close> ranges over the Go map being unspecified.
\<close>

record message =
  m_topic :: string
  m_partition :: int
  m_offset :: int
  m_key :: string
  m_value :: payload
  m_headers :: "(string \<times> string) list"

text \<open>\<open>fromKafkaHeaders\<close>: the last header with a name wins.\<close>

definition from_kafka_headers :: "(string \<times> string) list \<Rightarrow> (string \<times> string) list" where
  "from_kafka_headers h = AList.clearjunk (rev h)"

text \<open>\<open>msg.Headers[k]\<close>: the empty string for a missing key.\<close>

definition header :: "message \<Rightarrow> string \<Rightarrow> string" where
  "header m k = (case map_of (m_headers m) k of None \<Rightarrow> '''' | Some v \<Rightarrow> v)"

text \<open>\<open>strconv.Itoa\<close>\<close>

definition itoa :: "int \<Rightarrow> string" where
  "itoa n = (if n < 0 then CHR ''-'' # format_uint (nat (- n)) else format_uint (nat n))"

text \<open>The message the poller builds for a row; \<open>fmt\<close> is \<open>CreatedAt.Format(time.RFC3339)\<close>.\<close>

definition row_message :: "(nat \<Rightarrow> string) \<Rightarrow> outbox_event \<Rightarrow> message" where
  "row_message fmt e =
     \<lparr>m_topic = ob_topic e, m_partition = 0, m_offset = 0, m_key = ob_event_key e,
      m_value = Doc (ob_payload e),
      m_headers = [(''event_id'', ob_event_id e), (''event_type'', ob_event_type e),
                   (''version'', itoa (ob_version e)), (''occurred_at'', fmt (ob_created_at e))]\<rparr>"

lemma row_message_core: "core r = core s \<Longrightarrow> row_message fmt r = row_message fmt s"
  by (simp add: row_message_def core_eqD [of r s])

lemma header_row_message [simp]: "header (row_message fmt e) ''event_id'' = ob_event_id e"
  by (simp add: header_def row_message_def)

subsection \<open>Publishing\<close>

datatype pub_result = Acked | NotStored string | StoredUnacked string

definition publish :: "(message \<Rightarrow> pub_result) \<Rightarrow> message \<Rightarrow> ('db, message, string option) tx" where
  "publish pub m s = (case pub m of
       Acked \<Rightarrow> (Inr None, s\<lparr>wire := wire s @ [m]\<rparr>)
     | NotStored e \<Rightarrow> (Inr (Some e), s)
     | StoredUnacked e \<Rightarrow> (Inr (Some e), s\<lparr>wire := wire s @ [m]\<rparr>))"

text \<open>
  The handler \<open>tick\<close> gives to \<open>ProcessPending\<close>: a failed publish counts a retry (an error of
  that update is only logged) and goes on with the next event; an error of \<open>MarkAsSent\<close> ends
  the batch and rolls it back.
\<close>

primrec publish_batch ::
  "(nat \<Rightarrow> string) \<Rightarrow> (message \<Rightarrow> pub_result) \<Rightarrow> nat \<Rightarrow> outbox_event list \<Rightarrow>
   ('d svc_db, message, unit) tx" where
  "publish_batch fmt pub now [] = ret ()"
| "publish_batch fmt pub now (e # es) =
     bind_tx (publish pub (row_message fmt e)) (\<lambda>err.
       case err of
         Some msg \<Rightarrow>
           bind_tx (try_tx (increment_retry_count (ob_id e) msg)) (\<lambda>_. publish_batch fmt pub now es)
       | None \<Rightarrow> bind_tx (mark_as_sent now (ob_id e)) (\<lambda>_. publish_batch fmt pub now es))"

definition tick ::
  "(nat \<Rightarrow> string) \<Rightarrow> (message \<Rightarrow> pub_result) \<Rightarrow> nat \<Rightarrow> (nat \<Rightarrow> bool) \<Rightarrow> nat \<Rightarrow>
   ('d svc_db, message, unit) tx" where
  "tick fmt pub now locked batch_size =
     bind_tx (try_tx (process_pending locked batch_size (publish_batch fmt pub now))) (\<lambda>_. ret ())"

lemma holds_publish [op_wp]:
  assumes "\<And>e. pub m = Acked \<Longrightarrow> Q (Inr None) d (w @ [m])"
    and "\<And>e. pub m = NotStored e \<Longrightarrow> Q (Inr (Some e)) d w"
    and "\<And>e. pub m = StoredUnacked e \<Longrightarrow> Q (Inr (Some e)) d (w @ [m])"
  shows "holds (publish pub m) d w Q"
  using assms by (auto simp: holds_def publish_def split: pub_result.splits)

lemma holds_mark_as_sent [op_wp]:
  assumes "\<And>e. is_fault e \<Longrightarrow> Q (Inl e) d w"
    and "Q (Inr ()) (snd (update_outbox i (\<lambda>r. r\<lparr>ob_status := OutboxStatusSent, ob_sent_at := Some now\<rparr>) d)) w"
  shows "holds (mark_as_sent now i) d w Q"
  unfolding mark_as_sent_def
  by (rule holds_stmt) (use assms in \<open>auto simp: update_outbox_def\<close>)

lemma holds_increment_retry_count [op_wp]:
  assumes "\<And>e. is_fault e \<Longrightarrow> Q (Inl e) d w"
    and "Q (Inr ()) (snd (update_outbox i (\<lambda>r. r\<lparr>ob_retry_count := ob_retry_count r + 1, ob_last_error := msg\<rparr>) d)) w"
  shows "holds (increment_retry_count i msg) d w Q"
  unfolding increment_retry_count_def
  by (rule holds_stmt) (use assms in \<open>auto simp: update_outbox_def\<close>)

subsection \<open>What a batch does to the table\<close>

text \<open>
  Between two states of the data during a batch over the rows with ids \<open>ids\<close>, while the messages
  \<open>new\<close> were published: a row is unchanged, or it is a row of the batch that was published and
  marked sent, or one whose publishing failed and whose retry was counted.
\<close>

definition row_step :: "(nat \<Rightarrow> string) \<Rightarrow> nat set \<Rightarrow> message list \<Rightarrow> outbox_event \<Rightarrow> outbox_event \<Rightarrow> bool" where
  "row_step fmt ids new r r' \<longleftrightarrow>
     core r' = core r \<and>
     (r' = r \<or>
      ob_id r \<in> ids \<and>
      (ob_status r' = OutboxStatusSent \<and> ob_retry_count r' = ob_retry_count r \<and>
         row_message fmt r \<in> set new \<or>
       ob_status r' = ob_status r \<and> ob_retry_count r' = Suc (ob_retry_count r)))"

definition batch_effect ::
  "(nat \<Rightarrow> string) \<Rightarrow> outbox_event list \<Rightarrow> 'd svc_db \<Rightarrow> message list \<Rightarrow> 'd svc_db \<Rightarrow> message list \<Rightarrow> bool" where
  "batch_effect fmt es d w d' w' \<longleftrightarrow>
     (\<exists>new. w' = w @ new \<and> subseq new (map (row_message fmt) es) \<and>
        biz d' = biz d \<and> processed d' = processed d \<and> ob_next_id (outbox d') = ob_next_id (outbox d) \<and>
        list_all2 (row_step fmt (ob_id ` set es) new) (ob_rows (outbox d)) (ob_rows (outbox d')))"

lemma row_step_refl [simp]: "row_step fmt ids new r r"
  by (simp add: row_step_def)

lemma batch_effect_refl: "batch_effect fmt es d w d w"
  by (auto simp: batch_effect_def list_all2_refl)

lemma row_step_trans:
  assumes "row_step fmt {i} n1 a b" "row_step fmt ids n2 b c" "i \<notin> ids"
  shows "row_step fmt (insert i ids) (n1 @ n2) a c"
proof -
  have core: "core b = core a" "core c = core b"
    using assms(1,2) unfolding row_step_def by blast+
  then have id: "ob_id b = ob_id a" and msg: "row_message fmt b = row_message fmt a"
    using core_eqD(1) row_message_core by blast+
  show ?thesis
  proof (cases "b = a")
    case True
    then show ?thesis
      using assms(2) unfolding row_step_def set_append by blast
  next
    case False
    then have "ob_id a = i"
      using assms(1) unfolding row_step_def by blast
    then have "ob_id b \<notin> ids"
      using id assms(3) by metis
    then have "c = b"
      using assms(2) unfolding row_step_def by blast
    then show ?thesis
      using assms(1) unfolding row_step_def set_append by blast
  qed
qed

lemma batch_effect_Cons:
  assumes "batch_effect fmt [e] d w d1 w1" "batch_effect fmt es d1 w1 d' w'"
    and "ob_id e \<notin> ob_id ` set es"
  shows "batch_effect fmt (e # es) d w d' w'"
proof -
  obtain n1 where n1: "w1 = w @ n1" "subseq n1 [row_message fmt e]"
    "biz d1 = biz d" "processed d1 = processed d" "ob_next_id (outbox d1) = ob_next_id (outbox d)"
    "list_all2 (row_step fmt {ob_id e} n1) (ob_rows (outbox d)) (ob_rows (outbox d1))"
    using assms(1) by (auto simp: batch_effect_def)
  obtain n2 where n2: "w' = w1 @ n2" "subseq n2 (map (row_message fmt) es)"
    "biz d' = biz d1" "processed d' = processed d1" "ob_next_id (outbox d') = ob_next_id (outbox d1)"
    "list_all2 (row_step fmt (ob_id ` set es) n2) (ob_rows (outbox d1)) (ob_rows (outbox d'))"
    using assms(2) by (auto simp: batch_effect_def)
  have "subseq (n1 @ n2) ([row_message fmt e] @ map (row_message fmt) es)"
    by (rule list_emb_append_mono) (fact n1(2), fact n2(2))
  moreover have "list_all2 (row_step fmt (insert (ob_id e) (ob_id ` set es)) (n1 @ n2))
      (ob_rows (outbox d)) (ob_rows (outbox d'))"
    by (rule list_all2_trans [OF _ n1(6) n2(6)]) (rule row_step_trans [OF _ _ assms(3)])
  ultimately show ?thesis
    using n1 n2 by (auto simp: batch_effect_def)
qed

lemma batch_effect_update:
  assumes "\<And>r. r \<in> set (ob_rows (outbox d)) \<Longrightarrow> ob_id r = ob_id e \<Longrightarrow> row_step fmt {ob_id e} new r (f r)"
    and "subseq new [row_message fmt e]"
  shows "batch_effect fmt [e] d w (snd (update_outbox (ob_id e) f d)) (w @ new)"
proof -
  have "list_all2 (row_step fmt {ob_id e} new) rows (map (\<lambda>r. if ob_id r = ob_id e then f r else r) rows)"
    if "\<And>r. r \<in> set rows \<Longrightarrow> ob_id r = ob_id e \<Longrightarrow> row_step fmt {ob_id e} new r (f r)" for rows
    using that by (induction rows) auto
  with assms show ?thesis
    by (auto simp: batch_effect_def ob_rows_update_outbox)
qed

definition rows_known :: "outbox_event list \<Rightarrow> 'd svc_db \<Rightarrow> bool" where
  "rows_known es d \<longleftrightarrow>
     (\<forall>e \<in> set es. \<forall>r \<in> set (ob_rows (outbox d)). ob_id r = ob_id e \<longrightarrow> core r = core e)"

lemma rows_known_update:
  assumes "rows_known es d" "\<And>r. core (f r) = core r"
  shows "rows_known es (snd (update_outbox i f d))"
proof -
  have "ob_id (f r) = ob_id r" for r
    using assms(2) core_eqD(1) by blast
  with assms show ?thesis
    by (auto simp: rows_known_def ob_rows_update_outbox)
qed

lemma core_sent [simp]: "core (r\<lparr>ob_status := x, ob_sent_at := y\<rparr>) = core r"
  by (simp add: core_def)

lemma core_retry [simp]: "core (r\<lparr>ob_retry_count := x, ob_last_error := y\<rparr>) = core r"
  by (simp add: core_def)

lemma batch_effect_sent:
  assumes "rows_known [e] d"
  shows "batch_effect fmt [e] d w (snd (update_outbox (ob_id e)
    (\<lambda>r. r\<lparr>ob_status := OutboxStatusSent, ob_sent_at := Some now\<rparr>) d)) (w @ [row_message fmt e])"
  by (rule batch_effect_update)
    (use assms in \<open>auto simp: row_step_def rows_known_def intro: row_message_core\<close>)

lemma batch_effect_retry:
  assumes "subseq new [row_message fmt e]"
  shows "batch_effect fmt [e] d w (snd (update_outbox (ob_id e)
    (\<lambda>r. r\<lparr>ob_retry_count := Suc (ob_retry_count r), ob_last_error := msg\<rparr>) d)) (w @ new)"
  by (rule batch_effect_update) (use assms in \<open>auto simp: row_step_def\<close>)

lemma batch_effect_published:
  assumes "subseq new [row_message fmt e]"
  shows "batch_effect fmt [e] d w d (w @ new)"
  using assms by (auto simp: batch_effect_def list_all2_refl)

lemma holds_publish_batch:
  assumes "distinct (map ob_id es)" "rows_known es d"
  shows "holds (publish_batch fmt pub now es) d w (\<lambda>r d' w'. batch_effect fmt es d w d' w')"
  using assms
proof (induction es arbitrary: d w)
  case Nil
  then show ?case by (auto intro!: holds_ret batch_effect_refl)
next
  case (Cons e es)
  have fresh: "ob_id e \<notin> ob_id ` set es" using Cons.prems(1) by auto
  have known: "rows_known [e] d" "rows_known es d"
    using Cons.prems(2) by (auto simp: rows_known_def)
  have rest: "holds (publish_batch fmt pub now es) d1 w1 (\<lambda>r d' w'. batch_effect fmt (e # es) d w d' w')"
    if "rows_known es d1" "batch_effect fmt [e] d w d1 w1" for d1 w1
    by (rule holds_conseq [OF Cons.IH])
      (use Cons.prems(1) that fresh in \<open>auto intro: batch_effect_Cons\<close>)
  have stop: "batch_effect fmt (e # es) d w d1 w1" if "batch_effect fmt [e] d w d1 w1" for d1 w1
    by (rule batch_effect_Cons [OF that batch_effect_refl fresh])
  have failed: "holds (bind_tx (try_tx (increment_retry_count (ob_id e) msg)) (\<lambda>_. publish_batch fmt pub now es))
      d (w @ new) (\<lambda>r d' w'. batch_effect fmt (e # es) d w d' w')" if "subseq new [row_message fmt e]" for msg new
    by (intro holds_bind holds_try holds_increment_retry_count)
      (auto intro!: rest known rows_known_update batch_effect_retry batch_effect_published that)
  show ?case
    unfolding publish_batch.simps
    apply (intro holds_bind holds_publish; simp only: sum.case option.case)
      apply (intro holds_bind holds_mark_as_sent; simp only: sum.case)
       apply (intro stop batch_effect_published, simp)
      apply (intro rest rows_known_update known batch_effect_sent, simp)
     apply (use failed [of "[]"] in simp)
    apply (intro failed, simp)
    done
qed

subsection \<open>A tick\<close>

lemma holds_tick:
  assumes "outbox_ok (outbox d)"
  shows "holds (tick fmt pub now locked n) d w (\<lambda>r d' w'.
    batch_effect fmt (pending_rows locked n (ob_rows (outbox d))) d w d' w')"
proof -
  let ?es = "pending_rows locked n (ob_rows (outbox d))"
  let ?Q = "\<lambda>d' w'. batch_effect fmt ?es d w d' w'"
  have roll: "?Q d w'" if "?Q d' w'" for d' w'
    using that by (auto simp: batch_effect_def list_all2_refl)
  have "distinct (map ob_id ?es)"
    using assms by (intro pending_rows_distinct) (simp add: outbox_ok_def)
  moreover have "rows_known ?es d"
    using assms unfolding rows_known_def outbox_ok_def
    by (metis distinct_key_eq pending_rows_member)
  ultimately have b: "holds (publish_batch fmt pub now ?es) d w (\<lambda>r d' w'. ?Q d' w')"
    by (rule holds_publish_batch)
  have "holds (process_pending locked n (publish_batch fmt pub now)) d w (\<lambda>r d' w'. ?Q d' w')"
    unfolding process_pending_def
    apply (rule holds_transaction, rule batch_effect_refl)
    apply (intro holds_bind holds_query; simp add: batch_effect_refl)
    apply (intro conjI impI holds_ret)
     apply (simp add: batch_effect_refl)
    apply (rule holds_conseq [OF b])
    apply (auto split: sum.splits intro: roll)
    done
  then show ?thesis
    unfolding tick_def by (intro holds_bind holds_try) (auto intro!: holds_ret elim: holds_conseq)
qed

text \<open>The table of a tick: same rows, same immutable columns, and the invariant is kept.\<close>

lemma batch_effect_core:
  "batch_effect fmt es d w d' w' \<Longrightarrow> map core (ob_rows (outbox d')) = map core (ob_rows (outbox d))"
  by (auto simp: batch_effect_def row_step_def list_all2_conv_all_nth intro!: nth_equalityI)

lemma batch_effect_outbox_ok:
  "batch_effect fmt es d w d' w' \<Longrightarrow> outbox_ok (outbox d') = outbox_ok (outbox d)"
  by (rule outbox_ok_core [OF batch_effect_core]) (auto simp: batch_effect_def)

subsection \<open>Properties\<close>

text \<open>How one row may look after a tick over a table with unique ids.\<close>

definition row_after_tick :: "(nat \<Rightarrow> string) \<Rightarrow> message list \<Rightarrow> outbox_event \<Rightarrow> outbox_event \<Rightarrow> bool" where
  "row_after_tick fmt new r r' \<longleftrightarrow>
     core r' = core r \<and>
     (r' = r \<or>
      is_pending r \<and>
      (ob_status r' = OutboxStatusSent \<and> ob_retry_count r' = ob_retry_count r \<and> row_message fmt r \<in> set new \<or>
       ob_status r' = OutboxStatusPending \<and> ob_retry_count r' = Suc (ob_retry_count r)))"

lemma row_step_pending:
  assumes "outbox_ok t" "r \<in> set (ob_rows t)"
    and "row_step fmt (ob_id ` set (pending_rows locked n (ob_rows t))) new r r'"
  shows "row_after_tick fmt new r r'"
proof -
  have "is_pending r" if "ob_id r \<in> ob_id ` set (pending_rows locked n (ob_rows t))"
  proof -
    from that obtain e where e: "e \<in> set (pending_rows locked n (ob_rows t))" "ob_id e = ob_id r" by force
    with assms(1,2) have "e = r"
      unfolding outbox_ok_def by (metis distinct_key_eq pending_rows_member)
    with e show ?thesis by (auto dest: pending_rows_member)
  qed
  then show ?thesis
    using assms(3) unfolding row_step_def row_after_tick_def by (metis is_pending_def)
qed

lemma holds_tick_rows:
  assumes "outbox_ok (outbox d)"
  shows "holds (tick fmt pub now locked n) d w (\<lambda>r d' w'.
    biz d' = biz d \<and> processed d' = processed d \<and> outbox_ok (outbox d') \<and>
    (\<exists>new. w' = w @ new \<and> subseq new (map (row_message fmt) (pending_rows locked n (ob_rows (outbox d)))) \<and>
       list_all2 (row_after_tick fmt new) (ob_rows (outbox d)) (ob_rows (outbox d'))))"
proof (rule holds_conseq [OF holds_tick [OF assms]], intro conjI)
  fix d' :: "'a svc_db" and w'
  assume b: "batch_effect fmt (pending_rows locked n (ob_rows (outbox d))) d w d' w'"
  then show "biz d' = biz d" "processed d' = processed d" "outbox_ok (outbox d')"
    using batch_effect_outbox_ok [OF b] assms by (auto simp: batch_effect_def)
  from b obtain new where new: "w' = w @ new"
    "subseq new (map (row_message fmt) (pending_rows locked n (ob_rows (outbox d))))"
    "list_all2 (row_step fmt (ob_id ` set (pending_rows locked n (ob_rows (outbox d)))) new)
       (ob_rows (outbox d)) (ob_rows (outbox d'))"
    by (auto simp: batch_effect_def)
  have "list_all2 (row_after_tick fmt new) (ob_rows (outbox d)) (ob_rows (outbox d'))"
    by (rule list.rel_mono_strong [OF new(3)]) (rule row_step_pending [OF assms])
  with new show "\<exists>new. w' = w @ new \<and>
      subseq new (map (row_message fmt) (pending_rows locked n (ob_rows (outbox d)))) \<and>
      list_all2 (row_after_tick fmt new) (ob_rows (outbox d)) (ob_rows (outbox d'))" by blast
qed

text \<open>A run without faults over a broker that acknowledges everything.\<close>

definition sent_rows :: "nat \<Rightarrow> outbox_event list \<Rightarrow> 'd svc_db \<Rightarrow> 'd svc_db" where
  "sent_rows now es d = d\<lparr>outbox := (outbox d)\<lparr>ob_rows := map (\<lambda>r. if ob_id r \<in> ob_id ` set es
     then r\<lparr>ob_status := OutboxStatusSent, ob_sent_at := Some now\<rparr> else r) (ob_rows (outbox d))\<rparr>\<rparr>"

lemma sent_rows_Nil [simp]: "sent_rows now [] d = d"
  by (simp add: sent_rows_def)

lemma sent_rows_Cons:
  "sent_rows now es (snd (update_outbox (ob_id e)
     (\<lambda>r. r\<lparr>ob_status := OutboxStatusSent, ob_sent_at := Some now\<rparr>) d)) = sent_rows now (e # es) d"
  by (auto simp: sent_rows_def update_outbox_def update_rows_def)

lemma publish_batch_acked:
  "publish_batch fmt (\<lambda>_. Acked) now es \<lparr>db = d, sched = [], wire = w\<rparr> =
     (Inr (), \<lparr>db = sent_rows now es d, sched = [], wire = w @ map (row_message fmt) es\<rparr>)"
proof (induction es arbitrary: d w)
  case Nil
  show ?case by (simp add: ret_def)
next
  case (Cons e es)
  have "mark_as_sent now (ob_id e) \<lparr>db = d, sched = [], wire = w @ [row_message fmt e]\<rparr> =
      (Inr (), \<lparr>db = snd (update_outbox (ob_id e)
        (\<lambda>r. r\<lparr>ob_status := OutboxStatusSent, ob_sent_at := Some now\<rparr>) d), sched = [], wire = w @ [row_message fmt e]\<rparr>)"
    by (simp add: mark_as_sent_def stmt_def next_reply_def update_outbox_def)
  then show ?case
    by (simp add: bind_tx_def publish_def Cons.IH sent_rows_Cons del: OutboxStatusSent_def)
qed

lemma tick_acked:
  "tick fmt (\<lambda>_. Acked) now locked n \<lparr>db = d, sched = [], wire = w\<rparr> =
     (let es = pending_rows locked n (ob_rows (outbox d)) in
      (Inr (), \<lparr>db = sent_rows now es d, sched = [], wire = w @ map (row_message fmt) es\<rparr>))"
proof (cases "pending_rows locked n (ob_rows (outbox d)) = []")
  case True
  then show ?thesis
    by (simp add: tick_def process_pending_def run_simps)
next
  case False
  then show ?thesis
    by (simp add: tick_def process_pending_def publish_batch_acked Let_def
        bind_tx_def try_tx_def transaction_def next_reply_def query_def stmt_def ret_def)
qed

text \<open>In a well-formed table the rows of a batch are the rows with their ids, and what is not in it is still pending.\<close>

lemma batch_marked:
  assumes "outbox_ok (outbox d)" and "waiting = sort_key ob_created_at (filter is_pending (ob_rows (outbox d)))"
  shows "sent_rows now (take n waiting) d = d\<lparr>outbox := (outbox d)\<lparr>ob_rows := map (\<lambda>e. if e \<in> set (take n waiting)
    then e\<lparr>ob_status := OutboxStatusSent, ob_sent_at := Some now\<rparr> else e) (ob_rows (outbox d))\<rparr>\<rparr>"
proof -
  have "set (take n waiting) \<subseteq> set (ob_rows (outbox d))" using set_take_subset [of n waiting] assms(2) by auto
  moreover have "inj_on ob_id (set (ob_rows (outbox d)))" using assms(1) by (simp add: outbox_ok_def distinct_map)
  ultimately have "ob_id e \<in> ob_id ` set (take n waiting) \<longleftrightarrow> e \<in> set (take n waiting)" if "e \<in> set (ob_rows (outbox d))" for e
    using that by (meson inj_on_image_mem_iff)
  then show ?thesis by (simp add: sent_rows_def cong: map_cong)
qed

lemma batch_left:
  assumes "outbox_ok (outbox d)" and "waiting = sort_key ob_created_at (filter is_pending (ob_rows (outbox d)))"
  shows "sort_key ob_created_at (filter is_pending (ob_rows (outbox (sent_rows now (take n waiting) d)))) = drop n waiting"
proof -
  let ?rows = "ob_rows (outbox d)" and ?f = "\<lambda>e. e\<lparr>ob_status := OutboxStatusSent, ob_sent_at := Some now\<rparr>"
  have "filter is_pending (map (\<lambda>e. if e \<in> B then ?f e else e) rows) = filter (\<lambda>e. e \<notin> B) (filter is_pending rows)" for B rows
    by (induction rows) (auto simp: is_pending_def)
  then have "sort_key ob_created_at (filter is_pending (ob_rows (outbox (sent_rows now (take n waiting) d)))) =
      filter (\<lambda>e. e \<notin> set (take n waiting)) waiting"
    unfolding batch_marked [OF assms] by (simp only: assms(2) filter_sort) simp
  also have "distinct waiting" using assms by (simp add: outbox_ok_def distinct_map)
  then have "filter (\<lambda>e. e \<notin> set (take n waiting)) waiting = drop n waiting" by (rule distinct_filter_drop)
  finally show ?thesis .
qed

text \<open>A small table to apply the properties to.\<close>

definition demo_event :: "nat \<Rightarrow> string \<Rightarrow> nat \<Rightarrow> nat \<Rightarrow> outbox_event" where
  "demo_event i k tries t =
     \<lparr>ob_id = i, ob_event_id = k, ob_topic = TopicOrderEvents, ob_event_key = ''7'', ob_event_type = OrderCreated,
      ob_version = 1, ob_payload = JObj [], ob_status = OutboxStatusPending, ob_retry_count = tries,
      ob_last_error = '''', ob_created_at = t, ob_sent_at = None\<rparr>"

definition demo_outbox :: "unit svc_db" where
  "demo_outbox = \<lparr>biz = (), outbox = \<lparr>ob_rows = [demo_event 1 ''a'' 0 20, demo_event 2 ''b'' 5 5, demo_event 3 ''c'' 1 10],
     ob_next_id = 4\<rparr>, processed = []\<rparr>"

lemma demo_outbox_ok: "outbox_ok (outbox demo_outbox)"
  by (simp add: demo_outbox_def outbox_ok_def demo_event_def)

text \<open>
  C6: at-least-once publishing.  Whatever the database and the broker do during a tick, no outbox
  row is lost and no immutable column changes, the business tables and the processed events stay
  as they were, a row the tick turned to sent has its message on the wire, and the messages
  published are those of pending rows in the order of their creation times.
\<close>

theorem tick_at_least_once:
  assumes "outbox_ok (outbox d)"
  shows "holds (tick fmt pub now locked n) d w (\<lambda>r d' w'.
    r = Inr () \<and> biz d' = biz d \<and> processed d' = processed d \<and> outbox_ok (outbox d') \<and>
    map core (ob_rows (outbox d')) = map core (ob_rows (outbox d)) \<and>
    (\<exists>new. w' = w @ new \<and> subseq new (map (row_message fmt) (pending_rows locked n (ob_rows (outbox d)))) \<and>
       (\<forall>r' \<in> set (ob_rows (outbox d')). ob_status r' = OutboxStatusSent \<longrightarrow>
          r' \<in> set (ob_rows (outbox d)) \<or> row_message fmt r' \<in> set new)))"
proof -
  have unit: "holds (tick fmt pub now locked n) d w (\<lambda>r d' w'. r = Inr ())"
    by (simp add: holds_def tick_def bind_tx_def try_tx_def ret_def split: prod.splits)
  show ?thesis
  proof (rule holds_conseq [OF holds_conj [OF unit holds_tick_rows [OF assms]]], elim conjE exE, intro conjI)
    fix r :: "go_error + unit" and d' :: "'a svc_db" and w' new
    assume *: "list_all2 (row_after_tick fmt new) (ob_rows (outbox d)) (ob_rows (outbox d'))" and w': "w' = w @ new"
      and sub: "subseq new (map (row_message fmt) (pending_rows locked n (ob_rows (outbox d))))"
    show "map core (ob_rows (outbox d')) = map core (ob_rows (outbox d))"
      using * by (auto simp: list_all2_conv_all_nth row_after_tick_def intro!: nth_equalityI)
    have "r' \<in> set (ob_rows (outbox d)) \<or> row_message fmt r' \<in> set new"
      if "r' \<in> set (ob_rows (outbox d'))" "ob_status r' = OutboxStatusSent" for r'
    proof -
      from that(1) * obtain r0 where "r0 \<in> set (ob_rows (outbox d))" "row_after_tick fmt new r0 r'"
        by (blast dest: list_all2_source)
      moreover from this have "row_message fmt r0 = row_message fmt r'"
        by (intro row_message_core) (simp add: row_after_tick_def)
      ultimately show ?thesis
        using that(2) by (auto simp: row_after_tick_def)
    qed
    with w' sub show "\<exists>new. w' = w @ new \<and>
        subseq new (map (row_message fmt) (pending_rows locked n (ob_rows (outbox d)))) \<and>
        (\<forall>r' \<in> set (ob_rows (outbox d')). ob_status r' = OutboxStatusSent \<longrightarrow>
          r' \<in> set (ob_rows (outbox d)) \<or> row_message fmt r' \<in> set new)" by blast
  qed
qed

lemma tick_at_least_once_witness:
  "holds (tick (\<lambda>t. itoa (int t)) (\<lambda>_. NotStored ''down'') 99 (\<lambda>_. False) 100) demo_outbox []
     (\<lambda>r d' w'. outbox_ok (outbox d'))"
  by (rule holds_conseq [OF tick_at_least_once [OF demo_outbox_ok]]) simp

text \<open>
  C17: the retry budget.  No tick takes a row's retry count above \<open>MaxRetries\<close>, and a pending row
  that has used its retries up is never touched again: it stays pending, it is never marked failed.
\<close>

theorem tick_retry_budget:
  assumes "outbox_ok (outbox d)"
    and "\<forall>r \<in> set (ob_rows (outbox d)). ob_retry_count r \<le> MaxRetries \<and> ob_status r \<noteq> OutboxStatusFailed"
  shows "holds (tick fmt pub now locked n) d w (\<lambda>_ d' _.
    (\<forall>r \<in> set (ob_rows (outbox d')). ob_retry_count r \<le> MaxRetries \<and> ob_status r \<noteq> OutboxStatusFailed) \<and>
    (\<forall>r \<in> set (ob_rows (outbox d)). ob_retry_count r = MaxRetries \<longrightarrow> r \<in> set (ob_rows (outbox d'))))"
proof (rule holds_conseq [OF holds_tick_rows [OF assms(1)]], elim conjE exE)
  fix d' :: "'a svc_db" and new
  assume *: "list_all2 (row_after_tick fmt new) (ob_rows (outbox d)) (ob_rows (outbox d'))"
  have "ob_retry_count r \<le> MaxRetries \<and> ob_status r \<noteq> OutboxStatusFailed" if "r \<in> set (ob_rows (outbox d'))" for r
  proof -
    from that * obtain r0 where "r0 \<in> set (ob_rows (outbox d))" "row_after_tick fmt new r0 r"
      by (blast dest: list_all2_source)
    with assms(2) show ?thesis
      by (auto simp: row_after_tick_def is_pending_def)
  qed
  moreover have "r \<in> set (ob_rows (outbox d'))" if "r \<in> set (ob_rows (outbox d))" "ob_retry_count r = MaxRetries" for r
  proof -
    from that(1) * obtain r' where "r' \<in> set (ob_rows (outbox d'))" "row_after_tick fmt new r r'"
      by (blast dest: list_all2_target)
    with that(2) show ?thesis
      by (auto simp: row_after_tick_def is_pending_def)
  qed
  ultimately show "(\<forall>r \<in> set (ob_rows (outbox d')). ob_retry_count r \<le> MaxRetries \<and> ob_status r \<noteq> OutboxStatusFailed) \<and>
    (\<forall>r \<in> set (ob_rows (outbox d)). ob_retry_count r = MaxRetries \<longrightarrow> r \<in> set (ob_rows (outbox d')))" by blast
qed

lemma tick_retry_budget_witness:
  "holds (tick (\<lambda>t. itoa (int t)) (\<lambda>_. NotStored ''down'') 99 (\<lambda>_. False) 100) demo_outbox []
     (\<lambda>_ d' _. demo_event 2 ''b'' 5 5 \<in> set (ob_rows (outbox d')))"
  by (rule holds_conseq [OF tick_retry_budget [OF demo_outbox_ok]]) (auto simp: demo_outbox_def demo_event_def)

text \<open>
  C16: progress.  When the database replies to everything and the broker acknowledges every message, a tick publishes
  the oldest pending rows, as many as its batch holds, each once and in the order of their creation times.  Exactly these rows
  become \<open>sent\<close>, with the time of the tick, every other row and everything else stays; the rows behind the batch are
  what is pending afterwards, so the next ticks go on with them, and a batch that holds all pending rows leaves none.
\<close>

theorem tick_drains:
  assumes "outbox_ok (outbox d)"
    and "tick fmt (\<lambda>_. Acked) now (\<lambda>_. False) n \<lparr>db = d, sched = [], wire = w\<rparr> = (r, s')"
    and "waiting = sort_key ob_created_at (filter is_pending (ob_rows (outbox d)))"
  shows "r = Inr () \<and> wire s' = w @ map (row_message fmt) (take n waiting) \<and>
    db s' = d\<lparr>outbox := (outbox d)\<lparr>ob_rows := map (\<lambda>e. if e \<in> set (take n waiting)
       then e\<lparr>ob_status := ''sent'', ob_sent_at := Some now\<rparr> else e) (ob_rows (outbox d))\<rparr>\<rparr> \<and>
    sort_key ob_created_at (filter is_pending (ob_rows (outbox (db s')))) = drop n waiting"
proof -
  have es: "pending_rows (\<lambda>_. False) n (ob_rows (outbox d)) = take n waiting"
    by (simp add: pending_rows_def assms(3))
  show ?thesis
    using assms(2) batch_left [OF assms(1,3), where n = n and now = now] batch_marked [OF assms(1,3), where n = n and now = now]
    by (auto simp: tick_acked es Let_def)
qed

lemma tick_drains_witness:
  "case tick (\<lambda>t. itoa (int t)) (\<lambda>_. Acked) 99 (\<lambda>_. False) 1 \<lparr>db = demo_outbox, sched = [], wire = []\<rparr> of (r, s) \<Rightarrow>
     wire s = [row_message (\<lambda>t. itoa (int t)) (demo_event 3 ''c'' 1 10)] \<and>
     ob_rows (outbox (db s)) = [demo_event 1 ''a'' 0 20, demo_event 2 ''b'' 5 5,
       (demo_event 3 ''c'' 1 10)\<lparr>ob_status := ''sent'', ob_sent_at := Some 99\<rparr>] \<and>
     filter is_pending (ob_rows (outbox (db s))) = [demo_event 1 ''a'' 0 20]"
proof -
  have rows: "sort_key ob_created_at (filter is_pending (ob_rows (outbox demo_outbox))) = [demo_event 3 ''c'' 1 10, demo_event 1 ''a'' 0 20]"
    by (simp add: demo_outbox_def demo_event_def is_pending_def)
  obtain r s where s: "tick (\<lambda>t. itoa (int t)) (\<lambda>_. Acked) 99 (\<lambda>_. False) 1 \<lparr>db = demo_outbox, sched = [], wire = []\<rparr> = (r, s)"
    by (cases "tick (\<lambda>t. itoa (int t)) (\<lambda>_. Acked) 99 (\<lambda>_. False) 1 \<lparr>db = demo_outbox, sched = [], wire = []\<rparr>")
  from tick_drains [OF demo_outbox_ok s rows [symmetric]] show ?thesis
    unfolding s prod.case by (simp add: demo_outbox_def demo_event_def is_pending_def)
qed

end
