(* ===== verification/OrderConsumer.thy ===== *)
theory OrderConsumer
  imports OrderLogic Idempotent Poller
begin

text \<open>
  The order service's Kafka consumers: \<open>svc/inventory_event_consumer.go\<close> (a failed reservation
  cancels the order and writes \<open>order.cancelled\<close>) and \<open>svc/user_event_consumer.go\<close> (the
  \<open>known_users\<close> view).  A handler's error makes the consumer leave the offset uncommitted.
\<close>

subsection \<open>inventory-events\<close>

definition handle_reservation_failed :: "order_env \<Rightarrow> json \<Rightarrow> (order_db, 'm, unit) tx" where
  "handle_reservation_failed env data =
     bind_tx (lift_err (unmarshal_reservation_failed data)) (\<lambda>d.
     bind_tx (try_tx (query (\<lambda>db. first_row (\<lambda>o'. live o' \<and> o_id o' = rf_order_id d) (orders (biz db))))) (\<lambda>found.
       case found of
         Inl err \<Rightarrow> if errors_is err ErrRecordNotFound then ret () else throw err
       | Inr o' \<Rightarrow>
           if o_status o' = StatusCancelled then ret ()
           else
             bind_tx (cancel_order_row (en_now env) (o_user_id o') (o_id o') (o_version o') ReasonOutOfStock)
               (\<lambda>(affected, ord).
                 if affected = 0 then ret ()
                 else case ord of
                   None \<Rightarrow> throw (PlainError ''nil pointer dereference'')
                 | Some cancelled \<Rightarrow>
                     bind_tx (lift_err (cancelled_event env cancelled ReasonOutOfStock)) (\<lambda>e.
                     bind_tx (outbox_insert e) (\<lambda>_. ret ())))))"

definition inventory_event_body :: "order_env \<Rightarrow> envelope \<Rightarrow> (order_db, 'm, unit) tx" where
  "inventory_event_body env envl =
     (if env_event envl = ReservationFailed then handle_reservation_failed env (envelope_data envl)
      else if env_event envl = InventoryReserved then ret ()
      else ret ())"

definition handle_inventory_event :: "order_env \<Rightarrow> message \<Rightarrow> (order_db, 'm, unit) tx" where
  "handle_inventory_event env msg =
     (let event_id = header msg ''event_id'' in
      if event_id = '''' then ret ()
      else case unmarshal_envelope (m_value msg) of
             Inl err \<Rightarrow> throw err
           | Inr envl \<Rightarrow>
               bind_tx (process event_id (inventory_event_body env envl)) (\<lambda>processed_now. ret ()))"

subsection \<open>user-events\<close>

text \<open>
  The result of \<open>Process\<close>, from which the handler takes the label it counts: the event was
  handled now, or had been before.
\<close>

definition user_event_processed :: "bool \<Rightarrow> string \<Rightarrow> message \<Rightarrow> (order_db, 'm, bool option) tx" where
  "user_event_processed zero_dates seen msg =
     (let event_id = header msg ''event_id'' in
      if event_id = '''' then ret None
      else case unmarshal_envelope (m_value msg) of
             Inl err \<Rightarrow> throw err
           | Inr envl \<Rightarrow>
               bind_tx (process event_id (
                 bind_tx (lift_err (unmarshal_user_registered (envelope_data envl))) (\<lambda>u.
                 upsert_known_user zero_dates seen (ur_user_id u) (ur_username u)))) (\<lambda>p. ret (Some p)))"

definition handle_user_event :: "bool \<Rightarrow> string \<Rightarrow> message \<Rightarrow> (order_db, 'm, unit) tx" where
  "handle_user_event zero_dates seen msg =
     bind_tx (user_event_processed zero_dates seen msg) (\<lambda>_. ret ())"

subsection \<open>What the handlers do\<close>

text \<open>
  The effect of an inventory event on the data, when its handling succeeds: none, and then no pending order was
  refused its stock; or a pending order is cancelled for lack of stock, with its outbox event.
\<close>

definition none_pending :: "order_db \<Rightarrow> json \<Rightarrow> bool" where
  "none_pending d data \<longleftrightarrow> (\<exists>rf. unmarshal_reservation_failed data = Inr rf \<and>
     (\<forall>o'. order_row d (rf_order_id rf) = Some o' \<longrightarrow> o_status o' \<noteq> StatusPending))"

definition inventory_event_effect :: "order_env \<Rightarrow> envelope \<Rightarrow> order_db \<Rightarrow> order_db \<Rightarrow> bool" where
  "inventory_event_effect env envl d d' \<longleftrightarrow>
     d' = d \<and> (env_event envl = ReservationFailed \<longrightarrow> none_pending d (envelope_data envl)) \<or>
     (\<exists>rf o' c e. env_event envl = ReservationFailed \<and>
        unmarshal_reservation_failed (envelope_data envl) = Inr rf \<and> order_row d (rf_order_id rf) = Some o' \<and>
        order_cancelled_by env o' ReasonOutOfStock d c e d')"

lemma holds_handle_reservation_failed:
  assumes ok: "orders_ok d" and ev: "env_event envl = ReservationFailed"
  shows "holds (handle_reservation_failed env (envelope_data envl)) d w
    (\<lambda>r d' w'. w' = w \<and> (r = Inr () \<longrightarrow> inventory_event_effect env envl d d'))"
    (is "holds _ _ _ ?Q")
proof (cases "unmarshal_reservation_failed (envelope_data envl)")
  case (Inl e)
  then show ?thesis
    unfolding handle_reservation_failed_def by (intro holds_bind holds_lift_err) simp
next
  case (Inr rf)
  have skip: "?Q r d w" if "\<And>o'. order_row d (rf_order_id rf) = Some o' \<Longrightarrow> o_status o' \<noteq> StatusPending" for r
    using that Inr by (auto simp: inventory_event_effect_def none_pending_def)
  have event: "holds (bind_tx (lift_err (cancelled_event env (set_cancelled ReasonOutOfStock (en_now env) c) ReasonOutOfStock))
      (\<lambda>e. bind_tx (outbox_insert e) (\<lambda>_. ret ()))) (put_order (o_id o') (set_cancelled ReasonOutOfStock (en_now env)) d) w ?Q"
    if o': "order_row d (rf_order_id rf) = Some o'"
      and c: "current d (o_user_id o') (o_id o') StatusPending (o_version o') c" for o' c
  proof (rule holds_bind, rule holds_lift_err,
      cases "cancelled_event env (set_cancelled ReasonOutOfStock (en_now env) c) ReasonOutOfStock")
    case (Inr e)
    have "inventory_event_effect env envl d ((put_order (o_id o') (set_cancelled ReasonOutOfStock (en_now env)) d)
        \<lparr>outbox := insert_row e (outbox d)\<rparr>)" if "\<not> event_id_used (ob_event_id e) (outbox d)"
      unfolding inventory_event_effect_def order_cancelled_by_def
      by (rule disjI2, rule exI [of _ rf], rule exI [of _ o'], rule exI [of _ c], rule exI [of _ e])
        (use ev \<open>unmarshal_reservation_failed (envelope_data envl) = Inr rf\<close> o' c Inr that in simp)
    with Inr show "case cancelled_event env (set_cancelled ReasonOutOfStock (en_now env) c) ReasonOutOfStock of
        Inl e \<Rightarrow> ?Q (Inl e) (put_order (o_id o') (set_cancelled ReasonOutOfStock (en_now env)) d) w
      | Inr a \<Rightarrow> holds (bind_tx (outbox_insert a) (\<lambda>_. ret ()))
          (put_order (o_id o') (set_cancelled ReasonOutOfStock (en_now env)) d) w ?Q"
      by (auto intro!: holds_bind holds_outbox_insert holds_ret)
  qed simp
  have gone: "o_status o' \<noteq> StatusPending"
    if "order_row d (rf_order_id rf) = Some o'" "\<And>c. \<not> current d (o_user_id o') (o_id o') StatusPending (o_version o') c" for o'
    using that order_row_Some [OF ok] unfolding current_def by metis
  show ?thesis
    unfolding handle_reservation_failed_def Inr
    apply (rule holds_bind, rule holds_lift_err, simp only: sum.case)
    apply (rule holds_bind, rule holds_try, rule holds_query; simp only: sum.case)
     apply (simp add: fault_not_found, rule holds_throw, simp)
    apply (cases "order_row d (rf_order_id rf)")
     apply (simp add: first_row_def order_row_def, rule holds_ret, rule skip, simp add: order_row_def)
    subgoal for o'
      apply (simp add: first_row_def order_row_def del: ReasonOutOfStock_def StatusCancelled_def)
      apply (intro conjI impI, rule holds_ret, rule skip, simp add: order_row_def)
      apply (rule holds_bind, rule holds_cancel_order_row [OF ok]; simp only: sum.case prod.case option.case)
         apply simp
        apply (simp, rule holds_ret, rule skip, use gone in \<open>simp add: order_row_def\<close>)
       apply simp
      apply (use event [of o'] in \<open>simp add: order_row_def del: ReasonOutOfStock_def StatusPending_def\<close>)
      done
    done
qed

lemma holds_inventory_event_body:
  assumes "orders_ok d"
  shows "holds (inventory_event_body env envl) d w
    (\<lambda>r d' w'. w' = w \<and> (r = Inr () \<longrightarrow> inventory_event_effect env envl d d'))"
  unfolding inventory_event_body_def
  by (intro holds_if holds_ret holds_handle_reservation_failed [OF assms])
    (simp_all add: inventory_event_effect_def)

lemma inventory_event_effect_processed:
  "inventory_event_effect env envl d d' \<Longrightarrow> was_processed d' = was_processed d"
  by (auto simp: inventory_event_effect_def order_cancelled_by_def was_processed_def)

definition inventory_message_effect :: "order_env \<Rightarrow> message \<Rightarrow> order_db \<Rightarrow> order_db \<Rightarrow> bool" where
  "inventory_message_effect env msg d d' \<longleftrightarrow>
     d' = d \<or>
     (\<exists>envl d1. \<not> was_processed d (header msg ''event_id'') \<and> unmarshal_envelope (m_value msg) = Inr envl \<and>
        inventory_event_effect env envl d d1 \<and> d' = mark_processed (header msg ''event_id'') d1)"

lemma holds_handle_inventory_event:
  assumes "orders_ok d"
  shows "holds (handle_inventory_event env msg) d w (\<lambda>r d' w'. w' = w \<and> inventory_message_effect env msg d d')"
proof -
  let ?Q = "\<lambda>r d' w'. w' = w \<and> inventory_message_effect env msg d d'"
  have same: "?Q r d w" for r by (simp add: inventory_message_effect_def)
  have "holds (process (header msg ''event_id'') (inventory_event_body env envl)) d w (\<lambda>r d' w'. ?Q r d' w')"
    if envl: "unmarshal_envelope (m_value msg) = Inr envl" for envl
  proof (rule holds_process)
    assume new: "\<not> was_processed d (header msg ''event_id'')"
    show "holds (inventory_event_body env envl) d w (\<lambda>r d' w'. case r of
        Inl e \<Rightarrow> ?Q (Inl e) d w'
      | Inr x \<Rightarrow> (was_processed d' (header msg ''event_id'') \<longrightarrow> ?Q (Inl ErrDupEntry) d w') \<and>
          (\<forall>e. is_fault e \<longrightarrow> ?Q (Inl e) d w') \<and>
          (\<not> was_processed d' (header msg ''event_id'') \<longrightarrow>
            ?Q (Inr True) (mark_processed (header msg ''event_id'') d') w' \<and>
            (\<forall>e. is_fault e \<longrightarrow> ?Q (Inl e) (mark_processed (header msg ''event_id'') d') w')))"
      by (rule holds_conseq [OF holds_inventory_event_body [OF assms]])
        (use new envl in \<open>auto simp: inventory_message_effect_def split: sum.splits\<close>)
  qed (rule same)+
  then show ?thesis
    unfolding handle_inventory_event_def Let_def
    by (intro holds_if holds_ret holds_case_sum holds_throw holds_bind same)
      (auto elim!: holds_conseq intro!: holds_ret split: sum.splits)
qed

end
