(* ===== verification/InventoryRepo.thy ===== *)
theory InventoryRepo
  imports Outbox LabFaults
begin

text \<open>
  The inventory service's tables and \<open>repository/inventory.go\<close>: \<open>products\<close> with the redundant
  column \<open>available\<close>, and \<open>inventory_reservations\<close> with a unique \<open>order_id\<close>
  (\<open>common/xdb/migrations/inventory\<close>).

  Two things come from outside and are parameters.  \<open>ck\<close> is the collation key of a SKU: the
  tables use \<open>utf8mb4_unicode_ci\<close>, so \<open>sku = ?\<close> compares keys, not bytes.  \<open>tx_err\<close> is what GORM
  leaves in the \<open>Error\<close> field of the transaction handle after a chained call on it failed with the
  given error; \<open>decrementErr\<close> reads it there.

  The locale \<open>reserve_op\<close> is the contract of \<open>InventoryRepositoryInterface.Reserve\<close>; both lock
  orders implement it.
\<close>

definition ReservationStatusReserved :: string where [simp]: "ReservationStatusReserved = ''reserved''"
definition ReservationStatusReleased :: string where [simp]: "ReservationStatusReleased = ''released''"

definition ReservationStatusActive :: "string \<Rightarrow> bool" where
  "ReservationStatusActive s \<longleftrightarrow> s = ReservationStatusReserved"

record product =
  p_sku :: string
  p_total :: int
  p_available :: int

record reservation =
  rv_id :: nat
  rv_order_id :: nat
  rv_sku :: string
  rv_quantity :: int
  rv_status :: string
  rv_created_at :: nat

record inventory_tables =
  products :: "product list"
  reservations :: "reservation list"
  next_reservation_id :: nat

type_synonym inventory_db = "inventory_tables svc_db"
type_synonym collation = "string \<Rightarrow> string"

definition int_column :: "int \<Rightarrow> bool" where
  "int_column x \<longleftrightarrow> - (2 ^ 31) \<le> x \<and> x < 2 ^ 31"

subsection \<open>Operations\<close>

definition get_product :: "collation \<Rightarrow> string \<Rightarrow> (inventory_db, 'm, product) tx" where
  "get_product ck sku = query (\<lambda>d. first_row (\<lambda>p. ck (p_sku p) = ck sku) (products (biz d)))"

definition find_reservation_by_order_id :: "nat \<Rightarrow> (inventory_db, 'm, reservation) tx" where
  "find_reservation_by_order_id oid = query (\<lambda>d. first_row (\<lambda>r. rv_order_id r = oid) (reservations (biz d)))"

text \<open>
  \<open>UPDATE products SET available = f(available) WHERE p\<close>; a value outside \<open>INT\<close> is error 1264.
\<close>

definition update_available ::
  "(product \<Rightarrow> bool) \<Rightarrow> int \<Rightarrow> inventory_db \<Rightarrow> (go_error + nat) \<times> inventory_db" where
  "update_available p delta d =
     (if \<exists>q \<in> set (products (biz d)). p q \<and> \<not> int_column (p_available q + delta) then (Inl (MySQLError 1264), d)
      else let (rows, n) = update_rows p (\<lambda>q. q\<lparr>p_available := p_available q + delta\<rparr>) (products (biz d))
           in (Inr n, d\<lparr>biz := (biz d)\<lparr>products := rows\<rparr>\<rparr>))"

text \<open>
  \<open>decrementAvailable\<close>: the affected rows, or \<open>-1\<close> after an error, here with the error.
\<close>

definition decrement_available ::
  "collation \<Rightarrow> string \<Rightarrow> int \<Rightarrow> (inventory_db, 'm, int \<times> go_error option) tx" where
  "decrement_available ck sku qty =
     bind_tx (try_tx (stmt (update_available (\<lambda>q. ck (p_sku q) = ck sku \<and> qty \<le> p_available q) (- qty))))
       (\<lambda>r. case r of Inl e \<Rightarrow> ret (-1, Some e) | Inr n \<Rightarrow> ret (int n, None))"

definition create_reservation :: "nat \<Rightarrow> nat \<Rightarrow> string \<Rightarrow> int \<Rightarrow> (inventory_db, 'm, unit) tx" where
  "create_reservation now oid sku qty = stmt (\<lambda>d.
     let t = biz d in
     if 64 < length sku then (Inl (MySQLError 1406), d)
     else if \<not> int_column qty then (Inl (MySQLError 1264), d)
     else if \<exists>r \<in> set (reservations t). rv_order_id r = oid then (Inl ErrDupEntry, d)
     else (Inr (), d\<lparr>biz := t\<lparr>reservations := reservations t @
             [\<lparr>rv_id = next_reservation_id t, rv_order_id = oid, rv_sku = sku, rv_quantity = qty,
               rv_status = ReservationStatusReserved, rv_created_at = now\<rparr>],
             next_reservation_id := Suc (next_reservation_id t)\<rparr>\<rparr>))"

text \<open>The branch after \<open>decrementAvailable\<close>; \<open>decrementErr\<close> is the \<open>tx_err\<close> of the statement's error.\<close>

definition decrementErr :: "(go_error \<Rightarrow> go_error option) \<Rightarrow> go_error option \<Rightarrow> go_error option" where
  "decrementErr tx_err e = (case e of None \<Rightarrow> None | Some x \<Rightarrow> tx_err x)"

text \<open>\<open>SELECT SLEEP(?)\<close>, its error ignored; no statement when the setting is not positive.\<close>

definition deadlock_sleep :: "environ \<Rightarrow> (inventory_db, 'm, unit) tx" where
  "deadlock_sleep getenv =
     (if BugEnvInt getenv ''BUG_DEADLOCK_SLEEP_MS'' 300 \<le> 0 then ret ()
      else bind_tx (try_tx (query (\<lambda>_. Inr ()))) (\<lambda>_. ret ()))"

definition reserve_ordered ::
  "(go_error \<Rightarrow> go_error option) \<Rightarrow> collation \<Rightarrow> nat \<Rightarrow> nat \<Rightarrow> string \<Rightarrow> int \<Rightarrow> (inventory_db, 'm, int) tx" where
  "reserve_ordered tx_err ck now oid sku qty =
     bind_tx (bind_tx (try_tx (find_reservation_by_order_id oid)) (\<lambda>existing.
       case existing of
         Inl err \<Rightarrow> if errors_is err ErrRecordNotFound then ret () else throw err
       | Inr _ \<Rightarrow> ret ())) (\<lambda>_.
     bind_tx (decrement_available ck sku qty) (\<lambda>(affected, e).
       if affected = 0 then ret 0
       else if affected < 0 then
         (case decrementErr tx_err e of None \<Rightarrow> ret 0 | Some x \<Rightarrow> throw x)
       else bind_tx (create_reservation now oid sku qty) (\<lambda>_. ret 1)))"

definition reserve_reversed ::
  "(go_error \<Rightarrow> go_error option) \<Rightarrow> collation \<Rightarrow> environ \<Rightarrow> nat \<Rightarrow> nat \<Rightarrow> string \<Rightarrow> int \<Rightarrow> (inventory_db, 'm, int) tx" where
  "reserve_reversed tx_err ck getenv now oid sku qty =
     bind_tx (decrement_available ck sku qty) (\<lambda>(affected, e).
       if affected = 0 then ret 0
       else if affected < 0 then
         (case decrementErr tx_err e of None \<Rightarrow> ret 0 | Some x \<Rightarrow> throw x)
       else bind_tx (deadlock_sleep getenv) (\<lambda>_. bind_tx (create_reservation now oid sku qty) (\<lambda>_. ret 1)))"

definition reserve ::
  "(go_error \<Rightarrow> go_error option) \<Rightarrow> collation \<Rightarrow> environ \<Rightarrow> nat \<Rightarrow> nat \<Rightarrow> string \<Rightarrow> int \<Rightarrow> (inventory_db, 'm, int) tx" where
  "reserve tx_err ck getenv now oid sku qty =
     (if BugEnabled getenv ''BUG_DB_DEADLOCK'' then reserve_reversed tx_err ck getenv now oid sku qty
      else reserve_ordered tx_err ck now oid sku qty)"

definition release :: "collation \<Rightarrow> environ \<Rightarrow> nat \<Rightarrow> (inventory_db, 'm, int) tx" where
  "release ck getenv oid =
     bind_tx (find_reservation_by_order_id oid) (\<lambda>res.
       if rv_status res = ReservationStatusReleased then ret 0
       else
         bind_tx (stmt (\<lambda>d. (Inr (), d\<lparr>biz := (biz d)\<lparr>reservations := fst (update_rows
             (\<lambda>r. rv_order_id r = oid \<and> rv_status r = ReservationStatusReserved)
             (\<lambda>r. r\<lparr>rv_status := ReservationStatusReleased\<rparr>) (reservations (biz d)))\<rparr>\<rparr>))) (\<lambda>_.
         bind_tx (if BugEnabled getenv ''BUG_DB_DEADLOCK'' then deadlock_sleep getenv else ret ()) (\<lambda>_.
         bind_tx (stmt (update_available (\<lambda>q. ck (p_sku q) = ck (rv_sku res)) (rv_quantity res))) (\<lambda>_. ret 1))))"

subsection \<open>The stock invariant\<close>

definition held :: "collation \<Rightarrow> string \<Rightarrow> reservation list \<Rightarrow> int" where
  "held ck s rs = sum_where (\<lambda>r. ReservationStatusActive (rv_status r) \<and> ck (rv_sku r) = s) rv_quantity rs"

text \<open>
  What the comment on \<open>Product\<close> promises: \<open>available = total - SUM(active reservations)\<close>, with
  unique SKUs and order ids, and nothing below zero.
\<close>

definition stock_ok :: "collation \<Rightarrow> inventory_db \<Rightarrow> bool" where
  "stock_ok ck d \<longleftrightarrow>
     distinct (map (\<lambda>p. ck (p_sku p)) (products (biz d))) \<and>
     distinct (map rv_order_id (reservations (biz d))) \<and>
     (\<forall>r \<in> set (reservations (biz d)). 0 \<le> rv_quantity r \<and>
        rv_status r \<in> {ReservationStatusReserved, ReservationStatusReleased}) \<and>
     (\<forall>p \<in> set (products (biz d)). 0 \<le> p_available p \<and>
        p_available p = p_total p - held ck (ck (p_sku p)) (reservations (biz d)))"

definition add_available :: "collation \<Rightarrow> string \<Rightarrow> int \<Rightarrow> inventory_db \<Rightarrow> inventory_db" where
  "add_available ck s delta d = d\<lparr>biz := (biz d)\<lparr>products :=
     map (\<lambda>q. if ck (p_sku q) = s then q\<lparr>p_available := p_available q + delta\<rparr> else q) (products (biz d))\<rparr>\<rparr>"

lemma add_available_frame [simp]:
  "outbox (add_available ck s delta d) = outbox d" "processed (add_available ck s delta d) = processed d"
  "reservations (biz (add_available ck s delta d)) = reservations (biz d)"
  "next_reservation_id (biz (add_available ck s delta d)) = next_reservation_id (biz d)"
  by (simp_all add: add_available_def)

lemma update_available_one:
  assumes "distinct (map (\<lambda>p. ck (p_sku p)) (products (biz d)))" and p: "\<And>q. p q \<Longrightarrow> ck (p_sku q) = s"
  shows "update_available p delta d =
    (if \<exists>q \<in> set (products (biz d)). p q \<and> \<not> int_column (p_available q + delta) then (Inl (MySQLError 1264), d)
     else if delta \<noteq> 0 \<and> (\<exists>q \<in> set (products (biz d)). p q) then (Inr 1, add_available ck s delta d)
     else (Inr 0, d))"
proof (cases "delta = 0")
  case True
  then show ?thesis by (simp add: update_available_def update_rows_def)
next
  case False
  then have f: "q\<lparr>p_available := p_available q + delta\<rparr> \<noteq> q" for q
    by (cases q) simp
  have "update_rows p (\<lambda>q. q\<lparr>p_available := p_available q + delta\<rparr>) (products (biz d)) =
    (if \<exists>q \<in> set (products (biz d)). p q
     then (map (\<lambda>q. if ck (p_sku q) = s then q\<lparr>p_available := p_available q + delta\<rparr> else q) (products (biz d)), 1)
     else (products (biz d), 0))"
    by (rule update_rows_keyed [where k = "\<lambda>q. ck (p_sku q)"]) (use assms f in auto)
  with False show ?thesis
    by (simp add: update_available_def add_available_def split: if_splits)
qed

subsection \<open>Reserving\<close>

definition product_for :: "collation \<Rightarrow> string \<Rightarrow> inventory_db \<Rightarrow> product \<Rightarrow> bool" where
  "product_for ck sku d p \<longleftrightarrow> p \<in> set (products (biz d)) \<and> ck (p_sku p) = ck sku"

definition add_reservation :: "nat \<Rightarrow> nat \<Rightarrow> string \<Rightarrow> int \<Rightarrow> inventory_db \<Rightarrow> inventory_db" where
  "add_reservation now oid sku qty d = d\<lparr>biz := (biz d)\<lparr>reservations := reservations (biz d) @
     [\<lparr>rv_id = next_reservation_id (biz d), rv_order_id = oid, rv_sku = sku, rv_quantity = qty,
       rv_status = ReservationStatusReserved, rv_created_at = now\<rparr>],
     next_reservation_id := Suc (next_reservation_id (biz d))\<rparr>\<rparr>"

text \<open>Stock for the order was there, nothing was reserved for it yet, and now it is.\<close>

definition reserved_by :: "collation \<Rightarrow> nat \<Rightarrow> nat \<Rightarrow> string \<Rightarrow> int \<Rightarrow> inventory_db \<Rightarrow> inventory_db \<Rightarrow> bool" where
  "reserved_by ck now oid sku qty d d' \<longleftrightarrow>
     (\<exists>p. product_for ck sku d p \<and> qty \<le> p_available p) \<and> qty \<noteq> 0 \<and>
     (\<forall>r \<in> set (reservations (biz d)). rv_order_id r \<noteq> oid) \<and>
     d' = add_reservation now oid sku qty (add_available ck (ck sku) (- qty) d)"

definition short_of_stock :: "collation \<Rightarrow> string \<Rightarrow> int \<Rightarrow> inventory_db \<Rightarrow> bool" where
  "short_of_stock ck sku qty d \<longleftrightarrow> qty = 0 \<or> (\<forall>p. product_for ck sku d p \<longrightarrow> p_available p < qty)"

locale reserve_op =
  fixes ck :: collation
    and now :: nat
    and res :: "nat \<Rightarrow> string \<Rightarrow> int \<Rightarrow> (inventory_db, 'm, int) tx"
  assumes res_effect: "stock_ok ck d \<Longrightarrow> holds (res oid sku qty) d w (\<lambda>r d' w'. w' = w \<and>
      (\<forall>n. r = Inr n \<longrightarrow> n = 1 \<and> reserved_by ck now oid sku qty d d' \<or> n = 0 \<and> d' = d))"
begin

text \<open>An order that already has a reservation never gets another one, and no stock moves.\<close>

lemma no_second_reservation:
  assumes "stock_ok ck d" "r0 \<in> set (reservations (biz d))" "rv_order_id r0 = oid"
  shows "holds (res oid sku qty) d w (\<lambda>r d' _. \<forall>n. r = Inr n \<longrightarrow> n = 0 \<and> d' = d)"
  by (rule holds_conseq [OF res_effect [OF assms(1)]]) (use assms(2,3) in \<open>auto simp: reserved_by_def\<close>)

end

lemma held_append:
  "held ck s (rs @ [r]) = held ck s rs +
     (if ReservationStatusActive (rv_status r) \<and> ck (rv_sku r) = s then rv_quantity r else 0)"
  by (simp add: held_def)

lemma held_nonneg:
  "(\<forall>r \<in> set rs. 0 \<le> rv_quantity r) \<Longrightarrow> 0 \<le> held ck s rs"
  unfolding held_def by (rule sum_where_nonneg) simp

lemma stock_ok_reserved_by:
  assumes ok: "stock_ok ck d" and r: "reserved_by ck now oid sku qty d d'" and "0 \<le> qty"
  shows "stock_ok ck d'"
proof -
  from r obtain p where p: "p \<in> set (products (biz d))" "ck (p_sku p) = ck sku" "qty \<le> p_available p"
    and new: "\<forall>r \<in> set (reservations (biz d)). rv_order_id r \<noteq> oid"
    and d': "d' = add_reservation now oid sku qty (add_available ck (ck sku) (- qty) d)"
    by (auto simp: reserved_by_def product_for_def)
  have uniq: "q = p" if "q \<in> set (products (biz d))" "ck (p_sku q) = ck sku" for q
    using that p ok unfolding stock_ok_def by (metis distinct_key_eq)
  show ?thesis
    unfolding stock_ok_def
  proof (intro conjI ballI)
    show "distinct (map (\<lambda>p. ck (p_sku p)) (products (biz d')))"
      using ok unfolding stock_ok_def d'
      by (auto simp: add_reservation_def add_available_def comp_def if_distrib [of p_sku] cong: if_cong)
    show "distinct (map rv_order_id (reservations (biz d')))"
      using ok new unfolding stock_ok_def d' by (auto simp: add_reservation_def)
  next
    fix r assume "r \<in> set (reservations (biz d'))"
    with ok \<open>0 \<le> qty\<close> show "0 \<le> rv_quantity r" "rv_status r \<in> {ReservationStatusReserved, ReservationStatusReleased}"
      unfolding stock_ok_def d' by (auto simp: add_reservation_def)
  next
    fix q assume "q \<in> set (products (biz d'))"
    then obtain q0 where q0: "q0 \<in> set (products (biz d))"
      "q = (if ck (p_sku q0) = ck sku then q0\<lparr>p_available := p_available q0 - qty\<rparr> else q0)"
      unfolding d' by (auto simp: add_reservation_def add_available_def)
    have old: "0 \<le> p_available q0" "p_available q0 = p_total q0 - held ck (ck (p_sku q0)) (reservations (biz d))"
      using ok q0(1) unfolding stock_ok_def by blast+
    have res: "held ck s (reservations (biz d')) = held ck s (reservations (biz d)) + (if ck sku = s then qty else 0)" for s
      unfolding d' by (simp add: add_reservation_def held_append ReservationStatusActive_def)
    show "0 \<le> p_available q" "p_available q = p_total q - held ck (ck (p_sku q)) (reservations (biz d'))"
      using q0 old uniq [OF q0(1)] p(3) by (auto simp: res)
  qed
qed

subsection \<open>Both lock orders reserve\<close>

lemma stock_ok_distinct: "stock_ok ck d \<Longrightarrow> distinct (map (\<lambda>p. ck (p_sku p)) (products (biz d)))"
  by (simp add: stock_ok_def)

lemma holds_decrement_available:
  assumes ok: "stock_ok ck d"
    and err: "\<And>e. Q (Inr (-1, Some e)) d w"
    and short: "short_of_stock ck sku qty d \<Longrightarrow> Q (Inr (0, None)) d w"
    and taken: "\<And>p. product_for ck sku d p \<Longrightarrow> qty \<le> p_available p \<Longrightarrow> qty \<noteq> 0 \<Longrightarrow>
      Q (Inr (1, None)) (add_available ck (ck sku) (- qty) d) w"
  shows "holds (decrement_available ck sku qty) d w Q"
proof -
  have u: "update_available (\<lambda>q. ck (p_sku q) = ck sku \<and> qty \<le> p_available q) (- qty) d =
    (if \<exists>q \<in> set (products (biz d)). (ck (p_sku q) = ck sku \<and> qty \<le> p_available q) \<and> \<not> int_column (p_available q + - qty)
     then (Inl (MySQLError 1264), d)
     else if - qty \<noteq> 0 \<and> (\<exists>q \<in> set (products (biz d)). ck (p_sku q) = ck sku \<and> qty \<le> p_available q)
     then (Inr 1, add_available ck (ck sku) (- qty) d) else (Inr 0, d))"
    by (rule update_available_one [OF stock_ok_distinct [OF ok]]) simp
  have "short_of_stock ck sku qty d"
    if "qty = 0 \<or> \<not> (\<exists>q \<in> set (products (biz d)). ck (p_sku q) = ck sku \<and> qty \<le> p_available q)"
    using that by (fastforce simp: short_of_stock_def product_for_def)
  with short have short': "Q (Inr (0, None)) d w"
    if "qty = 0 \<or> \<not> (\<exists>q \<in> set (products (biz d)). ck (p_sku q) = ck sku \<and> qty \<le> p_available q)"
    using that by blast
  show ?thesis
    unfolding decrement_available_def
    apply (intro holds_bind holds_try holds_stmt)
     apply (simp, intro holds_ret err)
    unfolding u
    apply (auto intro!: holds_ret err short' taken simp: product_for_def)
    done
qed

lemma holds_create_reservation:
  assumes "\<And>e. Q (Inl e) d w"
    and "\<forall>r \<in> set (reservations (biz d)). rv_order_id r \<noteq> oid \<Longrightarrow> Q (Inr ()) (add_reservation now oid sku qty d) w"
  shows "holds (create_reservation now oid sku qty) d w Q"
  unfolding create_reservation_def
  by (rule holds_stmt) (use assms in \<open>auto simp: Let_def add_reservation_def\<close>)

lemma holds_deadlock_sleep:
  "Q (Inr ()) d w \<Longrightarrow> holds (deadlock_sleep getenv) d w Q"
  unfolding deadlock_sleep_def by (intro holds_if holds_ret holds_bind holds_try holds_query) (auto intro!: holds_ret)

lemma holds_create_taken:
  assumes "product_for ck sku d p" "qty \<le> p_available p" "qty \<noteq> 0"
  shows "holds (bind_tx (create_reservation now oid sku qty) (\<lambda>_. ret (1 :: int)))
    (add_available ck (ck sku) (- qty) d) w (\<lambda>r d' w'. w' = w \<and>
      (\<forall>n. r = Inr n \<longrightarrow> n = 1 \<and> reserved_by ck now oid sku qty d d' \<or> n = 0 \<and> d' = d))"
  by (intro holds_bind holds_create_reservation)
    (use assms in \<open>auto intro!: holds_ret simp: reserved_by_def\<close>)

lemma holds_after_decrement:
  assumes ok: "stock_ok ck d"
    and Q: "\<And>r d' w'. Q r d' w' \<longleftrightarrow> w' = w \<and>
      (\<forall>n. r = Inr n \<longrightarrow> n = 1 \<and> reserved_by ck now oid sku qty d d' \<or> n = 0 \<and> d' = d)"
    and k: "\<And>p. product_for ck sku d p \<Longrightarrow> qty \<le> p_available p \<Longrightarrow> qty \<noteq> 0 \<Longrightarrow>
      holds k (add_available ck (ck sku) (- qty) d) w Q"
  shows "holds (bind_tx (decrement_available ck sku qty) (\<lambda>(affected, e).
      if affected = 0 then ret 0
      else if affected < 0 then (case decrementErr tx_err e of None \<Rightarrow> ret 0 | Some x \<Rightarrow> throw x)
      else k)) d w Q"
proof (rule holds_bind, rule holds_decrement_available [OF ok], goal_cases)
  case (1 e)
  show ?case by (auto simp: Q intro!: holds_ret holds_throw holds_case_option)
next
  case 2
  show ?case by (auto simp: Q intro!: holds_ret)
next
  case (3 p)
  then show ?case by (simp add: k)
qed

lemma reserve_ordered_effect:
  assumes "stock_ok ck d"
  shows "holds (reserve_ordered tx_err ck now oid sku qty) d w (\<lambda>r d' w'. w' = w \<and>
      (\<forall>n. r = Inr n \<longrightarrow> n = 1 \<and> reserved_by ck now oid sku qty d d' \<or> n = 0 \<and> d' = d))"
    (is "holds _ _ _ ?Q")
proof -
  have tail: "holds (bind_tx (decrement_available ck sku qty) (\<lambda>(affected, e).
      if affected = 0 then ret 0
      else if affected < 0 then (case decrementErr tx_err e of None \<Rightarrow> ret 0 | Some x \<Rightarrow> throw x)
      else bind_tx (create_reservation now oid sku qty) (\<lambda>_. ret 1))) d w ?Q"
    by (rule holds_after_decrement [OF assms refl holds_create_taken])
  show ?thesis
    unfolding reserve_ordered_def find_reservation_by_order_id_def
    apply (intro holds_bind holds_try holds_query)
     apply (simp add: fault_not_found, rule holds_throw, simp)
    apply (cases "find (\<lambda>r. rv_order_id r = oid) (reservations (biz d))"; simp add: first_row_def)
     apply (rule holds_ret, simp only: sum.case, rule tail)+
    done
qed

lemma reserve_reversed_effect:
  assumes "stock_ok ck d"
  shows "holds (reserve_reversed tx_err ck getenv now oid sku qty) d w (\<lambda>r d' w'. w' = w \<and>
      (\<forall>n. r = Inr n \<longrightarrow> n = 1 \<and> reserved_by ck now oid sku qty d d' \<or> n = 0 \<and> d' = d))"
  unfolding reserve_reversed_def
  by (rule holds_after_decrement [OF assms refl], rule holds_bind, rule holds_deadlock_sleep)
    (simp only: sum.case, rule holds_create_taken)

lemma reserve_effect:
  assumes "stock_ok ck d"
  shows "holds (reserve tx_err ck getenv now oid sku qty) d w (\<lambda>r d' w'. w' = w \<and>
      (\<forall>n. r = Inr n \<longrightarrow> n = 1 \<and> reserved_by ck now oid sku qty d d' \<or> n = 0 \<and> d' = d))"
  unfolding reserve_def
  using assms by (intro holds_if reserve_ordered_effect reserve_reversed_effect)

interpretation ordered: reserve_op ck now "reserve_ordered tx_err ck now" for ck now tx_err
  by unfold_locales (rule reserve_ordered_effect)

interpretation reversed: reserve_op ck now "reserve_reversed tx_err ck getenv now" for ck now tx_err getenv
  by unfold_locales (rule reserve_reversed_effect)

interpretation either: reserve_op ck now "reserve tx_err ck getenv now" for ck now tx_err getenv
  by unfold_locales (rule reserve_effect)

subsection \<open>Releasing\<close>

definition set_released :: "nat \<Rightarrow> inventory_db \<Rightarrow> inventory_db" where
  "set_released oid d = d\<lparr>biz := (biz d)\<lparr>reservations :=
     map (\<lambda>r. if rv_order_id r = oid then r\<lparr>rv_status := ReservationStatusReleased\<rparr> else r) (reservations (biz d))\<rparr>\<rparr>"

definition released_by :: "collation \<Rightarrow> nat \<Rightarrow> inventory_db \<Rightarrow> inventory_db \<Rightarrow> bool" where
  "released_by ck oid d d' \<longleftrightarrow>
     (\<exists>r \<in> set (reservations (biz d)). rv_order_id r = oid \<and> rv_status r = ReservationStatusReserved \<and>
        d' = add_available ck (ck (rv_sku r)) (rv_quantity r) (set_released oid d))"

definition not_held :: "nat \<Rightarrow> inventory_db \<Rightarrow> bool" where
  "not_held oid d \<longleftrightarrow> (\<forall>r \<in> set (reservations (biz d)). rv_order_id r = oid \<longrightarrow> rv_status r \<noteq> ReservationStatusReserved)"

lemma set_released_frame [simp]:
  "outbox (set_released oid d) = outbox d" "processed (set_released oid d) = processed d"
  "products (biz (set_released oid d)) = products (biz d)"
  "next_reservation_id (biz (set_released oid d)) = next_reservation_id (biz d)"
  "reservations (biz (set_released oid d)) =
     map (\<lambda>r. if rv_order_id r = oid then r\<lparr>rv_status := ReservationStatusReleased\<rparr> else r) (reservations (biz d))"
  by (simp_all add: set_released_def)

lemma update_available_any:
  assumes "distinct (map (\<lambda>p. ck (p_sku p)) (products (biz d)))"
  shows "update_available (\<lambda>q. ck (p_sku q) = ck sku) delta d = (Inl (MySQLError 1264), d) \<or>
    (\<exists>n. update_available (\<lambda>q. ck (p_sku q) = ck sku) delta d = (Inr n, add_available ck (ck sku) delta d))"
proof -
  have "add_available ck (ck sku) delta d = d"
    if "delta = 0 \<or> \<not> (\<exists>q \<in> set (products (biz d)). ck (p_sku q) = ck sku)"
  proof -
    have "map (\<lambda>q. if ck (p_sku q) = ck sku then q\<lparr>p_available := p_available q + delta\<rparr> else q) (products (biz d)) =
        products (biz d)"
      using that by (intro map_idI) auto
    then show ?thesis by (simp add: add_available_def)
  qed
  then show ?thesis
    using update_available_one [OF assms, of "\<lambda>q. ck (p_sku q) = ck sku" "ck sku" delta] by auto
qed

lemma release_effect:
  assumes ok: "stock_ok ck d"
  shows "holds (release ck getenv oid) d w (\<lambda>r d' w'. w' = w \<and>
    (\<forall>n. r = Inr n \<longrightarrow> n = 1 \<and> released_by ck oid d d' \<or> n = 0 \<and> d' = d \<and> not_held oid d) \<and>
    (\<forall>e. r = Inl e \<and> errors_is e ErrRecordNotFound \<longrightarrow> d' = d \<and> not_held oid d))"
    (is "holds _ _ _ ?Q")
proof -
  have uniq: "distinct (map rv_order_id (reservations (biz d)))" using ok by (simp add: stock_ok_def)
  show ?thesis
  proof (cases "find (\<lambda>r. rv_order_id r = oid) (reservations (biz d))")
    case None
    then show ?thesis
      unfolding release_def find_reservation_by_order_id_def
      by (intro holds_bind holds_query)
        (auto simp: first_row_def not_held_def dest: find_NoneD)
  next
    case (Some res)
    then have res: "res \<in> set (reservations (biz d))" "rv_order_id res = oid" by (auto dest: find_SomeD)
    have only: "r = res" if "r \<in> set (reservations (biz d))" "rv_order_id r = oid" for r
      using that res uniq by (metis distinct_key_eq)
    show ?thesis
    proof (cases "rv_status res = ReservationStatusReleased")
      case True
      with Some only show ?thesis
        unfolding release_def find_reservation_by_order_id_def
        by (intro holds_bind holds_query) (auto simp: first_row_def not_held_def intro!: holds_ret)
    next
      case False
      then have st: "rv_status res = ReservationStatusReserved"
        using ok res(1) unfolding stock_ok_def by blast
      have "map (\<lambda>r. if rv_order_id r = oid \<and> rv_status r = ReservationStatusReserved
            then r\<lparr>rv_status := ReservationStatusReleased\<rparr> else r) (reservations (biz d)) =
          map (\<lambda>r. if rv_order_id r = oid then r\<lparr>rv_status := ReservationStatusReleased\<rparr> else r) (reservations (biz d))"
        by (rule map_cong) (use only st in auto)
      then have flip: "d\<lparr>biz := (biz d)\<lparr>reservations := fst (update_rows
           (\<lambda>r. rv_order_id r = oid \<and> rv_status r = ReservationStatusReserved)
           (\<lambda>r. r\<lparr>rv_status := ReservationStatusReleased\<rparr>) (reservations (biz d)))\<rparr>\<rparr> = set_released oid d"
        by (simp only: update_rows_def set_released_def fst_conv)
      define E where "E = update_available (\<lambda>q. ck (p_sku q) = ck (rv_sku res)) (rv_quantity res) (set_released oid d)"
      have final: "holds (bind_tx (stmt (update_available (\<lambda>q. ck (p_sku q) = ck (rv_sku res)) (rv_quantity res))) (\<lambda>_. ret 1))
          (set_released oid d) w ?Q"
      proof (intro holds_bind holds_stmt)
        have "E = (Inl (MySQLError 1264), set_released oid d) \<or>
          (\<exists>n. E = (Inr n, add_available ck (ck (rv_sku res)) (rv_quantity res) (set_released oid d)))"
          using update_available_any [of ck "set_released oid d" "rv_sku res" "rv_quantity res"]
            stock_ok_distinct [OF ok] by (simp add: E_def)
        moreover have "released_by ck oid d (add_available ck (ck (rv_sku res)) (rv_quantity res) (set_released oid d))"
          unfolding released_by_def using res st by blast
        ultimately show "case update_available (\<lambda>q. ck (p_sku q) = ck (rv_sku res)) (rv_quantity res) (set_released oid d) of
          (r, d') \<Rightarrow> case r of Inl e \<Rightarrow> ?Q (Inl e) d' w | Inr a \<Rightarrow> holds (ret 1) d' w ?Q"
          by (auto simp: E_def intro!: holds_ret)
      qed (auto simp: fault_not_found)
      show ?thesis
        unfolding release_def find_reservation_by_order_id_def
        apply (rule holds_bind, rule holds_query)
         apply (simp add: fault_not_found)
        apply (simp only: first_row_def Some option.case sum.case False if_False)
        apply (rule holds_bind, rule holds_stmt)
         apply (simp add: fault_not_found)
        apply (simp only: flip prod.case sum.case)
        apply (rule holds_bind, rule holds_if)
         apply (rule holds_deadlock_sleep, simp only: sum.case, rule final)
        apply (rule holds_ret, simp only: sum.case, rule final)
        done
    qed
  qed
qed

lemma held_set_released:
  assumes "distinct (map rv_order_id rs)" "r \<in> set rs" "rv_order_id r = oid" "rv_status r = ReservationStatusReserved"
  shows "held ck s (map (\<lambda>r. if rv_order_id r = oid then r\<lparr>rv_status := ReservationStatusReleased\<rparr> else r) rs) =
    held ck s rs - (if ck (rv_sku r) = s then rv_quantity r else 0)"
proof (cases "ck (rv_sku r) = s")
  case True
  then show ?thesis
    using sum_where_map_out [OF assms(1,2), of "\<lambda>r. ReservationStatusActive (rv_status r) \<and> ck (rv_sku r) = s"
        "\<lambda>r. r\<lparr>rv_status := ReservationStatusReleased\<rparr>" rv_quantity] assms(3,4)
    by (simp add: held_def ReservationStatusActive_def)
next
  case False
  have "held ck s (map (\<lambda>r. if rv_order_id r = oid then r\<lparr>rv_status := ReservationStatusReleased\<rparr> else r) rs) = held ck s rs"
  proof -
    have "r' = r" if "r' \<in> set rs" "rv_order_id r' = oid" for r'
      using assms(1-3) that by (metis distinct_key_eq)
    then have "\<forall>r' \<in> set rs. rv_order_id r' = oid \<longrightarrow> ck (rv_sku r') \<noteq> s"
      using False by blast
    then show ?thesis
      unfolding held_def by (induction rs) auto
  qed
  with False show ?thesis by simp
qed

lemma stock_ok_released_by:
  assumes ok: "stock_ok ck d" and r: "released_by ck oid d d'"
  shows "stock_ok ck d'"
proof -
  from r obtain r where r: "r \<in> set (reservations (biz d))" "rv_order_id r = oid"
      "rv_status r = ReservationStatusReserved"
    and d': "d' = add_available ck (ck (rv_sku r)) (rv_quantity r) (set_released oid d)"
    by (auto simp: released_by_def)
  have uniq: "distinct (map rv_order_id (reservations (biz d)))" using ok by (simp add: stock_ok_def)
  show ?thesis
    unfolding stock_ok_def
  proof (intro conjI ballI)
    show "distinct (map (\<lambda>p. ck (p_sku p)) (products (biz d')))"
      using ok unfolding stock_ok_def d'
      by (auto simp: add_available_def comp_def if_distrib [of p_sku] cong: if_cong)
    show "distinct (map rv_order_id (reservations (biz d')))"
      using uniq unfolding d' by (simp add: comp_def if_distrib [of rv_order_id] cong: if_cong)
  next
    fix x assume "x \<in> set (reservations (biz d'))"
    with ok show "0 \<le> rv_quantity x" "rv_status x \<in> {ReservationStatusReserved, ReservationStatusReleased}"
      unfolding stock_ok_def d' by auto
  next
    fix q assume "q \<in> set (products (biz d'))"
    then obtain q0 where q0: "q0 \<in> set (products (biz d))"
      "q = (if ck (p_sku q0) = ck (rv_sku r) then q0\<lparr>p_available := p_available q0 + rv_quantity r\<rparr> else q0)"
      unfolding d' by (auto simp: add_available_def)
    have old: "0 \<le> p_available q0" "p_available q0 = p_total q0 - held ck (ck (p_sku q0)) (reservations (biz d))"
      using ok q0(1) unfolding stock_ok_def by blast+
    have pos: "0 \<le> rv_quantity r" using ok r(1) unfolding stock_ok_def by blast
    have res: "held ck s (reservations (biz d')) = held ck s (reservations (biz d)) -
        (if ck (rv_sku r) = s then rv_quantity r else 0)" for s
      unfolding d' using held_set_released [OF uniq r] by simp
    show "0 \<le> p_available q" "p_available q = p_total q - held ck (ck (p_sku q)) (reservations (biz d'))"
      using q0(2) old pos by (auto simp: res)
  qed
qed

end
