(* ===== verification/Retry.thy ===== *)
theory Retry
  imports GoRuntime
begin

text \<open>
  The two retry loops: \<open>common/xdb/retry.go\<close> (\<open>WithRetry\<close>, around a whole database
  transaction) and \<open>common/client/retry.go\<close> (\<open>RetryUnaryInterceptor\<close>, around a gRPC call).
  The function that is tried is a state transformer, so the theorems speak about everything it
  does; the result of waiting (\<open>ctx\<close>: the context was done during the wait after that
  attempt, with this error) and the random jitter are inputs.
\<close>

subsection \<open>Lock errors\<close>

definition errDeadlock :: nat where "errDeadlock = 1213"
definition errLockWaitTimeout :: nat where "errLockWaitTimeout = 1205"

definition IsDeadlock :: "go_error \<Rightarrow> bool" where
  "IsDeadlock e = (case errors_as_mysql e of
     Some n \<Rightarrow> n = errDeadlock \<or> n = errLockWaitTimeout
   | None \<Rightarrow> False)"

record retry_options =
  max_attempts :: int
  base_delay :: int
  max_delay :: int

definition millisecond :: int where "millisecond = 1000000"

definition DefaultRetryOptions :: retry_options where
  "DefaultRetryOptions =
     \<lparr>max_attempts = 3, base_delay = 50 * millisecond, max_delay = 500 * millisecond\<rparr>"

subsection \<open>WithRetry\<close>

text \<open>
  The loop with \<open>left\<close> attempts left, before attempt \<open>n\<close>, with the error of the attempt before:
  \<open>left = MaxAttempts - n + 1\<close>, so \<open>attempt <= MaxAttempts\<close> is \<open>left > 0\<close> and
  \<open>attempt >= MaxAttempts\<close> is \<open>left = 1\<close>.  The result is the error (\<open>None\<close> for nil), the
  state, and the \<open>outcome\<close> labels added to \<open>db_deadlocks_total\<close>.
\<close>

primrec retry_loop ::
  "(nat \<Rightarrow> go_error option) \<Rightarrow> ('s \<Rightarrow> go_error option \<times> 's) \<Rightarrow>
   nat \<Rightarrow> nat \<Rightarrow> go_error option \<Rightarrow> 's \<Rightarrow> go_error option \<times> 's \<times> string list" where
  "retry_loop ctx fn 0 n err s = (err, s, [])"
| "retry_loop ctx fn (Suc left) n err s =
     (case fn s of
        (None, s1) \<Rightarrow> (None, s1, [])
      | (Some e, s1) \<Rightarrow>
          if \<not> IsDeadlock e then (Some e, s1, [])
          else if left = 0 then (Some e, s1, [''exhausted''])
          else (case ctx n of
                  Some c \<Rightarrow> (Some c, s1, [''retried''])
                | None \<Rightarrow>
                    (case retry_loop ctx fn left (Suc n) (Some e) s1 of
                       (r, s2, ms) \<Rightarrow> (r, s2, ''retried'' # ms))))"

definition WithRetry ::
  "retry_options list \<Rightarrow> (nat \<Rightarrow> go_error option) \<Rightarrow> ('s \<Rightarrow> go_error option \<times> 's) \<Rightarrow> 's \<Rightarrow>
   go_error option \<times> 's \<times> string list" where
  "WithRetry opts ctx fn s =
     (let o1 = (case opts of [] \<Rightarrow> DefaultRetryOptions | o1 # _ \<Rightarrow> o1)
      in retry_loop ctx fn (nat (max_attempts o1)) 1 None s)"

text \<open>An invariant that each run of the function keeps is kept by the loop.\<close>

lemma retry_loop_inv:
  assumes "\<And>s r s'. I s \<Longrightarrow> fn s = (r, s') \<Longrightarrow> I s'"
  shows "I s \<Longrightarrow> retry_loop ctx fn left n err s = (r, s', ms) \<Longrightarrow> I s'"
proof (induction left arbitrary: n err s r s' ms)
  case 0
  then show ?case by simp
next
  case (Suc left)
  obtain r1 s1 where f: "fn s = (r1, s1)" by (cases "fn s")
  have "I s1" using assms Suc.prems(1) f by blast
  with Suc.prems(2) Suc.IH [OF \<open>I s1\<close>] show ?case
    by (auto simp: f split: option.splits if_splits prod.splits)
qed

lemma WithRetry_inv:
  assumes "\<And>s r s'. I s \<Longrightarrow> fn s = (r, s') \<Longrightarrow> I s'" and "I s"
    and "WithRetry opts ctx fn s = (r, s', ms)"
  shows "I s'"
  using assms unfolding WithRetry_def Let_def by (rule retry_loop_inv)

text \<open>What the last run of the function says about the result, when it ran at all.\<close>

lemma retry_loop_last:
  assumes "retry_loop ctx fn (Suc left) n err s = (r, s', ms)"
  shows "\<exists>s0 r0. fn s0 = (r0, s') \<and> (r = r0 \<or> (\<exists>e k. r0 = Some e \<and> IsDeadlock e \<and> ctx k = r \<and> r \<noteq> None))"
  using assms
proof (induction left arbitrary: n err s r s' ms)
  case 0
  then show ?case
    by (cases "fn s") (auto split: option.splits if_splits)
next
  case (Suc left)
  show ?case
  proof (cases "\<exists>e s1. fn s = (Some e, s1) \<and> IsDeadlock e \<and> ctx n = None")
    case True
    then obtain e s1 where f: "fn s = (Some e, s1)" "IsDeadlock e" "ctx n = None" by blast
    obtain r2 s2 ms2 where l: "retry_loop ctx fn (Suc left) (Suc n) (Some e) s1 = (r2, s2, ms2)"
      by (cases "retry_loop ctx fn (Suc left) (Suc n) (Some e) s1")
    from Suc.prems f l have "r = r2" "s' = s2"
      by (auto simp del: retry_loop.simps(2) simp: retry_loop.simps(2) [of ctx fn "Suc left"])
    with Suc.IH [OF l] show ?thesis by simp
  next
    case False
    with Suc.prems show ?thesis
      by (cases "fn s")
        (fastforce simp del: retry_loop.simps(2) simp: retry_loop.simps(2) [of ctx fn "Suc left"]
          split: option.splits if_splits)
  qed
qed

text \<open>How often the function runs: counted by a copy of it that keeps a counter.\<close>

definition counted :: "('s \<Rightarrow> go_error option \<times> 's) \<Rightarrow> 's \<times> nat \<Rightarrow> go_error option \<times> 's \<times> nat" where
  "counted fn = (\<lambda>(s, k). case fn s of (r, s') \<Rightarrow> (r, s', Suc k))"

lemma retry_loop_counted:
  "retry_loop ctx fn left n err s = (r, s', ms) \<Longrightarrow>
   \<exists>k'. retry_loop ctx (counted fn) left n err (s, k) = (r, (s', k'), ms) \<and>
        k \<le> k' \<and> k' \<le> k + left \<and> (0 < left \<longrightarrow> k < k')"
proof (induction left arbitrary: n err s k r s' ms)
  case 0
  then show ?case by simp
next
  case (Suc left)
  obtain r1 s1 where f: "fn s = (r1, s1)" by (cases "fn s")
  then have c: "counted fn (s, k) = (r1, s1, Suc k)" by (simp add: counted_def)
  show ?case
  proof (cases "\<exists>e. r1 = Some e \<and> IsDeadlock e \<and> ctx n = None \<and> left \<noteq> 0")
    case True
    then obtain e where e: "r1 = Some e" "IsDeadlock e" "ctx n = None" "left \<noteq> 0" by blast
    obtain r2 s2 ms2 where l: "retry_loop ctx fn left (Suc n) (Some e) s1 = (r2, s2, ms2)"
      by (cases "retry_loop ctx fn left (Suc n) (Some e) s1")
    with Suc.IH [OF l, of "Suc k"] Suc.prems f e c show ?thesis by auto
  next
    case False
    with Suc.prems f c show ?thesis by (auto split: option.splits if_splits)
  qed
qed

lemma retry_loop_exhausted:
  assumes "\<And>s. \<exists>e s'. fn s = (Some e, s') \<and> IsDeadlock e" 
  shows "snd (snd (retry_loop (\<lambda>_. None) fn (Suc left) n err s)) = replicate left ''retried'' @ [''exhausted'']"
proof (induction left arbitrary: n err s)
  case 0
  obtain e s1 where "fn s = (Some e, s1)" "IsDeadlock e" using assms(1) by blast
  then show ?case by simp
next
  case (Suc left)
  obtain e s1 where f: "fn s = (Some e, s1)" "IsDeadlock e" using assms(1) by blast
  then show ?case
    using Suc.IH [of "Suc n" "Some e" s1]
    by (cases "retry_loop (\<lambda>_. None) fn (Suc left) (Suc n) (Some e) s1")
      (simp del: retry_loop.simps(2) add: retry_loop.simps(2) [of "\<lambda>_. None" fn "Suc left"])
qed

subsection \<open>Backoff\<close>

text \<open>
  \<open>d <<= 1\<close> up to \<open>attempt - 1\<close> times, stopping at the cap; durations are 64-bit, so the
  shift wraps.  The jitter takes \<open>rand.Int64N(d/2)\<close>, an argument here, off the result.
\<close>

fun shift_capped :: "nat \<Rightarrow> int \<Rightarrow> int \<Rightarrow> int" where
  "shift_capped 0 d max_d = d"
| "shift_capped (Suc n) d max_d =
     (let d' = wrap64 (2 * d) in if max_d < d' then max_d else shift_capped n d' max_d)"

definition backoff :: "(int \<Rightarrow> int) \<Rightarrow> int \<Rightarrow> int \<Rightarrow> nat \<Rightarrow> int" where
  "backoff int64n base max_d attempt =
     (let d = shift_capped (attempt - 1) base max_d; jitter = d div 2
      in if 0 < jitter then d - int64n jitter else d)"

lemma shift_capped_closed:
  assumes "0 < d" "d \<le> max_d" "max_d < 2 ^ 62"
  shows "shift_capped n d max_d = min (d * 2 ^ n) max_d"
  using assms
proof (induction n arbitrary: d)
  case 0
  then show ?case by simp
next
  case (Suc n)
  have w: "wrap64 (2 * d) = 2 * d"
    using Suc.prems by (intro wrap64_id) (simp add: in_int64_def)
  show ?case
  proof (cases "max_d < 2 * d")
    case True
    have "2 * d \<le> d * 2 ^ Suc n"
      using Suc.prems(1) by simp
    with True w show ?thesis by (simp add: Let_def)
  next
    case False
    with Suc.IH [of "2 * d"] Suc.prems w show ?thesis by (simp add: Let_def mult_ac)
  qed
qed

lemma backoff_bounds:
  assumes "0 < base" "base \<le> max_d" "max_d < 2 ^ 62" and "\<And>j. 0 < j \<Longrightarrow> 0 \<le> r j \<and> r j < j"
  shows "backoff r base max_d n \<le> min (base * 2 ^ (n - 1)) max_d"
    and "min (base * 2 ^ (n - 1)) max_d \<le> 2 * backoff r base max_d n"
proof -
  define d where "d = min (base * 2 ^ (n - 1)) max_d"
  have "0 < d" using assms(1,2) by (simp add: d_def)
  have eq: "backoff r base max_d n = (if 0 < d div 2 then d - r (d div 2) else d)"
    using assms(1-3) by (simp add: backoff_def shift_capped_closed Let_def d_def)
  have "0 < d div 2 \<Longrightarrow> 0 \<le> r (d div 2) \<and> r (d div 2) < d div 2"
    by (rule assms(4))
  with eq \<open>0 < d\<close> have "backoff r base max_d n \<le> d \<and> d \<le> 2 * backoff r base max_d n"
    by (cases "0 < d div 2") auto
  then show "backoff r base max_d n \<le> min (base * 2 ^ (n - 1)) max_d"
    and "min (base * 2 ^ (n - 1)) max_d \<le> 2 * backoff r base max_d n"
    by (simp_all add: d_def)
qed

subsection \<open>The gRPC client interceptor\<close>

definition maxRetryAttempts :: nat where "maxRetryAttempts = 3"
definition baseBackoff :: int where "baseBackoff = 100 * millisecond"

text \<open>\<open>shortMethod\<close>: what follows the last slash.\<close>

definition shortMethod :: "string \<Rightarrow> string" where
  "shortMethod m =
     (if CHR ''/'' \<in> set m then rev (takeWhile (\<lambda>c. c \<noteq> CHR ''/'') (rev m)) else m)"

definition isRetryable :: "go_error \<Rightarrow> bool" where
  "isRetryable e = (case status_from_error e of
     None \<Rightarrow> False
   | Some c \<Rightarrow> c \<in> {CodeUnavailable, CodeDeadlineExceeded, CodeResourceExhausted})"

text \<open>
  Attempt \<open>i\<close> of the loop, with \<open>left\<close> attempts left: the error, the state, the methods counted
  as rejected by the breaker, and the waits.
\<close>

primrec rpc_loop ::
  "string \<Rightarrow> (nat \<Rightarrow> go_error option) \<Rightarrow> ('s \<Rightarrow> go_error option \<times> 's) \<Rightarrow>
   nat \<Rightarrow> nat \<Rightarrow> go_error option \<Rightarrow> 's \<Rightarrow> go_error option \<times> 's \<times> string list \<times> int list" where
  "rpc_loop m ctx invoke 0 i lastErr s = (lastErr, s, [], [])"
| "rpc_loop m ctx invoke (Suc left) i lastErr s =
     (case invoke s of
        (None, s1) \<Rightarrow> (None, s1, [], [])
      | (Some e, s1) \<Rightarrow>
          let rejected = (if errors_is e ErrBreakerOpen then [shortMethod m] else [])
          in if \<not> isRetryable e \<or> left = 0 then (Some e, s1, rejected, [])
             else let wait = baseBackoff * 2 ^ i
                  in (case ctx i of
                        Some c \<Rightarrow> (Some c, s1, rejected, [wait])
                      | None \<Rightarrow>
                          (case rpc_loop m ctx invoke left (Suc i) (Some e) s1 of
                             (r, s2, rs, ws) \<Rightarrow> (r, s2, rejected @ rs, wait # ws))))"

definition RetryUnaryInterceptor ::
  "string \<Rightarrow> (nat \<Rightarrow> go_error option) \<Rightarrow> ('s \<Rightarrow> go_error option \<times> 's) \<Rightarrow> 's \<Rightarrow>
   go_error option \<times> 's \<times> string list \<times> int list" where
  "RetryUnaryInterceptor m ctx invoke s = rpc_loop m ctx invoke maxRetryAttempts 0 None s"

lemma shortMethod_split:
  assumes "CHR ''/'' \<notin> set b"
  shows "shortMethod (a @ CHR ''/'' # b) = b" and "shortMethod b = b"
  using assms by (auto simp: shortMethod_def takeWhile_append)

text \<open>What the loop does: the calls it makes, its waits, and why it stops.\<close>

lemma rpc_loop_counted:
  "rpc_loop m ctx f left i l s = (r, s', rs, ws) \<Longrightarrow>
   \<exists>k'. rpc_loop m ctx (counted f) left i l (s, k) = (r, (s', k'), rs, ws) \<and> k' \<le> k + left \<and> length ws \<le> k' - k \<and>
     (0 < left \<longrightarrow> k < k' \<and> k' \<le> k + length ws + 1 \<and> length ws < left)"
proof (induction left arbitrary: i l s k r s' rs ws)
  case 0
  then show ?case by simp
next
  case (Suc left)
  obtain r1 s1 where f: "f s = (r1, s1)" by (cases "f s")
  then have c: "counted f (s, k) = (r1, s1, Suc k)" by (simp add: counted_def)
  show ?case
  proof (cases "\<exists>e. r1 = Some e \<and> isRetryable e \<and> ctx i = None \<and> left \<noteq> 0")
    case True
    then obtain e where e: "r1 = Some e" "isRetryable e" "ctx i = None" "left \<noteq> 0" by blast
    obtain r2 s2 rs2 ws2 where l: "rpc_loop m ctx f left (Suc i) (Some e) s1 = (r2, s2, rs2, ws2)"
      by (cases "rpc_loop m ctx f left (Suc i) (Some e) s1")
    with Suc.IH [OF l, of "Suc k"] Suc.prems f e c show ?thesis by (auto simp: Let_def)
  next
    case False
    with Suc.prems f c show ?thesis by (auto simp: Let_def split: option.splits if_splits)
  qed
qed

lemma rpc_loop_waits:
  "rpc_loop m ctx f left i l s = (r, s', rs, ws) \<Longrightarrow> j < length ws \<Longrightarrow> ws ! j = baseBackoff * 2 ^ (i + j)"
proof (induction left arbitrary: i l s r s' rs ws j)
  case 0
  then show ?case by simp
next
  case (Suc left)
  then show ?case
    by (cases j) (auto simp: Let_def split: option.splits if_splits prod.splits)
qed

lemma rpc_loop_last:
  assumes "rpc_loop m ctx f (Suc left) i l s = (r, s', rs, ws)"
  shows "\<exists>s0 r0. f s0 = (r0, s') \<and> (r = r0 \<or> (\<exists>e k. r0 = Some e \<and> isRetryable e \<and> ctx k = r \<and> r \<noteq> None))"
  using assms
proof (induction left arbitrary: i l s r s' rs ws)
  case 0
  then show ?case by (cases "f s") (auto simp: Let_def split: option.splits if_splits)
next
  case (Suc left)
  show ?case
  proof (cases "\<exists>e s1. f s = (Some e, s1) \<and> isRetryable e \<and> ctx i = None")
    case True
    then obtain e s1 where f: "f s = (Some e, s1)" "isRetryable e" "ctx i = None" by blast
    obtain r2 s2 rs2 ws2 where l: "rpc_loop m ctx f (Suc left) (Suc i) (Some e) s1 = (r2, s2, rs2, ws2)"
      by (cases "rpc_loop m ctx f (Suc left) (Suc i) (Some e) s1")
    from Suc.prems f l have "r = r2" "s' = s2"
      by (auto simp del: rpc_loop.simps(2) simp: rpc_loop.simps(2) [of m ctx f "Suc left"] Let_def)
    with Suc.IH [OF l] show ?thesis by simp
  next
    case False
    with Suc.prems show ?thesis
      by (cases "f s")
        (fastforce simp del: rpc_loop.simps(2) simp: rpc_loop.simps(2) [of m ctx f "Suc left"] Let_def
          split: option.splits if_splits)
  qed
qed

subsection \<open>Properties\<close>

definition chosen_options :: "retry_options list \<Rightarrow> retry_options" where
  "chosen_options opts = (case opts of [] \<Rightarrow> DefaultRetryOptions | o1 # _ \<Rightarrow> o1)"

text \<open>
  \<open>WithRetry\<close> runs the function at most \<open>MaxAttempts\<close> times, and at least once when
  \<open>MaxAttempts\<close> is positive; its result is that of the last run, except that the context's error
  replaces a lock error when the wait was cut short.  So it never reports success for a failed run.
\<close>

theorem with_retry_attempts:
  assumes "WithRetry opts ctx fn s = (r, s', ms)" and "0 < max_attempts (chosen_options opts)"
  shows "(\<exists>k. WithRetry opts ctx (counted fn) (s, 0) = (r, (s', k), ms) \<and>
      1 \<le> k \<and> int k \<le> max_attempts (chosen_options opts)) \<and>
    (\<exists>s0 r0. fn s0 = (r0, s') \<and> (r = r0 \<or> (\<exists>e n. r0 = Some e \<and> IsDeadlock e \<and> ctx n = r \<and> r \<noteq> None)))"
proof
  have run: "retry_loop ctx fn (nat (max_attempts (chosen_options opts))) 1 None s = (r, s', ms)"
    using assms(1) by (simp add: WithRetry_def chosen_options_def)
  from retry_loop_counted [OF run, of 0] assms(2)
  show "\<exists>k. WithRetry opts ctx (counted fn) (s, 0) = (r, (s', k), ms) \<and>
      1 \<le> k \<and> int k \<le> max_attempts (chosen_options opts)"
    by (auto simp: WithRetry_def chosen_options_def [symmetric])
  obtain left where "nat (max_attempts (chosen_options opts)) = Suc left"
    using assms(2) by (cases "nat (max_attempts (chosen_options opts))") auto
  with run retry_loop_last [of ctx fn left 1 None s r s' ms]
  show "\<exists>s0 r0. fn s0 = (r0, s') \<and> (r = r0 \<or> (\<exists>e n. r0 = Some e \<and> IsDeadlock e \<and> ctx n = r \<and> r \<noteq> None))"
    by simp
qed

definition fails_twice :: "nat \<Rightarrow> go_error option \<times> nat" where
  "fails_twice n = (if n < 2 then Some (MySQLError 1213) else None, n + 1)"

lemma with_retry_attempts_witness:
  "\<exists>k. WithRetry [] (\<lambda>_. None) (counted fails_twice) (0, 0) = (None, (3, k), [''retried'', ''retried'']) \<and> 1 \<le> k \<and> k \<le> 3"
proof -
  have "WithRetry [] (\<lambda>_. None) fails_twice 0 = (None, 3, [''retried'', ''retried''])" by code_simp
  from with_retry_attempts [OF this] show ?thesis by (simp add: chosen_options_def DefaultRetryOptions_def)
qed

text \<open>
  When every run ends in a lock error and no wait is cut short, \<open>WithRetry\<close> records one
  \<open>retried\<close> for each attempt but the last and one \<open>exhausted\<close>, and returns a lock error.
\<close>

theorem with_retry_exhausted:
  assumes "\<And>s. \<exists>e s'. fn s = (Some e, s') \<and> IsDeadlock e" and "0 < max_attempts (chosen_options opts)"
    and "WithRetry opts (\<lambda>_. None) fn s = (r, s', ms)"
  shows "ms = replicate (nat (max_attempts (chosen_options opts)) - 1) ''retried'' @ [''exhausted''] \<and>
    (\<exists>e. r = Some e \<and> IsDeadlock e)"
proof
  obtain left where left: "nat (max_attempts (chosen_options opts)) = Suc left"
    using assms(2) by (cases "nat (max_attempts (chosen_options opts))") auto
  have run: "retry_loop (\<lambda>_. None) fn (Suc left) 1 None s = (r, s', ms)"
    using assms(3) by (simp add: WithRetry_def chosen_options_def [symmetric] left)
  show "ms = replicate (nat (max_attempts (chosen_options opts)) - 1) ''retried'' @ [''exhausted'']"
    using retry_loop_exhausted [where fn = fn and left = left and n = 1 and err = None and s = s] assms(1) run left
    by (simp del: retry_loop.simps)
  show "\<exists>e. r = Some e \<and> IsDeadlock e"
    using retry_loop_last [OF run] assms(1) by (metis option.distinct(1) prod.inject)
qed

lemma with_retry_exhausted_witness:
  "snd (snd (WithRetry [] (\<lambda>_. None) (\<lambda>n :: nat. (Some (MySQLError 1205), n + 1)) 0)) =
     [''retried'', ''retried'', ''exhausted'']"
proof -
  obtain r s' ms where run: "WithRetry [] (\<lambda>_. None) (\<lambda>n :: nat. (Some (MySQLError 1205), n + 1)) 0 = (r, s', ms)"
    by (cases "WithRetry [] (\<lambda>_. None) (\<lambda>n :: nat. (Some (MySQLError 1205), n + 1)) 0")
  show ?thesis
    using with_retry_exhausted [OF _ _ run] unfolding run
    by (simp add: chosen_options_def DefaultRetryOptions_def IsDeadlock_def errLockWaitTimeout_def numeral_2_eq_2)
qed

text \<open>
  A wait of \<open>WithRetry\<close> after attempt \<open>n\<close> is between half of and all of
  \<open>min(BaseDelay * 2^(n-1), MaxDelay)\<close>, whatever the jitter.
\<close>

theorem backoff_within:
  assumes "0 < base" "base \<le> max_d" "max_d < 2 ^ 62" and "\<And>j. 0 < j \<Longrightarrow> 0 \<le> rnd j \<and> rnd j < j"
  shows "backoff rnd base max_d n \<le> min (base * 2 ^ (n - 1)) max_d \<and>
    min (base * 2 ^ (n - 1)) max_d \<le> 2 * backoff rnd base max_d n"
  using backoff_bounds [OF assms] by blast

lemma backoff_within_witness: "backoff (\<lambda>j. j - 1) 50000000 500000000 5 \<le> 500000000"
  using backoff_within [of 50000000 500000000 "\<lambda>j. j - 1" 5] by simp

text \<open>
  The client interceptor makes one to three calls; between two of them it waits, first 100 ms
  and then 200 ms; and its result is that of the last call, except that the context's error
  replaces a retryable one when the wait was cut short.
\<close>

theorem rpc_attempts:
  assumes "RetryUnaryInterceptor m ctx invoke s = (r, s', rs, ws)"
  shows "(\<exists>k. RetryUnaryInterceptor m ctx (counted invoke) (s, 0) = (r, (s', k), rs, ws) \<and>
      1 \<le> k \<and> k \<le> 3 \<and> length ws \<le> k \<and> k \<le> length ws + 1) \<and>
    ws = take (length ws) [100 * millisecond, 200 * millisecond] \<and>
    (\<exists>s0 r0. invoke s0 = (r0, s') \<and> (r = r0 \<or> (\<exists>e n. r0 = Some e \<and> isRetryable e \<and> ctx n = r \<and> r \<noteq> None)))"
proof (intro conjI)
  have run: "rpc_loop m ctx invoke 3 0 None s = (r, s', rs, ws)"
    using assms by (simp only: RetryUnaryInterceptor_def maxRetryAttempts_def)
  from rpc_loop_counted [OF run, of 0] obtain k where k:
    "rpc_loop m ctx (counted invoke) 3 0 None (s, 0) = (r, (s', k), rs, ws)"
    "k \<le> 3" "length ws \<le> k" "0 < k" "k \<le> length ws + 1" "length ws < 3" by auto
  then show "\<exists>k. RetryUnaryInterceptor m ctx (counted invoke) (s, 0) = (r, (s', k), rs, ws) \<and>
      1 \<le> k \<and> k \<le> 3 \<and> length ws \<le> k \<and> k \<le> length ws + 1"
    by (auto simp: RetryUnaryInterceptor_def maxRetryAttempts_def simp del: rpc_loop.simps)
  show "ws = take (length ws) [100 * millisecond, 200 * millisecond]"
  proof (rule nth_equalityI)
    show "length ws = length (take (length ws) [100 * millisecond, 200 * millisecond])" using k(6) by simp
    fix j assume "j < length ws"
    with k(6) rpc_loop_waits [OF run this] show "ws ! j = take (length ws) [100 * millisecond, 200 * millisecond] ! j"
      by (auto simp: less_Suc_eq numeral_3_eq_3 baseBackoff_def)
  qed
  show "\<exists>s0 r0. invoke s0 = (r0, s') \<and> (r = r0 \<or> (\<exists>e n. r0 = Some e \<and> isRetryable e \<and> ctx n = r \<and> r \<noteq> None))"
    by (rule rpc_loop_last [of m ctx invoke 2 0 None s r s' rs ws]) (use run in \<open>simp only: numeral_3_eq_3 numeral_2_eq_2\<close>)
qed

lemma rpc_attempts_witness:
  "snd (snd (snd (RetryUnaryInterceptor ''/user.User/GetUser'' (\<lambda>_. None)
     (\<lambda>n :: nat. (Some (GrpcStatus CodeUnavailable ''''), n + 1)) 0))) = [100 * millisecond, 200 * millisecond]"
proof -
  have "RetryUnaryInterceptor ''/user.User/GetUser'' (\<lambda>_. None) (\<lambda>n :: nat. (Some (GrpcStatus CodeUnavailable ''''), n + 1)) 0 =
      (Some (GrpcStatus CodeUnavailable ''''), 3, [], [100 * millisecond, 200 * millisecond])" by code_simp
  with rpc_attempts [OF this] show ?thesis by simp
qed

end
