(* ===== verification/InventoryConsumer.thy ===== *)
theory InventoryConsumer
  imports InventoryRepo Idempotent Poller Retry HttpCommon
begin

text \<open>
  The inventory service's Kafka consumer (\<open>svc/order_event_consumer.go\<close>) and its gRPC method
  \<open>GetStock\<close> (\<open>logic/getstocklogic.go\<close>).  An \<open>order.created\<close> event reserves stock and answers with
  \<open>inventory.reserved\<close> or \<open>inventory.reservation_failed\<close>; an \<open>order.cancelled\<close> event releases the
  reservation.  The whole deduplicated transaction runs inside \<open>WithRetry\<close>.
\<close>

subsection \<open>The handler\<close>

text \<open>
  \<open>iv_ctx\<close> is what the wait after an attempt ends with (see \<open>Retry\<close>).  Every attempt draws a new
  UUID in the code; only the attempt that commits stores one, so one value stands for it here.
\<close>

record inventory_env =
  iv_getenv :: environ
  iv_now :: nat
  iv_now_text :: string
  iv_uuid :: string
  iv_collation :: collation
  iv_tx_err :: "go_error \<Rightarrow> go_error option"
  iv_ctx :: "nat \<Rightarrow> go_error option"

definition inventory_event :: "inventory_env \<Rightarrow> string \<Rightarrow> nat \<Rightarrow> json \<Rightarrow> go_error + outbox_event" where
  "inventory_event env event oid data = bind_err
     (marshal_envelope \<lparr>env_event = event, env_version = 1, env_occurred_at = iv_now_text env, env_data = data\<rparr>)
     (\<lambda>p. Inr \<lparr>ob_id = 0, ob_event_id = iv_uuid env, ob_topic = TopicInventoryEvents,
        ob_event_key = format_uint oid, ob_event_type = event, ob_version = 1, ob_payload = p,
        ob_status = OutboxStatusPending, ob_retry_count = 0, ob_last_error = '''',
        ob_created_at = iv_now env, ob_sent_at = None\<rparr>)"

definition write_outbox :: "inventory_env \<Rightarrow> string \<Rightarrow> nat \<Rightarrow> json \<Rightarrow> (inventory_db, 'm, unit) tx" where
  "write_outbox env event oid data =
     bind_tx (lift_err (inventory_event env event oid data)) (\<lambda>e. bind_tx (outbox_insert e) (\<lambda>_. ret ()))"

definition handle_order_created :: "inventory_env \<Rightarrow> json \<Rightarrow> (inventory_db, 'm, unit) tx" where
  "handle_order_created env data =
     bind_tx (lift_err (unmarshal_order_created data)) (\<lambda>d.
     bind_tx (reserve (iv_tx_err env) (iv_collation env) (iv_getenv env) (iv_now env)
                (oc_order_id d) (oc_sku d) (oc_quantity d)) (\<lambda>affected.
       if affected = 1
       then write_outbox env InventoryReserved (oc_order_id d)
              (marshal_inventory_reserved \<lparr>ir_order_id = oc_order_id d\<rparr>)
       else write_outbox env ReservationFailed (oc_order_id d)
              (marshal_reservation_failed \<lparr>rf_order_id = oc_order_id d, rf_reason = ReasonOutOfStock\<rparr>)))"

definition handle_order_cancelled :: "inventory_env \<Rightarrow> json \<Rightarrow> (inventory_db, 'm, unit) tx" where
  "handle_order_cancelled env data =
     bind_tx (lift_err (unmarshal_order_cancelled data)) (\<lambda>d.
     bind_tx (try_tx (release (iv_collation env) (iv_getenv env) (ox_order_id d))) (\<lambda>r.
       case r of
         Inl err \<Rightarrow> if errors_is err ErrRecordNotFound then ret () else throw err
       | Inr affected \<Rightarrow> ret ()))"

definition order_event_body :: "inventory_env \<Rightarrow> envelope \<Rightarrow> (inventory_db, 'm, unit) tx" where
  "order_event_body env envl =
     (if env_event envl = OrderCreated then handle_order_created env (envelope_data envl)
      else if env_event envl = OrderCancelled then handle_order_cancelled env (envelope_data envl)
      else ret ())"

definition order_event_attempt ::
  "inventory_env \<Rightarrow> string \<Rightarrow> envelope \<Rightarrow> (inventory_db, 'm) session \<Rightarrow> go_error option \<times> (inventory_db, 'm) session" where
  "order_event_attempt env event_id envl s =
     (case process event_id (order_event_body env envl) s of
        (Inl e, s1) \<Rightarrow> (Some e, s1)
      | (Inr processed_now, s1) \<Rightarrow> (None, s1))"

definition handle_order_event :: "inventory_env \<Rightarrow> message \<Rightarrow> (inventory_db, 'm, unit) tx" where
  "handle_order_event env msg s =
     (let event_id = header msg ''event_id'' in
      if event_id = '''' then (Inr (), s)
      else case unmarshal_envelope (m_value msg) of
             Inl err \<Rightarrow> (Inl err, s)
           | Inr envl \<Rightarrow>
               (case WithRetry [] (iv_ctx env) (order_event_attempt env event_id envl) s of
                  (Some err, s1, _) \<Rightarrow> (Inl err, s1)
                | (None, s1, _) \<Rightarrow> (Inr (), s1)))"

subsection \<open>GetStock\<close>

record stock_response =
  sr_sku :: string
  sr_total :: int
  sr_available :: int

definition get_stock :: "collation \<Rightarrow> string \<Rightarrow> (inventory_db, 'm, stock_response) tx" where
  "get_stock ck sku =
     bind_tx (try_tx (get_product ck sku)) (\<lambda>r.
       case r of
         Inl err \<Rightarrow>
           if errors_is err ErrRecordNotFound
           then throw (GrpcStatus CodeNotFound (''sku '' @ sku @ '' not found''))
           else throw (GrpcStatus CodeInternal (''query stock failed: '' @ error_text err))
       | Inr p \<Rightarrow> ret \<lparr>sr_sku = p_sku p, sr_total = p_total p, sr_available = p_available p\<rparr>)"

subsection \<open>What a message does\<close>

definition with_event :: "outbox_event \<Rightarrow> 'd svc_db \<Rightarrow> 'd svc_db" where
  "with_event e d = d\<lparr>outbox := insert_row e (outbox d)\<rparr>"

lemma with_event_frame [simp]:
  "biz (with_event e d) = biz d" "processed (with_event e d) = processed d"
  "outbox (with_event e d) = insert_row e (outbox d)"
  by (simp_all add: with_event_def)

text \<open>Stock was reserved and \<open>inventory.reserved\<close> written, or only \<open>inventory.reservation_failed\<close>.\<close>

definition created_effect :: "inventory_env \<Rightarrow> order_created_data \<Rightarrow> inventory_db \<Rightarrow> inventory_db \<Rightarrow> bool" where
  "created_effect env oc d d' \<longleftrightarrow>
     (\<exists>d1 e. reserved_by (iv_collation env) (iv_now env) (oc_order_id oc) (oc_sku oc) (oc_quantity oc) d d1 \<and>
        inventory_event env InventoryReserved (oc_order_id oc)
          (marshal_inventory_reserved \<lparr>ir_order_id = oc_order_id oc\<rparr>) = Inr e \<and>
        \<not> event_id_used (ob_event_id e) (outbox d) \<and> d' = with_event e d1) \<or>
     (\<exists>e. inventory_event env ReservationFailed (oc_order_id oc)
          (marshal_reservation_failed \<lparr>rf_order_id = oc_order_id oc, rf_reason = ReasonOutOfStock\<rparr>) = Inr e \<and>
        \<not> event_id_used (ob_event_id e) (outbox d) \<and> d' = with_event e d)"

definition order_event_effect :: "inventory_env \<Rightarrow> envelope \<Rightarrow> inventory_db \<Rightarrow> inventory_db \<Rightarrow> bool" where
  "order_event_effect env envl d d' \<longleftrightarrow>
     (if env_event envl = OrderCreated
      then \<exists>oc. unmarshal_order_created (envelope_data envl) = Inr oc \<and> created_effect env oc d d'
      else if env_event envl = OrderCancelled
      then \<exists>ox. unmarshal_order_cancelled (envelope_data envl) = Inr ox \<and>
        (released_by (iv_collation env) (ox_order_id ox) d d' \<or> d' = d \<and> not_held (ox_order_id ox) d)
      else d' = d)"

lemma holds_write_outbox:
  assumes "\<And>e. Q (Inl e) d w"
    and "\<And>e. inventory_event env ev oid data = Inr e \<Longrightarrow> \<not> event_id_used (ob_event_id e) (outbox d) \<Longrightarrow>
      Q (Inr ()) (with_event e d) w"
  shows "holds (write_outbox env ev oid data) d w Q"
  unfolding write_outbox_def
  apply (rule holds_bind, rule holds_lift_err)
  apply (cases "inventory_event env ev oid data"; simp add: assms)
  apply (rule holds_bind, rule holds_outbox_insert; simp add: assms)
  apply (use assms in \<open>auto simp: with_event_def intro!: holds_ret\<close>)
  done

lemma reserved_by_outbox: "reserved_by ck now oid sku qty d d' \<Longrightarrow> outbox d' = outbox d \<and> processed d' = processed d"
  by (auto simp: reserved_by_def add_reservation_def)

lemma created_effect_reserved:
  "reserved_by (iv_collation env) (iv_now env) (oc_order_id oc) (oc_sku oc) (oc_quantity oc) d d1 \<Longrightarrow>
   inventory_event env InventoryReserved (oc_order_id oc)
     (marshal_inventory_reserved \<lparr>ir_order_id = oc_order_id oc\<rparr>) = Inr e \<Longrightarrow>
   \<not> event_id_used (ob_event_id e) (outbox d1) \<Longrightarrow> created_effect env oc d (with_event e d1)"
  unfolding created_effect_def using reserved_by_outbox by fastforce

lemma created_effect_failed:
  "inventory_event env ReservationFailed (oc_order_id oc)
     (marshal_reservation_failed \<lparr>rf_order_id = oc_order_id oc, rf_reason = ReasonOutOfStock\<rparr>) = Inr e \<Longrightarrow>
   \<not> event_id_used (ob_event_id e) (outbox d) \<Longrightarrow> created_effect env oc d (with_event e d)"
  unfolding created_effect_def by blast

lemma holds_handle_order_created:
  assumes ok: "stock_ok (iv_collation env) d" and ev: "env_event envl = OrderCreated"
  shows "holds (handle_order_created env (envelope_data envl)) d w (\<lambda>r d' w'. w' = w \<and>
    (r = Inr () \<longrightarrow> order_event_effect env envl d d'))"
    (is "holds _ _ _ ?Q")
proof (cases "unmarshal_order_created (envelope_data envl)")
  case (Inl e)
  then show ?thesis
    unfolding handle_order_created_def by (intro holds_bind holds_lift_err) simp
next
  case (Inr oc)
  have eff: "?Q (Inr ()) d' w" if "created_effect env oc d d'" for d'
    using that Inr ev by (auto simp: order_event_effect_def)
  show ?thesis
    unfolding handle_order_created_def Inr
    apply (rule holds_bind, rule holds_lift_err, simp only: sum.case)
    apply (rule holds_bind, rule holds_conseq [OF reserve_effect [OF ok]])
    apply (elim conjE)
    subgoal premises prems for r d1 w1
    proof (cases r)
      case (Inl e)
      with prems show ?thesis by simp
    next
      case (Inr n)
      with prems consider "n = 1" "reserved_by (iv_collation env) (iv_now env) (oc_order_id oc) (oc_sku oc) (oc_quantity oc) d d1"
        | "n = 0" "d1 = d" by blast
      then show ?thesis
      proof cases
        case 1
        show ?thesis
          unfolding Inr sum.case 1(1)
          by (simp only: refl if_True, rule holds_write_outbox)
            (use prems(1) eff [OF created_effect_reserved [OF 1(2)]] in auto)
      next
        case 2
        show ?thesis
          unfolding Inr sum.case 2
          by (simp only: zero_neq_one if_False, rule holds_write_outbox)
            (use prems(1) eff [OF created_effect_failed] in auto)
      qed
    qed
    done
qed

lemma holds_handle_order_cancelled:
  assumes ok: "stock_ok (iv_collation env) d" and ev: "env_event envl = OrderCancelled"
  shows "holds (handle_order_cancelled env (envelope_data envl)) d w (\<lambda>r d' w'. w' = w \<and>
    (r = Inr () \<longrightarrow> order_event_effect env envl d d'))"
proof (cases "unmarshal_order_cancelled (envelope_data envl)")
  case (Inl e)
  then show ?thesis
    unfolding handle_order_cancelled_def by (intro holds_bind holds_lift_err) simp
next
  case (Inr ox)
  show ?thesis
    unfolding handle_order_cancelled_def Inr
    apply (rule holds_bind, rule holds_lift_err, simp only: sum.case)
    apply (rule holds_bind, rule holds_try, rule holds_conseq [OF release_effect [OF ok]])
    apply (use Inr ev in \<open>auto simp: order_event_effect_def intro!: holds_ret holds_throw holds_case_sum holds_if\<close>)
    done
qed

lemma holds_order_event_body:
  assumes "stock_ok (iv_collation env) d"
  shows "holds (order_event_body env envl) d w (\<lambda>r d' w'. w' = w \<and>
    (r = Inr () \<longrightarrow> order_event_effect env envl d d'))"
  unfolding order_event_body_def
  by (intro holds_if holds_ret holds_handle_order_created [OF assms] holds_handle_order_cancelled [OF assms])
    (simp_all add: order_event_effect_def)

lemma order_event_effect_processed:
  "order_event_effect env envl d d' \<Longrightarrow> was_processed d' = was_processed d"
  by (auto simp: order_event_effect_def created_effect_def released_by_def was_processed_def fun_eq_iff
      dest!: reserved_by_outbox split: if_splits)

text \<open>A message is handled at most once: nothing happens, or its effect with the event marked.\<close>

definition order_message_effect :: "inventory_env \<Rightarrow> message \<Rightarrow> inventory_db \<Rightarrow> inventory_db \<Rightarrow> bool" where
  "order_message_effect env msg d d' \<longleftrightarrow>
     d' = d \<or>
     (\<exists>envl d1. \<not> was_processed d (header msg ''event_id'') \<and> unmarshal_envelope (m_value msg) = Inr envl \<and>
        order_event_effect env envl d d1 \<and> d' = mark_processed (header msg ''event_id'') d1)"

lemma holds_process_order_event:
  assumes ok: "stock_ok (iv_collation env) d" and envl: "unmarshal_envelope (m_value msg) = Inr envl"
  shows "holds (process (header msg ''event_id'') (order_event_body env envl)) d w
    (\<lambda>r d' w'. w' = w \<and> order_message_effect env msg d d')"
proof -
  let ?i = "header msg ''event_id''"
  let ?Q = "\<lambda>r d' w'. w' = w \<and> order_message_effect env msg d d'"
  have same: "?Q r d w" for r by (simp add: order_message_effect_def)
  show ?thesis
  proof (rule holds_process)
    assume new: "\<not> was_processed d ?i"
    show "holds (order_event_body env envl) d w (\<lambda>r d' w'. case r of
        Inl e \<Rightarrow> ?Q (Inl e) d w'
      | Inr x \<Rightarrow> (was_processed d' ?i \<longrightarrow> ?Q (Inl ErrDupEntry) d w') \<and>
          (\<forall>e. is_fault e \<longrightarrow> ?Q (Inl e) d w') \<and>
          (\<not> was_processed d' ?i \<longrightarrow>
            ?Q (Inr True) (mark_processed ?i d') w' \<and>
            (\<forall>e. is_fault e \<longrightarrow> ?Q (Inl e) (mark_processed ?i d') w')))"
      by (rule holds_conseq [OF holds_order_event_body [OF ok]])
        (use new envl in \<open>auto simp: order_message_effect_def split: sum.splits\<close>)
  qed (rule same)+
qed

lemma order_event_attempt_effect:
  assumes ok: "stock_ok (iv_collation env) d" and envl: "unmarshal_envelope (m_value msg) = Inr envl"
    and s: "wire s = w \<and> order_message_effect env msg d (db s)"
    and run: "order_event_attempt env (header msg ''event_id'') envl s = (r, s')"
  shows "wire s' = w \<and> order_message_effect env msg d (db s')"
proof -
  let ?i = "header msg ''event_id''"
  obtain r1 where p: "process ?i (order_event_body env envl) s = (r1, s')"
    using run by (auto simp: order_event_attempt_def split: prod.splits sum.splits)
  show ?thesis
  proof (cases "db s = d")
    case True
    then show ?thesis
      using holds_sessionD [OF holds_process_order_event [OF ok envl] p] s by blast
  next
    case False
    with s have "was_processed (db s) ?i"
      by (auto simp: order_message_effect_def process_dedup.seen_mark)
    from holds_sessionD [OF process_dedup.proc_seen [OF this] p refl refl]
    have same: "db s' = db s" by blast
    have "holds (process ?i (order_event_body env envl)) (db s) (wire s) (\<lambda>_ _ w'. w' = wire s)"
      by (rule holds_process) (use \<open>was_processed (db s) ?i\<close> in auto)
    from holds_sessionD [OF this p refl refl] same s show ?thesis by simp
  qed
qed

lemma holds_handle_order_event:
  assumes ok: "stock_ok (iv_collation env) d"
  shows "holds (handle_order_event env msg) d w (\<lambda>r d' w'. w' = w \<and> order_message_effect env msg d d')"
  unfolding holds_def
proof (intro allI, clarify)
  fix rs r s'
  let ?s = "\<lparr>db = d, sched = rs, wire = w\<rparr>"
  assume run: "handle_order_event env msg ?s = (r, s')"
  have here: "wire ?s = w \<and> order_message_effect env msg d (db ?s)"
    by (simp add: order_message_effect_def)
  show "wire s' = w \<and> order_message_effect env msg d (db s')"
  proof (cases "header msg ''event_id'' = '''' \<or> (\<exists>e. unmarshal_envelope (m_value msg) = Inl e)")
    case True
    with run here show ?thesis by (auto simp: handle_order_event_def Let_def split: if_splits)
  next
    case False
    then obtain envl where envl: "unmarshal_envelope (m_value msg) = Inr envl"
      by (cases "unmarshal_envelope (m_value msg)") auto
    obtain r1 s1 ms where l: "WithRetry [] (iv_ctx env) (order_event_attempt env (header msg ''event_id'') envl) ?s = (r1, s1, ms)"
      by (cases "WithRetry [] (iv_ctx env) (order_event_attempt env (header msg ''event_id'') envl) ?s")
    have "wire s1 = w \<and> order_message_effect env msg d (db s1)"
      by (rule WithRetry_inv [where I = "\<lambda>s. wire s = w \<and> order_message_effect env msg d (db s)", OF _ here l])
        (rule order_event_attempt_effect [OF ok envl])
    moreover have "s' = s1"
      using run False l envl by (auto simp: handle_order_event_def Let_def split: option.splits)
    ultimately show ?thesis by simp
  qed
qed

text \<open>The stock invariant through one message, for quantities that are not negative.\<close>

definition message_quantity_ok :: "message \<Rightarrow> bool" where
  "message_quantity_ok msg \<longleftrightarrow>
     (\<forall>envl oc. unmarshal_envelope (m_value msg) = Inr envl \<longrightarrow> env_event envl = OrderCreated \<longrightarrow>
        unmarshal_order_created (envelope_data envl) = Inr oc \<longrightarrow> 0 \<le> oc_quantity oc)"

lemma stock_ok_biz: "biz d' = biz d \<Longrightarrow> stock_ok ck d' = stock_ok ck d"
  by (simp add: stock_ok_def)

lemma mark_processed_frame [simp]:
  "biz (mark_processed i d) = biz d" "outbox (mark_processed i d) = outbox d"
  "processed (mark_processed i d) = i # processed d"
  by (simp_all add: mark_processed_def)

lemma stock_ok_message:
  assumes ok: "stock_ok (iv_collation env) d" and q: "message_quantity_ok msg"
    and eff: "order_message_effect env msg d d'"
  shows "stock_ok (iv_collation env) d'"
proof -
  consider "d' = d" | envl d1 where "unmarshal_envelope (m_value msg) = Inr envl" "order_event_effect env envl d d1"
      "d' = mark_processed (header msg ''event_id'') d1"
    using eff by (auto simp: order_message_effect_def)
  then show ?thesis
  proof cases
    case 1
    with ok show ?thesis by simp
  next
    case 2
    have "stock_ok (iv_collation env) d1"
    proof (cases "env_event envl = OrderCreated")
      case True
      with 2(2) obtain oc where oc: "unmarshal_order_created (envelope_data envl) = Inr oc" "created_effect env oc d d1"
        by (auto simp: order_event_effect_def)
      have "0 \<le> oc_quantity oc" using q 2(1) True oc(1) by (auto simp: message_quantity_ok_def)
      with oc(2) ok show ?thesis
        unfolding created_effect_def
        by (auto simp: stock_ok_biz [where d' = "with_event _ _"] intro: stock_ok_reserved_by)
    next
      case False
      with 2(2) ok show ?thesis
        by (auto simp: order_event_effect_def intro: stock_ok_released_by split: if_splits)
    qed
    with 2(3) show ?thesis by (simp add: stock_ok_biz [where d' = "mark_processed _ _"])
  qed
qed

end
