(* ===== verification/EventSystem.thy ===== *)
theory EventSystem
  imports SqlTx
begin

text \<open>
  Event systems: reachable states, invariants and simulations, and the bridge from an operation
  on a database session to one atomic step.  The saga is an instance.
\<close>

subsection \<open>Reachable states\<close>

definition reachable :: "('s \<Rightarrow> bool) \<Rightarrow> ('s \<Rightarrow> 's \<Rightarrow> bool) \<Rightarrow> 's \<Rightarrow> bool" where
  "reachable init step s \<longleftrightarrow> (\<exists>s0. init s0 \<and> step\<^sup>*\<^sup>* s0 s)"

lemma reachable_init: "init s \<Longrightarrow> reachable init step s"
  by (auto simp: reachable_def)

lemma reachable_step: "reachable init step s \<Longrightarrow> step s t \<Longrightarrow> reachable init step t"
  by (auto simp: reachable_def intro: rtranclp.rtrancl_into_rtrancl)

lemma invariant_reachable:
  assumes "reachable init step s" "\<And>s. init s \<Longrightarrow> I s" "\<And>s t. I s \<Longrightarrow> step s t \<Longrightarrow> I t"
  shows "I s"
proof -
  from assms(1) obtain s0 where "init s0" "step\<^sup>*\<^sup>* s0 s" by (auto simp: reachable_def)
  from this(2) \<open>init s0\<close> show ?thesis
    by (induction rule: rtranclp_induct) (use assms(2,3) in auto)
qed

text \<open>A fact that a step keeps, under an invariant, is kept by a whole run.\<close>

lemma stable_run:
  assumes "step\<^sup>*\<^sup>* s t" "I s" "P s"
    and "\<And>s t. I s \<Longrightarrow> step s t \<Longrightarrow> I t" "\<And>s t. I s \<Longrightarrow> P s \<Longrightarrow> step s t \<Longrightarrow> P t"
  shows "P t"
proof -
  have "I t \<and> P t"
    using assms(1) by (induction rule: rtranclp_induct) (use assms(2-5) in auto)
  then show ?thesis by simp
qed

subsection \<open>Simulation\<close>

text \<open>
  A concrete system refines an abstract one: \<open>alpha\<close> maps its states, \<open>inv\<close> is an invariant of it,
  and every concrete step is a run, maybe empty, of the abstract system.
\<close>

locale simulation =
  fixes ainit :: "'a \<Rightarrow> bool"
    and astep :: "'a \<Rightarrow> 'a \<Rightarrow> bool"
    and cinit :: "'c \<Rightarrow> bool"
    and cstep :: "'c \<Rightarrow> 'c \<Rightarrow> bool"
    and alpha :: "'c \<Rightarrow> 'a"
    and inv :: "'c \<Rightarrow> bool"
  assumes sim_init: "cinit c \<Longrightarrow> ainit (alpha c) \<and> inv c"
    and sim_step: "inv c \<Longrightarrow> cstep c c' \<Longrightarrow> inv c' \<and> astep\<^sup>*\<^sup>* (alpha c) (alpha c')"
begin

lemma run_simulated: "cstep\<^sup>*\<^sup>* c c' \<Longrightarrow> inv c \<Longrightarrow> inv c' \<and> astep\<^sup>*\<^sup>* (alpha c) (alpha c')"
  by (induction rule: rtranclp_induct) (use sim_step in \<open>auto intro: rtranclp_trans\<close>)

lemma inv_reachable: "reachable cinit cstep c \<Longrightarrow> inv c"
  using run_simulated sim_init by (auto simp: reachable_def)

lemma refines: "reachable cinit cstep c \<Longrightarrow> reachable ainit astep (alpha c)"
  using run_simulated sim_init by (auto simp: reachable_def)

end

subsection \<open>Operations as steps\<close>

text \<open>
  \<open>runs t d w r d' w'\<close>: started on data \<open>d\<close> with messages \<open>w\<close>, the operation can end with \<open>r\<close>,
  \<open>d'\<close> and \<open>w'\<close>, for some replies of the driver.
\<close>

definition runs ::
  "('db, 'm, 'a) tx \<Rightarrow> 'db \<Rightarrow> 'm list \<Rightarrow> go_error + 'a \<Rightarrow> 'db \<Rightarrow> 'm list \<Rightarrow> bool" where
  "runs t d w r d' w' \<longleftrightarrow>
     (\<exists>rs s'. t \<lparr>db = d, sched = rs, wire = w\<rparr> = (r, s') \<and> db s' = d' \<and> wire s' = w')"

lemma runs_holds: "runs t d w r d' w' \<Longrightarrow> holds t d w Q \<Longrightarrow> Q r d' w'"
  unfolding runs_def holds_def by (metis (mono_tags, lifting) case_prod_conv)

lemma runsI: "t \<lparr>db = d, sched = rs, wire = w\<rparr> = (r, \<lparr>db = d', sched = rs', wire = w'\<rparr>) \<Longrightarrow> runs t d w r d' w'"
  unfolding runs_def by force

end
