(* ===== verification/SagaMessages.thy ===== *)
theory SagaMessages
  imports OrderConsumer InventoryConsumer EventSystem
begin

text \<open>
  What the messages of the order saga say: which event an outbox row carries, that its message
  decodes to that event at the consumer, and what the four operations that write rows put there.
  Order ids and quantities survive the trip through \<open>float64\<close> up to \<open>2 ^ 53\<close>; an amount may not,
  and then the consumer sees another amount or rejects the message.
\<close>

subsection \<open>Rows and their messages\<close>

definition carries :: "outbox_event \<Rightarrow> string \<Rightarrow> json \<Rightarrow> bool" where
  "carries r ev data \<longleftrightarrow>
     (\<exists>t. marshal_envelope \<lparr>env_event = ev, env_version = 1, env_occurred_at = t, env_data = data\<rparr> = Inr (ob_payload r))"

lemma carries_core: "core r = core r' \<Longrightarrow> carries r ev data = carries r' ev data"
  by (simp add: carries_def core_eqD [of r r'])

lemma carries_event:
  assumes "carries r ev data" "carries r ev' data'"
  shows "ev = ev' \<and> data = data'"
proof -
  from assms obtain t t' where
    "Inr (ob_payload r) = marshal_envelope \<lparr>env_event = ev, env_version = 1, env_occurred_at = t, env_data = data\<rparr>"
    "Inr (ob_payload r) = marshal_envelope \<lparr>env_event = ev', env_version = 1, env_occurred_at = t', env_data = data'\<rparr>"
    unfolding carries_def by metis
  then show ?thesis
    by (simp add: marshal_envelope_def split: if_splits)
qed

lemma carries_decode:
  assumes "carries r ev data" and "unmarshal_envelope (m_value (row_message fmt r)) = Inr envl"
  shows "env_event envl = ev \<and> envelope_data envl = remarshal data"
proof -
  from assms(1) obtain t where
    m: "marshal_envelope \<lparr>env_event = ev, env_version = 1, env_occurred_at = t, env_data = data\<rparr> = Inr (ob_payload r)"
    by (auto simp: carries_def)
  from unmarshal_marshal_envelope [OF m] assms(2) show ?thesis
    by (simp add: in_int64_def row_message_def envelope_data_def) (metis envelope.select_convs(1,4) sum.inject(2))
qed

subsection \<open>Decoding\<close>

lemma decoded_created:
  assumes "unmarshal_order_created (remarshal (marshal_order_created d)) = Inr oc"
    and "float_exact (int (oc_order_id d))" "float_exact (oc_quantity d)"
  shows "oc_order_id oc = oc_order_id d" "oc_sku oc = oc_sku d" "oc_quantity oc = oc_quantity d"
  using assms
  by (auto simp: unmarshal_order_created_def marshal_order_created_def decode_simps bind_err_Inr
      simp del: dec_uint.simps(3) dec_int.simps(3))

lemma decoded_cancelled:
  assumes "unmarshal_order_cancelled (remarshal (marshal_order_cancelled d)) = Inr ox"
    and "float_exact (int (ox_order_id d))"
  shows "ox_order_id ox = ox_order_id d"
  using assms
  by (auto simp: unmarshal_order_cancelled_def marshal_order_cancelled_def decode_simps bind_err_Inr
      simp del: dec_uint.simps(3) dec_int.simps(3))

lemma decoded_failed:
  assumes "unmarshal_reservation_failed (remarshal (marshal_reservation_failed d)) = Inr rf"
    and "float_exact (int (rf_order_id d))"
  shows "rf_order_id rf = rf_order_id d"
  using assms
  by (auto simp: unmarshal_reservation_failed_def marshal_reservation_failed_def decode_simps bind_err_Inr
      simp del: dec_uint.simps(3))

subsection \<open>The rows the services write\<close>

text \<open>
  An \<open>order.created\<close> row for the order \<open>o'\<close> (whose status may have changed since), an
  \<open>order.cancelled\<close> row, and the two answers of the inventory service.
\<close>

definition created_row :: "order \<Rightarrow> outbox_event \<Rightarrow> bool" where
  "created_row o' r \<longleftrightarrow> carries r OrderCreated (marshal_order_created (order_created_data_of (o'\<lparr>o_status := StatusPending\<rparr>)))"

definition cancelled_row :: "order \<Rightarrow> outbox_event \<Rightarrow> bool" where
  "cancelled_row o' r \<longleftrightarrow> carries r OrderCancelled (marshal_order_cancelled (order_cancelled_data_of o' (o_cancel_reason o')))"

definition reserved_row :: "nat \<Rightarrow> outbox_event \<Rightarrow> bool" where
  "reserved_row oid r \<longleftrightarrow> carries r InventoryReserved (marshal_inventory_reserved \<lparr>ir_order_id = oid\<rparr>)"

definition failed_row :: "nat \<Rightarrow> outbox_event \<Rightarrow> bool" where
  "failed_row oid r \<longleftrightarrow>
     carries r ReservationFailed (marshal_reservation_failed \<lparr>rf_order_id = oid, rf_reason = ReasonOutOfStock\<rparr>)"

lemma order_status_same: "o_status o' = StatusPending \<Longrightarrow> o'\<lparr>o_status := StatusPending\<rparr> = o'"
  by (cases o') simp

lemma created_event_row:
  "created_event env o' = Inr e \<Longrightarrow> o_status o' = StatusPending \<Longrightarrow> created_row o' (e\<lparr>ob_id := i\<rparr>)"
proof -
  assume e: "created_event env o' = Inr e" and st: "o_status o' = StatusPending"
  then show ?thesis
    unfolding created_row_def order_status_same [OF st]
    by (auto simp: created_event_def bind_err_Inr carries_def outbox_row_def)
qed

lemma cancelled_event_row:
  "cancelled_event env o' (o_cancel_reason o') = Inr e \<Longrightarrow> cancelled_row o' (e\<lparr>ob_id := i\<rparr>)"
  by (auto simp: cancelled_event_def bind_err_Inr cancelled_row_def carries_def outbox_row_def)

lemma reserved_event_row:
  "inventory_event env InventoryReserved oid (marshal_inventory_reserved \<lparr>ir_order_id = oid\<rparr>) = Inr e \<Longrightarrow>
   reserved_row oid (e\<lparr>ob_id := i\<rparr>)"
  by (auto simp: inventory_event_def bind_err_Inr reserved_row_def carries_def)

lemma failed_event_row:
  "inventory_event env ReservationFailed oid
     (marshal_reservation_failed \<lparr>rf_order_id = oid, rf_reason = ReasonOutOfStock\<rparr>) = Inr e \<Longrightarrow>
   failed_row oid (e\<lparr>ob_id := i\<rparr>)"
  by (auto simp: inventory_event_def bind_err_Inr failed_row_def carries_def)

lemma row_kind_core:
  assumes "core r = core r'"
  shows "created_row o' r = created_row o' r'" "cancelled_row o' r = cancelled_row o' r'"
    "reserved_row oid r = reserved_row oid r'" "failed_row oid r = failed_row oid r'"
  using carries_core [OF assms] by (simp_all add: created_row_def cancelled_row_def reserved_row_def failed_row_def)

lemma row_kind_distinct:
  "created_row a r \<Longrightarrow> \<not> cancelled_row b r" "reserved_row i r \<Longrightarrow> \<not> failed_row j r"
  unfolding created_row_def cancelled_row_def reserved_row_def failed_row_def
  by (auto dest: carries_event)

lemma created_row_id: "created_row a r \<Longrightarrow> created_row b r \<Longrightarrow> o_id a = o_id b"
  unfolding created_row_def
  by (drule (1) carries_event) (simp add: marshal_order_created_def order_created_data_of_def)

lemma cancelled_row_id: "cancelled_row a r \<Longrightarrow> cancelled_row b r \<Longrightarrow> o_id a = o_id b"
  unfolding cancelled_row_def
  by (drule (1) carries_event) (simp add: marshal_order_cancelled_def order_cancelled_data_of_def)

lemma failed_row_id: "failed_row i r \<Longrightarrow> failed_row j r \<Longrightarrow> i = j"
  unfolding failed_row_def by (drule (1) carries_event) (simp add: marshal_reservation_failed_def)

text \<open>What each message decodes to.\<close>

definition exact_order :: "order \<Rightarrow> bool" where
  "exact_order o' \<longleftrightarrow> float_exact (int (o_id o')) \<and> float_exact (o_quantity o')"

lemma created_row_decode:
  assumes "created_row o' r" "exact_order o'" "unmarshal_envelope (m_value (row_message fmt r)) = Inr envl"
  shows "env_event envl = OrderCreated"
    and "unmarshal_order_created (envelope_data envl) = Inr oc \<Longrightarrow>
      oc_order_id oc = o_id o' \<and> oc_sku oc = o_sku o' \<and> oc_quantity oc = o_quantity o'"
proof -
  let ?d = "order_created_data_of (o'\<lparr>o_status := StatusPending\<rparr>)"
  have e: "env_event envl = OrderCreated \<and> envelope_data envl = remarshal (marshal_order_created ?d)"
    using assms(1,3) unfolding created_row_def by (rule carries_decode)
  then show "env_event envl = OrderCreated" by blast
  assume "unmarshal_order_created (envelope_data envl) = Inr oc"
  with e have "unmarshal_order_created (remarshal (marshal_order_created ?d)) = Inr oc" by simp
  from decoded_created [OF this] assms(2) show
    "oc_order_id oc = o_id o' \<and> oc_sku oc = o_sku o' \<and> oc_quantity oc = o_quantity o'"
    by (simp add: exact_order_def order_created_data_of_def)
qed

lemma cancelled_row_decode:
  assumes "cancelled_row o' r" "exact_order o'" "unmarshal_envelope (m_value (row_message fmt r)) = Inr envl"
  shows "env_event envl = OrderCancelled"
    and "unmarshal_order_cancelled (envelope_data envl) = Inr ox \<Longrightarrow> ox_order_id ox = o_id o'"
proof -
  let ?d = "order_cancelled_data_of o' (o_cancel_reason o')"
  have e: "env_event envl = OrderCancelled \<and> envelope_data envl = remarshal (marshal_order_cancelled ?d)"
    using assms(1,3) unfolding cancelled_row_def by (rule carries_decode)
  then show "env_event envl = OrderCancelled" by blast
  assume "unmarshal_order_cancelled (envelope_data envl) = Inr ox"
  with e have "unmarshal_order_cancelled (remarshal (marshal_order_cancelled ?d)) = Inr ox" by simp
  from decoded_cancelled [OF this] assms(2) show "ox_order_id ox = o_id o'"
    by (simp add: exact_order_def order_cancelled_data_of_def)
qed

lemma failed_row_decode:
  assumes "failed_row oid r" "float_exact (int oid)" "unmarshal_envelope (m_value (row_message fmt r)) = Inr envl"
    and "unmarshal_reservation_failed (envelope_data envl) = Inr rf"
  shows "rf_order_id rf = oid"
proof -
  have "envelope_data envl = remarshal (marshal_reservation_failed \<lparr>rf_order_id = oid, rf_reason = ReasonOutOfStock\<rparr>)"
    using assms(1,3) unfolding failed_row_def by (blast dest: carries_decode)
  with assms(4) decoded_failed show ?thesis
    using assms(2) by fastforce
qed

lemma reserved_row_decode:
  assumes "reserved_row oid r" "unmarshal_envelope (m_value (row_message fmt r)) = Inr envl"
  shows "env_event envl = InventoryReserved"
  using assms unfolding reserved_row_def by (blast dest: carries_decode)

end
