(* ===== verification/Saga.thy ===== *)
theory Saga
  imports SagaMessages
begin

text \<open>
  The order saga as a whole (\<open>docs/saga\<close>): the order service, the inventory service, their outbox
  pollers and the two Kafka topics between them.  A step is one operation of one service, with any
  environment and any replies of its database: a request that creates an order, the read of a
  status update and, at any later time, its write from that snapshot, a poller tick, or the delivery of a
  message that was published before.  Messages may be delivered in any order, repeatedly, or
  never, so the invariants do not rest on Kafka's partitions or on the consumers' offsets.
\<close>

subsection \<open>States and steps\<close>

record saga =
  odb :: order_db
  idb :: inventory_db
  order_log :: "message list"
  inv_log :: "message list"
  snaps :: "order set"

definition saga_init :: "collation \<Rightarrow> saga \<Rightarrow> bool" where
  "saga_init ck S \<longleftrightarrow>
     orders (biz (odb S)) = [] \<and> ob_rows (outbox (odb S)) = [] \<and> processed (odb S) = [] \<and>
     reservations (biz (idb S)) = [] \<and> ob_rows (outbox (idb S)) = [] \<and> processed (idb S) = [] \<and>
     distinct (map (\<lambda>p. ck (p_sku p)) (products (biz (idb S)))) \<and>
     (\<forall>p \<in> set (products (biz (idb S))). p_available p = p_total p \<and> 0 \<le> p_total p) \<and>
     order_log S = [] \<and> inv_log S = [] \<and> snaps S = {}"

inductive saga_step :: "collation \<Rightarrow> saga \<Rightarrow> saga \<Rightarrow> bool" for ck where
  Create: "valid_create_order_request q \<Longrightarrow> next_order_id (biz (odb S)) \<le> 2 ^ 53 \<Longrightarrow>
     runs (create_order env uid q) (odb S) ([] :: message list) r d w \<Longrightarrow> saga_step ck S (S\<lparr>odb := d\<rparr>)"
| Read: "runs (find_by_id_and_user_id i uid) (odb S) ([] :: message list) (Inr o') d w \<Longrightarrow>
     saga_step ck S (S\<lparr>snaps := insert o' (snaps S)\<rparr>)"
| Update: "o' \<in> snaps S \<Longrightarrow> valid_update_status_request st \<Longrightarrow>
     runs (update_order_from env o' st) (odb S) ([] :: message list) r d w \<Longrightarrow> saga_step ck S (S\<lparr>odb := d\<rparr>)"
| OrderTick: "runs (tick fmt pub now locked n) (odb S) (order_log S) r d w \<Longrightarrow>
     saga_step ck S (S\<lparr>odb := d, order_log := w\<rparr>)"
| InventoryTick: "runs (tick fmt pub now locked n) (idb S) (inv_log S) r d w \<Longrightarrow>
     saga_step ck S (S\<lparr>idb := d, inv_log := w\<rparr>)"
| DeliverOrder: "m \<in> set (order_log S) \<Longrightarrow> iv_collation ienv = ck \<Longrightarrow>
     runs (handle_order_event ienv m) (idb S) ([] :: message list) r d' w \<Longrightarrow> saga_step ck S (S\<lparr>idb := d'\<rparr>)"
| DeliverInventory: "m \<in> set (inv_log S) \<Longrightarrow>
     runs (handle_inventory_event env m) (odb S) ([] :: message list) r d w \<Longrightarrow> saga_step ck S (S\<lparr>odb := d\<rparr>)"

inductive_cases saga_stepE: "saga_step ck S T"

subsection \<open>The order service's side\<close>

definition order_ok :: "order \<Rightarrow> bool" where
  "order_ok o' \<longleftrightarrow> live o' \<and> exact_order o' \<and> 1 \<le> o_quantity o' \<and>
     (o_status o' = StatusPending \<and> o_version o' = 0 \<and> o_cancel_reason o' = '''' \<or>
      o_status o' = StatusPaid \<and> o_version o' = 1 \<and> o_cancel_reason o' = '''' \<or>
      o_status o' = StatusCancelled \<and> o_version o' = 1 \<and>
        o_cancel_reason o' \<in> {ReasonUserCancelled, ReasonOutOfStock})"

definition row_of_order :: "order \<Rightarrow> outbox_event \<Rightarrow> bool" where
  "row_of_order o' r \<longleftrightarrow> created_row o' r \<or> o_status o' = StatusCancelled \<and> cancelled_row o' r"

text \<open>
  Every outbox row tells of an order; each order has one \<open>order.created\<close> row, and one
  \<open>order.cancelled\<close> row when it is cancelled, else none.
\<close>

definition order_side_ok :: "order_db \<Rightarrow> bool" where
  "order_side_ok d \<longleftrightarrow> orders_ok d \<and> outbox_ok (outbox d) \<and>
     (\<forall>o' \<in> set (orders (biz d)). order_ok o') \<and>
     (\<forall>r \<in> set (ob_rows (outbox d)). \<exists>o' \<in> set (orders (biz d)). row_of_order o' r) \<and>
     (\<forall>o' \<in> set (orders (biz d)).
        length (filter (created_row o') (ob_rows (outbox d))) = 1 \<and>
        length (filter (cancelled_row o') (ob_rows (outbox d))) = (if o_status o' = StatusCancelled then 1 else 0))"

text \<open>What stays of the order service's data: orders only move on, rows only change in delivery.\<close>

definition same_order :: "order \<Rightarrow> order \<Rightarrow> bool" where
  "same_order a b \<longleftrightarrow> o_id b = o_id a \<and> o_user_id b = o_user_id a \<and> o_sku b = o_sku a \<and>
     o_quantity b = o_quantity a \<and> o_product_name b = o_product_name a \<and> o_amount b = o_amount a \<and>
     (o_status a = StatusPending \<or>
      o_status b = o_status a \<and> o_version b = o_version a \<and> o_cancel_reason b = o_cancel_reason a)"

definition order_side_grows :: "order_db \<Rightarrow> order_db \<Rightarrow> bool" where
  "order_side_grows d d' \<longleftrightarrow>
     (\<forall>a \<in> set (orders (biz d)). \<exists>b \<in> set (orders (biz d')). same_order a b) \<and>
     (\<forall>r \<in> set (ob_rows (outbox d)). \<exists>r' \<in> set (ob_rows (outbox d')). core r' = core r)"

lemma same_order_refl [simp]: "same_order o' o'"
  by (simp add: same_order_def)

lemma same_order_created_row: "same_order a b \<Longrightarrow> created_row b r = created_row a r"
  by (simp add: created_row_def order_created_data_of_def same_order_def)

lemma order_side_grows_refl: "order_side_grows d d"
  unfolding order_side_grows_def using same_order_refl by blast

text \<open>An operation that only changes delivery columns.\<close>

lemma filter_core:
  assumes "map core rows' = map core rows" "\<And>r r'. core r = core r' \<Longrightarrow> P r = P r'"
  shows "length (filter P rows') = length (filter P rows)"
  using assms(1)
proof (induction rows arbitrary: rows')
  case Nil
  then show ?case by simp
next
  case (Cons r rows)
  then obtain r' rs where "rows' = r' # rs" "core r' = core r" "map core rs = map core rows"
    by (cases rows') auto
  with Cons.IH [of rs] assms(2) [of r' r] show ?case by simp
qed

lemma core_member:
  assumes "map core rows' = map core rows" "r' \<in> set rows'"
  shows "\<exists>r \<in> set rows. core r' = core r"
proof -
  have "core r' \<in> set (map core rows)" using assms by (metis imageI list.set_map)
  then show ?thesis by auto
qed

lemma order_side_ok_core:
  assumes ok: "order_side_ok d" and "biz d' = biz d"
    and rows: "map core (ob_rows (outbox d')) = map core (ob_rows (outbox d))" and out: "outbox_ok (outbox d')"
  shows "order_side_ok d' \<and> order_side_grows d d'"
proof
  have kind: "row_of_order o' r = row_of_order o' r'" if "core r = core r'" for o' r r'
    using row_kind_core [OF that] by (simp add: row_of_order_def)
  have "\<exists>o' \<in> set (orders (biz d')). row_of_order o' r" if r: "r \<in> set (ob_rows (outbox d'))" for r
  proof -
    from core_member [OF rows r] obtain r0 where "r0 \<in> set (ob_rows (outbox d))" "core r = core r0" by blast
    with ok kind [of r r0] assms(2) show ?thesis unfolding order_side_ok_def by metis
  qed
  moreover have "length (filter (created_row o') (ob_rows (outbox d'))) = length (filter (created_row o') (ob_rows (outbox d)))"
    "length (filter (cancelled_row o') (ob_rows (outbox d'))) = length (filter (cancelled_row o') (ob_rows (outbox d)))" for o'
    by (intro filter_core [OF rows] row_kind_core; assumption)+
  ultimately show "order_side_ok d'"
    using ok assms(2) out by (simp add: order_side_ok_def orders_ok_def)
  show "order_side_grows d d'"
    using core_member [OF rows [symmetric]] assms(2) unfolding order_side_grows_def by (metis same_order_refl)
qed

lemma row_of_order_id:
  "row_of_order b r \<Longrightarrow> created_row a r \<or> cancelled_row a r \<Longrightarrow> o_id a = o_id b"
  unfolding row_of_order_def
  by (metis created_row_id cancelled_row_id row_kind_distinct(1))

lemma no_rows_for:
  assumes "\<forall>r \<in> set rows. \<exists>b \<in> B. row_of_order b r" "\<forall>b \<in> B. o_id b \<noteq> o_id a"
  shows "filter (created_row a) rows = []" "filter (cancelled_row a) rows = []"
  unfolding filter_empty_conv using assms row_of_order_id by metis+

lemma order_side_ok_created:
  assumes ok: "order_side_ok d" and q: "valid_create_order_request q" and small: "next_order_id (biz d) \<le> 2 ^ 53"
    and c: "order_created_by env u q d o' e d'"
  shows "order_side_ok d' \<and> order_side_grows d d'"
proof -
  let ?row = "e\<lparr>ob_id := ob_next_id (outbox d)\<rparr>"
  from c have o': "o' = new_order (en_now env) (order_of_request u q) d" and chk: "check_order o' = None"
    and e: "created_event env o' = Inr e" and fresh: "\<not> event_id_used (ob_event_id e) (outbox d)"
    and d': "d' = (insert_order o' d)\<lparr>outbox := insert_row e (outbox d)\<rparr>"
    by (auto simp: order_created_by_def)
  have i: "o_id o' = next_order_id (biz d)" and pend: "o_status o' = StatusPending"
    by (simp_all add: o' new_order_def create_defaults_def order_of_request_def)
  have orders: "orders (biz d') = orders (biz d) @ [o']" and rows: "ob_rows (outbox d') = ob_rows (outbox d) @ [?row]"
    by (simp_all add: d' insert_row_def)
  have old: "\<forall>r \<in> set (ob_rows (outbox d)). \<exists>b \<in> set (orders (biz d)). row_of_order b r"
    and ids: "\<forall>b \<in> set (orders (biz d)). o_id b \<noteq> o_id o'"
    using ok i unfolding order_side_ok_def orders_ok_def by auto
  have new: "created_row o' ?row" by (rule created_event_row [OF e pend])
  have good: "order_ok o'"
    using q chk small
    by (auto simp: order_ok_def o' new_order_def create_defaults_def order_of_request_def live_def
        valid_create_order_request_def check_order_def in_int32_def exact_order_def float_exact_def split: if_splits)
  have counts: "length (filter (created_row a) (ob_rows (outbox d'))) = 1 \<and>
      length (filter (cancelled_row a) (ob_rows (outbox d'))) = (if o_status a = StatusCancelled then 1 else 0)"
    if a: "a \<in> set (orders (biz d'))" for a
  proof (cases "a = o'")
    case True
    with no_rows_for [OF old ids] new pend show ?thesis
      by (simp add: rows row_kind_distinct(1) [OF new])
  next
    case False
    with a have a: "a \<in> set (orders (biz d))" by (simp add: orders)
    then have "\<not> created_row a ?row" "\<not> cancelled_row a ?row"
      using ids new created_row_id row_kind_distinct(1) by metis+
    with a ok show ?thesis by (simp add: rows order_side_ok_def)
  qed
  have "orders_ok d'"
    using ok i unfolding order_side_ok_def by (auto simp: orders_ok_def d')
  moreover have "outbox_ok (outbox d')"
    using ok fresh unfolding order_side_ok_def d' by (simp add: outbox_ok_insert_row)
  moreover have "\<forall>r \<in> set (ob_rows (outbox d')). \<exists>a \<in> set (orders (biz d')). row_of_order a r"
    using old new by (auto simp: rows orders row_of_order_def)
  ultimately have "order_side_ok d'"
    using ok good counts unfolding order_side_ok_def by (simp add: orders)
  moreover have "order_side_grows d d'"
    unfolding order_side_grows_def orders rows set_append using same_order_refl by blast
  ultimately show ?thesis ..
qed

lemma order_row_mem: "orders_ok d \<Longrightarrow> current d u i st v c \<Longrightarrow>
    c \<in> set (orders (biz d)) \<and> live c \<and> o_id c = i \<and> o_user_id c = u \<and> o_status c = st \<and> o_version c = v"
  by (auto simp: current_def order_row_Some)

text \<open>Replacing the one row \<open>c\<close> of \<open>put_order\<close>.\<close>

lemma orders_put_order_current:
  assumes "orders_ok d" "c \<in> set (orders (biz d))" "a \<in> set (orders (biz (put_order (o_id c) f d)))"
  shows "a = f c \<or> a \<in> set (orders (biz d)) \<and> o_id a \<noteq> o_id c"
proof -
  from assms(3) obtain b where b: "b \<in> set (orders (biz d))" "a = (if o_id b = o_id c then f b else b)"
    by (auto simp: orders_put_order)
  show ?thesis
  proof (cases "o_id b = o_id c")
    case True
    with assms(1,2) b(1) have "b = c" unfolding orders_ok_def by (metis distinct_key_eq)
    with b(2) show ?thesis by simp
  next
    case False
    with b show ?thesis by simp
  qed
qed

lemma put_order_grows:
  assumes "orders_ok d" "c \<in> set (orders (biz d))" "same_order c (f c)"
    and "a \<in> set (orders (biz d))"
  shows "\<exists>b \<in> set (orders (biz (put_order (o_id c) f d))). same_order a b"
proof (cases "o_id a = o_id c")
  case True
  then have "a = c" using assms(1,2,4) unfolding orders_ok_def by (metis distinct_key_eq)
  with assms(2,3) show ?thesis by (auto simp: orders_put_order intro!: bexI [of _ "f c"] image_eqI [of _ _ c])
next
  case False
  with assms(4) show ?thesis
    by (auto simp: orders_put_order intro!: bexI [of _ a] image_eqI [of _ _ a])
qed

lemma order_side_ok_paid:
  assumes ok: "order_side_ok d" and c: "current d u i StatusPending v c"
  shows "order_side_ok (put_order i (set_status StatusPaid now) d) \<and>
    order_side_grows d (put_order i (set_status StatusPaid now) d)"
proof -
  let ?f = "set_status StatusPaid now"
  let ?d = "put_order i ?f d"
  have oks: "orders_ok d" using ok by (simp add: order_side_ok_def)
  have c: "c \<in> set (orders (biz d))" "o_id c = i" "o_status c = StatusPending"
    using order_row_mem [OF oks c] by blast+
  have good: "order_ok c" using ok c(1) unfolding order_side_ok_def by blast
  have same: "same_order c (?f c)" using c(3) by (simp add: same_order_def)
  have cr: "created_row (?f c) = created_row c" using same_order_created_row [OF same] by blast
  have cc: "cancelled_row (?f c) = cancelled_row c"
    by (simp add: cancelled_row_def order_cancelled_data_of_def fun_eq_iff)
  have mem: "a = ?f c \<or> a \<in> set (orders (biz d)) \<and> o_id a \<noteq> i" if "a \<in> set (orders (biz ?d))" for a
    using orders_put_order_current [OF oks c(1)] that c(2) by simp
  have has: "?f c \<in> set (orders (biz ?d))" "\<And>a. a \<in> set (orders (biz d)) \<Longrightarrow> o_id a \<noteq> i \<Longrightarrow> a \<in> set (orders (biz ?d))"
    using c by (auto simp: orders_put_order intro: image_eqI [of _ _ c] rev_image_eqI)
  have rows: "\<exists>a \<in> set (orders (biz ?d)). row_of_order a r" if r: "r \<in> set (ob_rows (outbox d))" for r
  proof -
    from ok r obtain b where b: "b \<in> set (orders (biz d))" "row_of_order b r" unfolding order_side_ok_def by blast
    show ?thesis
    proof (cases "o_id b = i")
      case True
      then have "b = c" using oks c b(1) unfolding orders_ok_def by (metis distinct_key_eq)
      with b(2) c(3) cr have "row_of_order (?f c) r" by (simp add: row_of_order_def)
      with has(1) show ?thesis by blast
    next
      case False
      with has(2) b show ?thesis by blast
    qed
  qed
  have "order_ok a \<and> length (filter (created_row a) (ob_rows (outbox d))) = 1 \<and>
      length (filter (cancelled_row a) (ob_rows (outbox d))) = (if o_status a = StatusCancelled then 1 else 0)"
    if "a \<in> set (orders (biz ?d))" for a
    using mem [OF that]
  proof
    assume a: "a = ?f c"
    have "order_ok (?f c)" using good c(3) by (simp add: order_ok_def exact_order_def)
    with ok c a cr cc show ?thesis unfolding order_side_ok_def by simp
  next
    assume "a \<in> set (orders (biz d)) \<and> o_id a \<noteq> i"
    with ok show ?thesis unfolding order_side_ok_def by blast
  qed
  with rows ok have "order_side_ok ?d"
    unfolding order_side_ok_def by (simp add: orders_ok_put_order [OF oks])
  moreover have "order_side_grows d ?d"
    unfolding order_side_grows_def using put_order_grows [where f = ?f, OF oks c(1) same] c(2) by auto
  ultimately show ?thesis ..
qed

lemma order_side_ok_cancelled:
  assumes ok: "order_side_ok d" and c: "order_cancelled_by env s reason d c e d'"
    and re: "reason \<in> {ReasonUserCancelled, ReasonOutOfStock}"
  shows "order_side_ok d' \<and> order_side_grows d d'"
proof -
  let ?f = "set_cancelled reason (en_now env)"
  let ?i = "o_id s"
  let ?row = "e\<lparr>ob_id := ob_next_id (outbox d)\<rparr>"
  have oks: "orders_ok d" using ok by (simp add: order_side_ok_def)
  from c have cur: "current d (o_user_id s) ?i StatusPending (o_version s) c"
    and e: "cancelled_event env (?f c) reason = Inr e" and fresh: "\<not> event_id_used (ob_event_id e) (outbox d)"
    and d': "d' = (put_order ?i ?f d)\<lparr>outbox := insert_row e (outbox d)\<rparr>"
    by (auto simp: order_cancelled_by_def)
  have c: "c \<in> set (orders (biz d))" "o_id c = ?i" "o_status c = StatusPending"
    using order_row_mem [OF oks cur] by blast+
  have rows: "ob_rows (outbox d') = ob_rows (outbox d) @ [?row]" by (simp add: d' insert_row_def)
  have good: "order_ok c" using ok c(1) unfolding order_side_ok_def by blast
  have same: "same_order c (?f c)" using c(3) by (simp add: same_order_def)
  have cr: "created_row (?f c) = created_row c" using same_order_created_row [OF same] by blast
  have new: "cancelled_row (?f c) ?row" using e by (intro cancelled_event_row) simp
  have notnew: "\<not> created_row a ?row" for a using new row_kind_distinct(1) by blast
  have mem: "a = ?f c \<or> a \<in> set (orders (biz d)) \<and> o_id a \<noteq> ?i" if "a \<in> set (orders (biz d'))" for a
    using orders_put_order_current [OF oks c(1), of a ?f] that c(2) by (simp add: d')
  have has: "?f c \<in> set (orders (biz d'))" "\<And>a. a \<in> set (orders (biz d)) \<Longrightarrow> o_id a \<noteq> ?i \<Longrightarrow> a \<in> set (orders (biz d'))"
    using c by (auto simp: d' orders_put_order intro: image_eqI [of _ _ c] rev_image_eqI)
  have old: "b = c \<and> created_row c r \<or> o_id b \<noteq> ?i"
    if "r \<in> set (ob_rows (outbox d))" "b \<in> set (orders (biz d))" "row_of_order b r" for b r
  proof (cases "o_id b = ?i")
    case True
    then have "b = c" using oks c that(2) unfolding orders_ok_def by (metis distinct_key_eq)
    with that(3) c(3) show ?thesis by (simp add: row_of_order_def)
  qed simp
  have none: "filter (cancelled_row (?f c)) (ob_rows (outbox d)) = []"
    unfolding filter_empty_conv
  proof (intro ballI notI)
    fix r assume r: "r \<in> set (ob_rows (outbox d))" "cancelled_row (?f c) r"
    with ok obtain b where b: "b \<in> set (orders (biz d))" "row_of_order b r" unfolding order_side_ok_def by blast
    from row_of_order_id [OF b(2)] r(2) c(2) have "o_id b = ?i" by fastforce
    with old [OF r(1) b] have "created_row c r" by blast
    with r(2) row_kind_distinct(1) show False by blast
  qed
  have every: "\<exists>a \<in> set (orders (biz d')). row_of_order a r" if r: "r \<in> set (ob_rows (outbox d'))" for r
  proof (cases "r = ?row")
    case True
    with new has(1) show ?thesis unfolding row_of_order_def by (intro bexI [of _ "?f c"]) auto
  next
    case False
    with r have r: "r \<in> set (ob_rows (outbox d))" by (simp add: rows)
    with ok obtain b where b: "b \<in> set (orders (biz d))" "row_of_order b r" unfolding order_side_ok_def by blast
    from old [OF r b] show ?thesis
    proof
      assume "b = c \<and> created_row c r"
      then have "row_of_order (?f c) r" unfolding row_of_order_def cr by blast
      with has(1) show ?thesis by blast
    next
      assume "o_id b \<noteq> ?i"
      with has(2) b show ?thesis by blast
    qed
  qed
  have counts: "order_ok a \<and> length (filter (created_row a) (ob_rows (outbox d'))) = 1 \<and>
      length (filter (cancelled_row a) (ob_rows (outbox d'))) = (if o_status a = StatusCancelled then 1 else 0)"
    if "a \<in> set (orders (biz d'))" for a
    using mem [OF that]
  proof
    assume a: "a = ?f c"
    have "order_ok (?f c)" using good c(3) re by (auto simp: order_ok_def exact_order_def)
    moreover have "length (filter (created_row c) (ob_rows (outbox d))) = 1"
      using ok c(1) unfolding order_side_ok_def by blast
    ultimately show ?thesis
      using new notnew none unfolding a rows cr by simp
  next
    assume a: "a \<in> set (orders (biz d)) \<and> o_id a \<noteq> ?i"
    then have "\<not> cancelled_row a ?row"
      using cancelled_row_id [OF new] c(2) by fastforce
    with ok a notnew show ?thesis unfolding order_side_ok_def rows by simp
  qed
  have "orders_ok d'"
    using orders_ok_put_order [OF oks, of ?f ?i] by (simp add: d' orders_ok_def)
  moreover have "outbox_ok (outbox d')"
    using ok fresh unfolding order_side_ok_def d' by (simp add: outbox_ok_insert_row)
  ultimately have "order_side_ok d'"
    unfolding order_side_ok_def using counts every by blast
  moreover have "order_side_grows d d'"
    unfolding order_side_grows_def using put_order_grows [where f = ?f, OF oks c(1) same] c(2)
    by (auto simp: d' insert_row_def)
  ultimately show ?thesis ..
qed

lemma order_side_ok_marked: "order_side_ok (mark_processed i d) = order_side_ok d"
  by (simp add: order_side_ok_def orders_ok_def)

lemma order_side_grows_marked: "order_side_grows d (mark_processed i d') = order_side_grows d d'"
  by (simp add: order_side_grows_def)

subsection \<open>The two services together\<close>

text \<open>The order's \<open>order.created\<close> event has been handled by the inventory service.\<close>

definition handled :: "order_db \<Rightarrow> inventory_db \<Rightarrow> order \<Rightarrow> bool" where
  "handled d j o' \<longleftrightarrow> (\<exists>c \<in> set (ob_rows (outbox d)). created_row o' c \<and> was_processed j (ob_event_id c))"

definition reservation_linked :: "order_db \<Rightarrow> inventory_db \<Rightarrow> reservation \<Rightarrow> bool" where
  "reservation_linked d j rv \<longleftrightarrow> (\<exists>o' \<in> set (orders (biz d)).
     o_id o' = rv_order_id rv \<and> o_sku o' = rv_sku rv \<and> o_quantity o' = rv_quantity rv \<and>
     (rv_status rv = ReservationStatusReleased \<longrightarrow> o_status o' = StatusCancelled) \<and> handled d j o')"

definition no_reservation :: "inventory_db \<Rightarrow> nat \<Rightarrow> bool" where
  "no_reservation j i \<longleftrightarrow> (\<forall>rv \<in> set (reservations (biz j)). rv_order_id rv \<noteq> i)"

definition answer_linked :: "order_db \<Rightarrow> inventory_db \<Rightarrow> outbox_event \<Rightarrow> bool" where
  "answer_linked d j r \<longleftrightarrow> (\<exists>o' \<in> set (orders (biz d)).
     reserved_row (o_id o') r \<or> failed_row (o_id o') r \<and> handled d j o' \<and> no_reservation j (o_id o'))"

definition out_of_stock :: "order \<Rightarrow> bool" where
  "out_of_stock o' \<longleftrightarrow> o_status o' = StatusCancelled \<and> o_cancel_reason o' = ReasonOutOfStock"

definition refused :: "inventory_db \<Rightarrow> nat \<Rightarrow> bool" where
  "refused j i \<longleftrightarrow> (\<exists>r \<in> set (ob_rows (outbox j)). failed_row i r)"

definition linked :: "order_db \<Rightarrow> inventory_db \<Rightarrow> bool" where
  "linked d j \<longleftrightarrow>
     (\<forall>rv \<in> set (reservations (biz j)). reservation_linked d j rv) \<and>
     (\<forall>r \<in> set (ob_rows (outbox j)). answer_linked d j r) \<and>
     (\<forall>o' \<in> set (orders (biz d)). out_of_stock o' \<longrightarrow> refused j (o_id o'))"

definition log_ok :: "message list \<Rightarrow> outbox_event list \<Rightarrow> bool" where
  "log_ok ms rows \<longleftrightarrow> (\<forall>m \<in> set ms. \<exists>fmt. \<exists>r \<in> set rows. m = row_message fmt r)"

definition saga_inv :: "collation \<Rightarrow> saga \<Rightarrow> bool" where
  "saga_inv ck S \<longleftrightarrow> order_side_ok (odb S) \<and> stock_ok ck (idb S) \<and> outbox_ok (outbox (idb S)) \<and>
     linked (odb S) (idb S) \<and> log_ok (order_log S) (ob_rows (outbox (odb S))) \<and>
     log_ok (inv_log S) (ob_rows (outbox (idb S)))"

lemma saga_inv_init: "saga_init ck S \<Longrightarrow> saga_inv ck S"
  by (auto simp: saga_init_def saga_inv_def order_side_ok_def orders_ok_def outbox_ok_def stock_ok_def
      linked_def log_ok_def held_def)

subsection \<open>Moves of the order service\<close>

lemma handled_grows:
  assumes "order_side_grows d d'" "handled d j a" "same_order a b"
  shows "handled d' j b"
proof -
  from assms(2) obtain c where c: "c \<in> set (ob_rows (outbox d))" "created_row a c" "was_processed j (ob_event_id c)"
    by (auto simp: handled_def)
  from assms(1) c(1) obtain c' where c': "c' \<in> set (ob_rows (outbox d'))" "core c' = core c"
    by (auto simp: order_side_grows_def)
  then have "created_row b c'" "ob_event_id c' = ob_event_id c"
    using c(2) row_kind_core(1) [OF c'(2)] same_order_created_row [OF assms(3)] core_eqD(2) [OF c'(2)] by auto
  with c' c(3) show ?thesis by (auto simp: handled_def)
qed

lemma same_order_cancelled: "same_order a b \<Longrightarrow> o_status a = StatusCancelled \<Longrightarrow> o_status b = StatusCancelled"
  by (auto simp: same_order_def)

lemma linked_grows:
  assumes l: "linked d j" and g: "order_side_grows d d'"
    and oos: "\<And>b. b \<in> set (orders (biz d')) \<Longrightarrow> out_of_stock b \<Longrightarrow>
      (\<exists>a \<in> set (orders (biz d)). o_id a = o_id b \<and> out_of_stock a) \<or> refused j (o_id b)"
  shows "linked d' j"
proof -
  have move: "\<exists>b \<in> set (orders (biz d')). same_order a b" if "a \<in> set (orders (biz d))" for a
    using g that by (auto simp: order_side_grows_def)
  have "reservation_linked d' j rv" if rv: "rv \<in> set (reservations (biz j))" for rv
  proof -
    from l rv obtain a where a: "a \<in> set (orders (biz d))" "o_id a = rv_order_id rv" "o_sku a = rv_sku rv"
      "o_quantity a = rv_quantity rv" "rv_status rv = ReservationStatusReleased \<longrightarrow> o_status a = StatusCancelled"
      "handled d j a"
      unfolding linked_def reservation_linked_def by blast
    from move [OF a(1)] obtain b where b: "b \<in> set (orders (biz d'))" "same_order a b" by blast
    then have "o_id b = o_id a" "o_sku b = o_sku a" "o_quantity b = o_quantity a" by (simp_all add: same_order_def)
    with a b handled_grows [OF g a(6) b(2)] same_order_cancelled [OF b(2)] show ?thesis
      unfolding reservation_linked_def by (intro bexI [of _ b]) auto
  qed
  moreover have "answer_linked d' j r" if r: "r \<in> set (ob_rows (outbox j))" for r
  proof -
    from l r obtain a where a: "a \<in> set (orders (biz d))"
      "reserved_row (o_id a) r \<or> failed_row (o_id a) r \<and> handled d j a \<and> no_reservation j (o_id a)"
      unfolding linked_def answer_linked_def by blast
    from move [OF a(1)] obtain b where b: "b \<in> set (orders (biz d'))" "same_order a b" by blast
    then have "o_id b = o_id a" by (simp add: same_order_def)
    with a(2) b handled_grows [OF g _ b(2)] show ?thesis
      unfolding answer_linked_def by (intro bexI [of _ b]) auto
  qed
  moreover have "refused j (o_id b)" if "b \<in> set (orders (biz d'))" "out_of_stock b" for b
    using oos [OF that] l unfolding linked_def by metis
  ultimately show ?thesis unfolding linked_def by blast
qed

lemma log_ok_grows:
  assumes "log_ok ms rows" "\<And>r. r \<in> set rows \<Longrightarrow> \<exists>r' \<in> set rows'. core r' = core r"
  shows "log_ok ms rows'"
  using assms unfolding log_ok_def by (metis row_message_core)

lemma saga_inv_order_move:
  assumes inv: "saga_inv ck S" and ok: "order_side_ok d" and g: "order_side_grows (odb S) d"
    and oos: "\<And>b. b \<in> set (orders (biz d)) \<Longrightarrow> out_of_stock b \<Longrightarrow>
      (\<exists>a \<in> set (orders (biz (odb S))). o_id a = o_id b \<and> out_of_stock a) \<or> refused (idb S) (o_id b)"
    and log: "log_ok w (ob_rows (outbox d))"
  shows "saga_inv ck (S\<lparr>odb := d, order_log := w\<rparr>)"
  using inv ok linked_grows [OF _ g oos] log by (simp add: saga_inv_def)

lemma saga_inv_order_move_same_log:
  assumes "saga_inv ck S" "order_side_ok d" "order_side_grows (odb S) d"
    and "\<And>b. b \<in> set (orders (biz d)) \<Longrightarrow> out_of_stock b \<Longrightarrow>
      (\<exists>a \<in> set (orders (biz (odb S))). o_id a = o_id b \<and> out_of_stock a) \<or> refused (idb S) (o_id b)"
  shows "saga_inv ck (S\<lparr>odb := d\<rparr>)"
proof -
  have "log_ok (order_log S) (ob_rows (outbox d))"
    by (rule log_ok_grows) (use assms(1,3) in \<open>auto simp: saga_inv_def order_side_grows_def\<close>)
  from saga_inv_order_move [OF assms this] show ?thesis by simp
qed

lemma saga_inv_created:
  assumes inv: "saga_inv ck S" and q: "valid_create_order_request q" "next_order_id (biz (odb S)) \<le> 2 ^ 53"
    and c: "order_created_by env u q (odb S) o' e d"
  shows "saga_inv ck (S\<lparr>odb := d\<rparr>)"
proof -
  have "order_side_ok (odb S)" using inv by (simp add: saga_inv_def)
  from order_side_ok_created [OF this q c] have "order_side_ok d" "order_side_grows (odb S) d" by blast+
  then show ?thesis
    by (rule saga_inv_order_move_same_log [OF inv])
      (use c in \<open>auto simp: order_created_by_def out_of_stock_def new_order_def create_defaults_def order_of_request_def\<close>)
qed

lemma saga_inv_paid:
  assumes inv: "saga_inv ck S" and c: "current (odb S) u i StatusPending v c"
  shows "saga_inv ck (S\<lparr>odb := put_order i (set_status StatusPaid now) (odb S)\<rparr>)"
proof -
  have ok: "order_side_ok (odb S)" using inv by (simp add: saga_inv_def)
  from order_side_ok_paid [OF this c] have
    "order_side_ok (put_order i (set_status StatusPaid now) (odb S))"
    "order_side_grows (odb S) (put_order i (set_status StatusPaid now) (odb S))" by blast+
  then show ?thesis
    by (rule saga_inv_order_move_same_log [OF inv])
      (auto simp: orders_put_order out_of_stock_def split: if_splits)
qed

lemma saga_inv_cancelled:
  assumes inv: "saga_inv ck S" and c: "order_cancelled_by env s reason (odb S) c e d"
    and re: "reason = ReasonUserCancelled \<or> reason = ReasonOutOfStock \<and> refused (idb S) (o_id s)"
  shows "saga_inv ck (S\<lparr>odb := d\<rparr>)"
proof -
  have ok: "order_side_ok (odb S)" using inv by (simp add: saga_inv_def)
  from re have "reason \<in> {ReasonUserCancelled, ReasonOutOfStock}" by auto
  from order_side_ok_cancelled [OF ok c this] have "order_side_ok d" "order_side_grows (odb S) d" by blast+
  then show ?thesis
    by (rule saga_inv_order_move_same_log [OF inv])
      (use c re in \<open>auto simp: order_cancelled_by_def orders_put_order out_of_stock_def split: if_splits\<close>)
qed

lemma saga_inv_marked: "saga_inv ck (S\<lparr>odb := d\<rparr>) \<Longrightarrow> saga_inv ck (S\<lparr>odb := mark_processed i d\<rparr>)"
  by (simp add: saga_inv_def order_side_ok_marked linked_def reservation_linked_def answer_linked_def handled_def)

lemma tick_log:
  assumes "log_ok ms (ob_rows (outbox d))" "batch_effect fmt (pending_rows locked n (ob_rows (outbox d))) d ms d' w"
  shows "log_ok w (ob_rows (outbox d'))"
proof -
  have core: "map core (ob_rows (outbox d')) = map core (ob_rows (outbox d))"
    by (rule batch_effect_core [OF assms(2)])
  from assms(2) obtain new where w: "w = ms @ new"
      "subseq new (map (row_message fmt) (pending_rows locked n (ob_rows (outbox d))))"
    by (auto simp: batch_effect_def)
  have "m \<in> row_message fmt ` set (pending_rows locked n (ob_rows (outbox d)))" if "m \<in> set new" for m
    by (rule list_emb_set [OF w(2) that]) auto
  then have "log_ok w (ob_rows (outbox d))"
    using assms(1) w(1) pending_rows_member unfolding log_ok_def by fastforce
  then show ?thesis
    by (rule log_ok_grows) (use core_member [OF core [symmetric]] in metis)
qed

lemma saga_inv_order_tick:
  assumes inv: "saga_inv ck S" and run: "runs (tick fmt pub now locked n) (odb S) (order_log S) r d w"
  shows "saga_inv ck (S\<lparr>odb := d, order_log := w\<rparr>)"
proof -
  have ok: "order_side_ok (odb S)" and out: "outbox_ok (outbox (odb S))"
    using inv by (auto simp: saga_inv_def order_side_ok_def)
  have b: "batch_effect fmt (pending_rows locked n (ob_rows (outbox (odb S)))) (odb S) (order_log S) d w"
    using runs_holds [OF run holds_tick [OF out]] .
  have core: "map core (ob_rows (outbox d)) = map core (ob_rows (outbox (odb S)))"
    by (rule batch_effect_core [OF b])
  have biz: "biz d = biz (odb S)" using b by (auto simp: batch_effect_def)
  have out': "outbox_ok (outbox d)" using batch_effect_outbox_ok [OF b] out by simp
  have k: "order_side_ok d \<and> order_side_grows (odb S) d"
    by (rule order_side_ok_core [OF ok biz core out'])
  show ?thesis
    by (rule saga_inv_order_move [OF inv conjunct1 [OF k] conjunct2 [OF k]])
      (use biz tick_log [OF _ b] inv in \<open>auto simp: saga_inv_def\<close>)
qed

subsection \<open>Moves of the inventory service\<close>

lemma refused_grows:
  assumes "refused j i" "\<And>r. r \<in> set (ob_rows (outbox j)) \<Longrightarrow> \<exists>r' \<in> set (ob_rows (outbox j')). core r' = core r"
  shows "refused j' i"
  using assms unfolding refused_def by (metis row_kind_core(4))

lemma saga_inv_inventory_tick:
  assumes inv: "saga_inv ck S" and run: "runs (tick fmt pub now locked n) (idb S) (inv_log S) r j w"
  shows "saga_inv ck (S\<lparr>idb := j, inv_log := w\<rparr>)"
proof -
  have out: "outbox_ok (outbox (idb S))" using inv by (simp add: saga_inv_def)
  have b: "batch_effect fmt (pending_rows locked n (ob_rows (outbox (idb S)))) (idb S) (inv_log S) j w"
    using runs_holds [OF run holds_tick [OF out]] .
  have core: "map core (ob_rows (outbox j)) = map core (ob_rows (outbox (idb S)))"
    by (rule batch_effect_core [OF b])
  have biz: "biz j = biz (idb S)" "processed j = processed (idb S)" using b by (auto simp: batch_effect_def)
  have h: "handled d j o' = handled d (idb S) o'" "no_reservation j i = no_reservation (idb S) i" for d o' i
    using biz by (simp_all add: handled_def no_reservation_def was_processed_def)
  have "answer_linked (odb S) j r" if r: "r \<in> set (ob_rows (outbox j))" for r
  proof -
    from core_member [OF core r] obtain r0 where r0: "r0 \<in> set (ob_rows (outbox (idb S)))" "core r = core r0" by blast
    with inv have "answer_linked (odb S) (idb S) r0" by (simp add: saga_inv_def linked_def)
    then show ?thesis
      unfolding answer_linked_def h row_kind_core(3,4) [OF r0(2)] .
  qed
  moreover have "refused j i" if "refused (idb S) i" for i
    by (rule refused_grows [OF that]) (use core_member [OF core [symmetric]] in metis)
  ultimately have "linked (odb S) j"
    using inv biz unfolding saga_inv_def linked_def by (simp add: reservation_linked_def h)
  moreover have "log_ok w (ob_rows (outbox j))"
    by (rule tick_log [OF _ b]) (use inv in \<open>simp add: saga_inv_def\<close>)
  ultimately show ?thesis
    using inv batch_effect_outbox_ok [OF b] stock_ok_biz [OF biz(1)] by (simp add: saga_inv_def)
qed

text \<open>There is one \<open>order.created\<close> row for an order, so a second event for it is the same event.\<close>

lemma single_created_row:
  assumes "order_side_ok d" "o' \<in> set (orders (biz d))"
    and "r1 \<in> set (ob_rows (outbox d))" "created_row o' r1" "r2 \<in> set (ob_rows (outbox d))" "created_row o' r2"
  shows "r1 = r2"
proof -
  have "length (filter (created_row o') (ob_rows (outbox d))) = 1"
    using assms(1,2) unfolding order_side_ok_def by blast
  then obtain x where "filter (created_row o') (ob_rows (outbox d)) = [x]"
    by (metis One_nat_def length_0_conv length_Suc_conv)
  moreover have "r1 \<in> set (filter (created_row o') (ob_rows (outbox d)))"
    "r2 \<in> set (filter (created_row o') (ob_rows (outbox d)))"
    using assms by simp_all
  ultimately show ?thesis by simp
qed

lemma order_same_id:
  "order_side_ok d \<Longrightarrow> a \<in> set (orders (biz d)) \<Longrightarrow> b \<in> set (orders (biz d)) \<Longrightarrow> o_id a = o_id b \<Longrightarrow> a = b"
  unfolding order_side_ok_def orders_ok_def by (metis distinct_key_eq)

text \<open>Before its event is handled, an order has no reservation and no refusal.\<close>

lemma unhandled_order:
  assumes ok: "order_side_ok d" and l: "linked d j" and o': "o' \<in> set (orders (biz d))"
    and r: "r \<in> set (ob_rows (outbox d))" "created_row o' r" "\<not> was_processed j (ob_event_id r)"
  shows "\<not> handled d j o'" "no_reservation j (o_id o')"
proof -
  show h: "\<not> handled d j o'"
    unfolding handled_def using single_created_row [OF ok o' _ _ r(1,2)] r(3) by blast
  show "no_reservation j (o_id o')"
    unfolding no_reservation_def
  proof (intro ballI notI)
    fix rv assume rv: "rv \<in> set (reservations (biz j))" "rv_order_id rv = o_id o'"
    with l obtain a where "a \<in> set (orders (biz d))" "o_id a = rv_order_id rv" "handled d j a"
      unfolding linked_def reservation_linked_def by blast
    with order_same_id [OF ok _ o'] rv(2) h show False by metis
  qed
qed

lemma was_processed_mark: "was_processed (mark_processed i j) k \<longleftrightarrow> k = i \<or> was_processed j k"
  by (auto simp: process_dedup.seen_mark)

text \<open>The three things an order event can do to the inventory service's data.\<close>

lemma linked_reserved:
  assumes ok: "order_side_ok d" and l: "linked d j" and o': "o' \<in> set (orders (biz d))"
    and r: "r \<in> set (ob_rows (outbox d))" "created_row o' r" "\<not> was_processed j (ob_event_id r)"
    and j1: "reserved_by ck now (o_id o') (o_sku o') (o_quantity o') j j1" and e: "reserved_row (o_id o') (e\<lparr>ob_id := ob_next_id (outbox j)\<rparr>)"
  shows "linked d (mark_processed (ob_event_id r) (with_event e j1))"
proof -
  let ?j = "mark_processed (ob_event_id r) (with_event e j1)"
  let ?rv = "\<lparr>rv_id = next_reservation_id (biz j), rv_order_id = o_id o', rv_sku = o_sku o', rv_quantity = o_quantity o',
    rv_status = ReservationStatusReserved, rv_created_at = now\<rparr>"
  note new = unhandled_order [OF ok l o' r]
  have res: "reservations (biz j1) = reservations (biz j) @ [?rv]"
    and out: "outbox j1 = outbox j" and proc: "\<And>k. was_processed ?j k \<longleftrightarrow> k = ob_event_id r \<or> was_processed j k"
    using j1 by (auto simp: reserved_by_def add_reservation_def add_available_def was_processed_mark was_processed_def)
  have h: "handled d ?j a" if "handled d j a" for a using that proc by (auto simp: handled_def)
  have "handled d ?j o'" using r proc unfolding handled_def by blast
  then have "reservation_linked d ?j ?rv" using o' unfolding reservation_linked_def by auto
  moreover have "reservation_linked d ?j rv" if "rv \<in> set (reservations (biz j))" for rv
    using l that h unfolding linked_def reservation_linked_def by blast
  moreover have "answer_linked d ?j x" if x: "x \<in> set (ob_rows (outbox j))" for x
  proof -
    from l x obtain a where a: "a \<in> set (orders (biz d))"
      "reserved_row (o_id a) x \<or> failed_row (o_id a) x \<and> handled d j a \<and> no_reservation j (o_id a)"
      unfolding linked_def answer_linked_def by blast
    have "no_reservation ?j (o_id a)" if "handled d j a" "no_reservation j (o_id a)"
      using that new(1) order_same_id [OF ok a(1) o'] by (auto simp: no_reservation_def res)
    with a h show ?thesis unfolding answer_linked_def by blast
  qed
  moreover have "answer_linked d ?j (e\<lparr>ob_id := ob_next_id (outbox j)\<rparr>)"
    using e o' unfolding answer_linked_def by blast
  moreover have "refused ?j i" if "refused j i" for i
    using that by (auto simp: refused_def out set_insert_row)
  ultimately show ?thesis
    using l unfolding linked_def by (auto simp: res out set_insert_row)
qed

lemma linked_failed:
  assumes ok: "order_side_ok d" and l: "linked d j" and o': "o' \<in> set (orders (biz d))"
    and r: "r \<in> set (ob_rows (outbox d))" "created_row o' r" "\<not> was_processed j (ob_event_id r)"
    and e: "failed_row (o_id o') (e\<lparr>ob_id := ob_next_id (outbox j)\<rparr>)"
  shows "linked d (mark_processed (ob_event_id r) (with_event e j))"
proof -
  let ?j = "mark_processed (ob_event_id r) (with_event e j)"
  note new = unhandled_order [OF ok l o' r]
  have res: "reservations (biz ?j) = reservations (biz j)" "\<And>i. no_reservation ?j i = no_reservation j i"
    and out: "outbox ?j = insert_row e (outbox j)" and proc: "\<And>k. was_processed ?j k \<longleftrightarrow> k = ob_event_id r \<or> was_processed j k"
    by (auto simp: no_reservation_def was_processed_mark was_processed_def)
  have h: "handled d ?j a" if "handled d j a" for a using that proc by (auto simp: handled_def)
  have ho: "handled d ?j o'" using r proc unfolding handled_def by blast
  have "reservation_linked d ?j rv" if "rv \<in> set (reservations (biz j))" for rv
    using l that h unfolding linked_def reservation_linked_def by blast
  moreover have "answer_linked d ?j x" if x: "x \<in> set (ob_rows (outbox j))" for x
    using l x h unfolding linked_def answer_linked_def res by blast
  moreover have "answer_linked d ?j (e\<lparr>ob_id := ob_next_id (outbox j)\<rparr>)"
    using e o' ho new(2) unfolding answer_linked_def res by blast
  moreover have "refused ?j i" if "refused j i" for i
    using that by (auto simp: refused_def out set_insert_row)
  ultimately show ?thesis
    using l unfolding linked_def by (auto simp: res out set_insert_row)
qed

lemma linked_released:
  assumes ok: "order_side_ok d" and l: "linked d j" and o': "o' \<in> set (orders (biz d))" "o_status o' = StatusCancelled"
    and j1: "released_by ck (o_id o') j j1 \<or> j1 = j"
  shows "linked d (mark_processed i j1)"
proof -
  let ?j = "mark_processed i j1"
  have out: "outbox j1 = outbox j" and p: "processed j1 = processed j"
    using j1 by (auto simp: released_by_def)
  have h: "handled d ?j a" if "handled d j a" for a
    using that by (auto simp: handled_def was_processed_mark) (auto simp: was_processed_def p)
  have res: "\<exists>rv0 \<in> set (reservations (biz j)). rv_order_id rv = rv_order_id rv0 \<and> rv_sku rv = rv_sku rv0 \<and>
      rv_quantity rv = rv_quantity rv0 \<and> (rv_status rv = rv_status rv0 \<or> rv_order_id rv = o_id o')"
    if rv: "rv \<in> set (reservations (biz j1))" for rv
  proof -
    consider "rv \<in> set (reservations (biz j))" |
      x where "x \<in> set (reservations (biz j))" "rv_order_id x = o_id o'" "rv = x\<lparr>rv_status := ReservationStatusReleased\<rparr>"
      using j1 rv by (auto simp: released_by_def split: if_splits)
    then show ?thesis
    proof cases
      case 1
      then show ?thesis by blast
    next
      case 2
      then show ?thesis by (intro bexI [of _ x]) simp_all
    qed
  qed
  have keep: "no_reservation ?j k" if "no_reservation j k" for k
    using that res unfolding no_reservation_def by fastforce
  have "reservation_linked d ?j rv" if rv: "rv \<in> set (reservations (biz j1))" for rv
  proof -
    from res [OF rv] obtain rv0 where rv0: "rv0 \<in> set (reservations (biz j))" "rv_order_id rv = rv_order_id rv0"
      "rv_sku rv = rv_sku rv0" "rv_quantity rv = rv_quantity rv0" "rv_status rv = rv_status rv0 \<or> rv_order_id rv = o_id o'"
      by blast
    with l obtain a where a: "a \<in> set (orders (biz d))" "o_id a = rv_order_id rv0" "o_sku a = rv_sku rv0"
      "o_quantity a = rv_quantity rv0" "rv_status rv0 = ReservationStatusReleased \<longrightarrow> o_status a = StatusCancelled"
      "handled d j a"
      unfolding linked_def reservation_linked_def by blast
    have "rv_status rv = ReservationStatusReleased \<longrightarrow> o_status a = StatusCancelled"
      using rv0 a order_same_id [OF ok a(1) o'(1)] o'(2) by metis
    with a rv0 h show ?thesis unfolding reservation_linked_def by (intro bexI [of _ a]) auto
  qed
  moreover have "answer_linked d ?j x" if "x \<in> set (ob_rows (outbox j))" for x
    using l that h keep unfolding linked_def answer_linked_def by blast
  moreover have "refused ?j k \<longleftrightarrow> refused j k" for k
    by (simp add: refused_def out)
  ultimately show ?thesis
    using l unfolding linked_def by (simp add: out)
qed

text \<open>What the delivery of a published order event can be, in terms of the order it tells of.\<close>

inductive order_event_move :: "inventory_env \<Rightarrow> order_db \<Rightarrow> inventory_db \<Rightarrow> outbox_event \<Rightarrow> inventory_db \<Rightarrow> bool"
  for env d j r where
  Reserves: "o' \<in> set (orders (biz d)) \<Longrightarrow> created_row o' r \<Longrightarrow>
     reserved_by (iv_collation env) (iv_now env) (o_id o') (o_sku o') (o_quantity o') j j2 \<Longrightarrow>
     reserved_row (o_id o') (e\<lparr>ob_id := ob_next_id (outbox j)\<rparr>) \<Longrightarrow> order_event_move env d j r (with_event e j2)"
| Refuses: "o' \<in> set (orders (biz d)) \<Longrightarrow> created_row o' r \<Longrightarrow>
     failed_row (o_id o') (e\<lparr>ob_id := ob_next_id (outbox j)\<rparr>) \<Longrightarrow> order_event_move env d j r (with_event e j)"
| Releases: "o' \<in> set (orders (biz d)) \<Longrightarrow> o_status o' = StatusCancelled \<Longrightarrow> cancelled_row o' r \<Longrightarrow>
     released_by (iv_collation env) (o_id o') j j1 \<Longrightarrow> order_event_move env d j r j1"
| Ignores: "o' \<in> set (orders (biz d)) \<Longrightarrow> cancelled_row o' r \<Longrightarrow> order_event_move env d j r j"

lemma order_event_moves:
  assumes ok: "order_side_ok d" and r: "r \<in> set (ob_rows (outbox d))"
    and envl: "unmarshal_envelope (m_value (row_message fmt r)) = Inr envl" and eff: "order_event_effect env envl j j1"
  shows "order_event_move env d j r j1"
proof -
  from ok r obtain o' where o': "o' \<in> set (orders (biz d))" "row_of_order o' r" unfolding order_side_ok_def by blast
  then have ex: "exact_order o'" using ok unfolding order_side_ok_def order_ok_def by blast
  from o'(2) consider "created_row o' r" | "o_status o' = StatusCancelled" "cancelled_row o' r"
    unfolding row_of_order_def by blast
  then show ?thesis
  proof cases
    case 1
    from created_row_decode(1) [OF 1 ex envl] eff obtain oc where
      oc: "unmarshal_order_created (envelope_data envl) = Inr oc" "created_effect env oc j j1"
      by (auto simp: order_event_effect_def)
    have fields: "oc_order_id oc = o_id o'" "oc_sku oc = o_sku o'" "oc_quantity oc = o_quantity o'"
      using created_row_decode(2) [OF 1 ex envl oc(1)] by blast+
    from oc(2) show ?thesis
      unfolding created_effect_def fields
      using Reserves [OF o'(1) 1 _ reserved_event_row] Refuses [OF o'(1) 1 failed_event_row] by blast
  next
    case 2
    from cancelled_row_decode(1) [OF 2(2) ex envl] eff obtain ox where
      ox: "unmarshal_order_cancelled (envelope_data envl) = Inr ox"
      "released_by (iv_collation env) (ox_order_id ox) j j1 \<or> j1 = j"
      by (auto simp: order_event_effect_def)
    have "ox_order_id ox = o_id o'" by (rule cancelled_row_decode(2) [OF 2(2) ex envl ox(1)])
    with ox(2) Releases [OF o'(1) 2] Ignores [OF o'(1) 2(2)] show ?thesis by metis
  qed
qed

lemma linked_ignored:
  assumes "linked d j"
  shows "linked d (mark_processed i j)"
proof -
  have "handled d (mark_processed i j) a" if "handled d j a" for a
    using that by (auto simp: handled_def was_processed_mark)
  with assms show ?thesis
    unfolding linked_def reservation_linked_def answer_linked_def refused_def no_reservation_def
    by (simp, blast)
qed

lemma order_event_linked:
  assumes ok: "order_side_ok d" and l: "linked d j" and r: "r \<in> set (ob_rows (outbox d))"
    and new: "\<not> was_processed j (ob_event_id r)" and move: "order_event_move env d j r j1"
  shows "linked d (mark_processed (ob_event_id r) j1)"
  using move
proof cases
  case (Reserves o' j2 e)
  show ?thesis
    unfolding Reserves(1) by (rule linked_reserved [OF ok l Reserves(2) r Reserves(3) new Reserves(4,5)])
next
  case (Refuses o' e)
  show ?thesis
    unfolding Refuses(1) by (rule linked_failed [OF ok l Refuses(2) r Refuses(3) new Refuses(4)])
next
  case (Releases o')
  show ?thesis by (rule linked_released [OF ok l Releases(1,2)]) (use Releases(4) in blast)
next
  case Ignores
  with linked_ignored [OF l] show ?thesis by simp
qed

lemma created_quantity:
  assumes ok: "order_side_ok d" and r: "r \<in> set (ob_rows (outbox d))"
  shows "message_quantity_ok (row_message fmt r)"
  unfolding message_quantity_ok_def
proof (intro allI impI)
  fix envl oc
  assume envl: "unmarshal_envelope (m_value (row_message fmt r)) = Inr envl" and ev: "env_event envl = OrderCreated"
    and oc: "unmarshal_order_created (envelope_data envl) = Inr oc"
  from ok r obtain o' where o': "o' \<in> set (orders (biz d))" "row_of_order o' r" unfolding order_side_ok_def by blast
  then have good: "order_ok o'" using ok unfolding order_side_ok_def by blast
  then have ex: "exact_order o'" unfolding order_ok_def by blast
  have "created_row o' r"
    using o'(2) ev cancelled_row_decode(1) [OF _ ex envl] by (auto simp: row_of_order_def)
  from created_row_decode(2) [OF this ex envl oc] good show "0 \<le> oc_quantity oc" by (simp add: order_ok_def)
qed

lemma order_effect_rows:
  assumes "order_message_effect env m j j'" and "r \<in> set (ob_rows (outbox j))"
  shows "r \<in> set (ob_rows (outbox j'))"
  using assms
  by (auto simp: order_message_effect_def order_event_effect_def created_effect_def released_by_def set_insert_row
      dest: reserved_by_outbox split: if_splits)

lemma created_effect_outbox_ok:
  assumes "created_effect env oc j j'" "outbox_ok (outbox j)"
  shows "outbox_ok (outbox j')"
proof -
  from assms(1) obtain j1 e where "outbox j1 = outbox j" "\<not> event_id_used (ob_event_id e) (outbox j)" "j' = with_event e j1"
    unfolding created_effect_def using reserved_by_outbox by metis
  with assms(2) show ?thesis by (simp add: outbox_ok_insert_row)
qed

lemma order_effect_outbox_ok:
  assumes "order_message_effect env m j j'" and "outbox_ok (outbox j)"
  shows "outbox_ok (outbox j')"
  using assms
  by (auto simp: order_message_effect_def order_event_effect_def released_by_def
      intro: created_effect_outbox_ok split: if_splits)

lemma order_delivery_moves:
  assumes inv: "saga_inv ck S" and m: "m \<in> set (order_log S)" and eff: "order_message_effect env m (idb S) j"
  obtains "j = idb S"
  | r j1 where "r \<in> set (ob_rows (outbox (odb S)))" "\<not> was_processed (idb S) (ob_event_id r)"
      "order_event_move env (odb S) (idb S) r j1" "j = mark_processed (ob_event_id r) j1"
proof (cases "j = idb S")
  case True
  then show ?thesis using that(1) by blast
next
  case False
  have ok: "order_side_ok (odb S)" using inv by (simp add: saga_inv_def)
  from inv m obtain fmt r where r: "r \<in> set (ob_rows (outbox (odb S)))" "m = row_message fmt r"
    unfolding saga_inv_def log_ok_def by blast
  from False eff obtain envl j1 where "\<not> was_processed (idb S) (ob_event_id r)"
    "unmarshal_envelope (m_value (row_message fmt r)) = Inr envl" "order_event_effect env envl (idb S) j1"
    "j = mark_processed (ob_event_id r) j1"
    unfolding order_message_effect_def r(2) header_row_message by blast
  with that(2) [OF r(1)] order_event_moves [OF ok r(1)] show ?thesis by blast
qed

lemma saga_inv_order_delivery:
  assumes inv: "saga_inv ck S" and m: "m \<in> set (order_log S)" and ck: "iv_collation env = ck"
    and eff: "order_message_effect env m (idb S) j"
  shows "saga_inv ck (S\<lparr>idb := j\<rparr>)"
proof -
  have ok: "order_side_ok (odb S)" and l: "linked (odb S) (idb S)" and st: "stock_ok ck (idb S)"
    and out: "outbox_ok (outbox (idb S))" and logs: "log_ok (order_log S) (ob_rows (outbox (odb S)))"
      "log_ok (inv_log S) (ob_rows (outbox (idb S)))"
    using inv by (auto simp: saga_inv_def)
  from logs(1) m obtain fmt r where r: "r \<in> set (ob_rows (outbox (odb S)))" "m = row_message fmt r"
    unfolding log_ok_def by blast
  have "linked (odb S) j"
    by (rule order_delivery_moves [OF inv m eff]) (use l order_event_linked [OF ok l] in blast)+
  moreover have "stock_ok ck j"
    using stock_ok_message [OF _ _ eff] st ck created_quantity [OF ok r(1)] r(2) by simp
  moreover have "log_ok (inv_log S) (ob_rows (outbox j))"
    by (rule log_ok_grows [OF logs(2)]) (use order_effect_rows [OF eff] in blast)
  ultimately show ?thesis
    using inv order_effect_outbox_ok [OF eff out] by (simp add: saga_inv_def)
qed

lemma saga_inv_inventory_delivery:
  assumes inv: "saga_inv ck S" and m: "m \<in> set (inv_log S)" and eff: "inventory_message_effect env m (odb S) d"
  shows "saga_inv ck (S\<lparr>odb := d\<rparr>)"
proof -
  have ok: "order_side_ok (odb S)" and l: "linked (odb S) (idb S)"
    and log: "log_ok (inv_log S) (ob_rows (outbox (idb S)))"
    using inv by (auto simp: saga_inv_def)
  from log m obtain fmt r where r: "r \<in> set (ob_rows (outbox (idb S)))" "m = row_message fmt r"
    unfolding log_ok_def by blast
  show ?thesis
  proof (cases "d = odb S")
    case True
    with inv show ?thesis by simp
  next
    case False
    with eff obtain envl d1 where envl: "unmarshal_envelope (m_value (row_message fmt r)) = Inr envl"
      and body: "inventory_event_effect env envl (odb S) d1" and d: "d = mark_processed (header m ''event_id'') d1"
      unfolding inventory_message_effect_def r(2) by blast
    have "saga_inv ck (S\<lparr>odb := d1\<rparr>)"
    proof (cases "d1 = odb S")
      case True
      with inv show ?thesis by simp
    next
      case False
      with body obtain rf o' c e where ev: "env_event envl = ReservationFailed"
        and rf: "unmarshal_reservation_failed (envelope_data envl) = Inr rf"
        and row: "order_row (odb S) (rf_order_id rf) = Some o'"
        and can: "order_cancelled_by env o' ReasonOutOfStock (odb S) c e d1"
        unfolding inventory_event_effect_def by blast
      from l r(1) obtain a where a: "a \<in> set (orders (biz (odb S)))" "reserved_row (o_id a) r \<or> failed_row (o_id a) r"
        unfolding linked_def answer_linked_def by blast
      have fr: "failed_row (o_id a) r"
        using a(2) reserved_row_decode [OF _ envl] ev by auto
      have "float_exact (int (o_id a))"
        using ok a(1) unfolding order_side_ok_def order_ok_def exact_order_def by blast
      from failed_row_decode [OF fr this envl rf] have "rf_order_id rf = o_id a" .
      moreover have "o_id o' = rf_order_id rf"
        using row ok by (auto simp: order_row_Some order_side_ok_def)
      ultimately have "refused (idb S) (o_id o')"
        using fr r(1) by (auto simp: refused_def)
      with saga_inv_cancelled [OF inv can] show ?thesis by blast
    qed
    with d show ?thesis by (simp add: saga_inv_marked)
  qed
qed

subsection \<open>The invariant holds in every reachable state\<close>

lemma saga_inv_step:
  assumes inv: "saga_inv ck S" and "saga_step ck S T"
  shows "saga_inv ck T"
  using assms(2)
proof cases
  case (Create q env uid r d w)
  have "d = odb S \<or> (\<exists>o' e. order_created_by env uid q (odb S) o' e d)"
    using runs_holds [OF Create(4) holds_create_order] by blast
  with saga_inv_created [OF inv Create(2,3)] inv Create(1) show ?thesis by auto
next
  case (Read i uid o' d w)
  with inv show ?thesis by (simp add: saga_inv_def)
next
  case (Update o' st env r d w)
  have "orders_ok (odb S)" using inv by (simp add: saga_inv_def order_side_ok_def)
  from runs_holds [OF Update(4) holds_update_order_from [OF this]]
  consider "d = odb S"
    | u v c where "current (odb S) u (o_id o') StatusPending v c"
        "d = put_order (o_id o') (set_status StatusPaid (en_now env)) (odb S)"
    | c e where "order_cancelled_by env o' ReasonUserCancelled (odb S) c e d" by blast
  then show ?thesis
  proof cases
    case 1
    with inv Update(1) show ?thesis by simp
  next
    case 2
    with saga_inv_paid [OF inv 2(1)] Update(1) show ?thesis by simp
  next
    case 3
    with saga_inv_cancelled [OF inv 3] Update(1) show ?thesis by simp
  qed
next
  case (OrderTick fmt pub now locked n r d w)
  with saga_inv_order_tick [OF inv] show ?thesis by simp
next
  case (InventoryTick fmt pub now locked n r d w)
  with saga_inv_inventory_tick [OF inv] show ?thesis by simp
next
  case (DeliverOrder m ienv r d' w)
  have "stock_ok (iv_collation ienv) (idb S)" using inv DeliverOrder(3) by (simp add: saga_inv_def)
  from runs_holds [OF DeliverOrder(4) holds_handle_order_event [OF this]]
  have "order_message_effect ienv m (idb S) d'" by blast
  with saga_inv_order_delivery [OF inv DeliverOrder(2,3)] DeliverOrder(1) show ?thesis by simp
next
  case (DeliverInventory m env r d w)
  have "orders_ok (odb S)" using inv by (simp add: saga_inv_def order_side_ok_def)
  from runs_holds [OF DeliverInventory(3) holds_handle_inventory_event [OF this]]
  have "inventory_message_effect env m (odb S) d" by blast
  with saga_inv_inventory_delivery [OF inv DeliverInventory(2)] DeliverInventory(1) show ?thesis by simp
qed

lemma saga_inv_reachable: "reachable (saga_init ck) (saga_step ck) S \<Longrightarrow> saga_inv ck S"
  by (erule invariant_reachable) (auto intro: saga_inv_init saga_inv_step)

end
