(* ===== verification/SagaProtocol.thy ===== *)
theory SagaProtocol
  imports Saga
begin

text \<open>
  The saga as a protocol.  The abstract system knows, for each order id, the order's status and
  what the inventory service holds for it; its steps are the moves \<open>docs/saga\<close> describes.  The
  system of services, databases, pollers and messages refines it, so what the protocol rules out
  (a refused order with stock, a release without a cancellation, leaving a final status) cannot
  happen in the code either.
\<close>

subsection \<open>The protocol\<close>

datatype hold = NoHold | Held | Released | Refused

type_synonym protocol = "(nat \<Rightarrow> string option) \<times> (nat \<Rightarrow> hold)"

definition protocol_init :: "protocol \<Rightarrow> bool" where
  "protocol_init s \<longleftrightarrow> s = (\<lambda>_. None, \<lambda>_. NoHold)"

inductive protocol_step :: "protocol \<Rightarrow> protocol \<Rightarrow> bool" where
  Place: "st i = None \<Longrightarrow> h i = NoHold \<Longrightarrow> protocol_step (st, h) (st(i \<mapsto> StatusPending), h)"
| Pay: "st i = Some StatusPending \<Longrightarrow> protocol_step (st, h) (st(i \<mapsto> StatusPaid), h)"
| UserCancel: "st i = Some StatusPending \<Longrightarrow> protocol_step (st, h) (st(i \<mapsto> StatusCancelled), h)"
| StockCancel: "st i = Some StatusPending \<Longrightarrow> h i = Refused \<Longrightarrow> protocol_step (st, h) (st(i \<mapsto> StatusCancelled), h)"
| Hold: "st i \<noteq> None \<Longrightarrow> h i = NoHold \<Longrightarrow> protocol_step (st, h) (st, h(i := Held))"
| Refuse: "st i \<noteq> None \<Longrightarrow> h i = NoHold \<Longrightarrow> protocol_step (st, h) (st, h(i := Refused))"
| Release: "st i = Some StatusCancelled \<Longrightarrow> h i = Held \<Longrightarrow> protocol_step (st, h) (st, h(i := Released))"

inductive_cases protocol_stepE: "protocol_step (st, h) t"

subsection \<open>The abstraction\<close>

definition status_of :: "saga \<Rightarrow> nat \<Rightarrow> string option" where
  "status_of S = (\<lambda>i. map_option o_status (order_row (odb S) i))"

definition hold_in :: "inventory_db \<Rightarrow> nat \<Rightarrow> hold" where
  "hold_in j = (\<lambda>i.
     if refused j i then Refused
     else case find (\<lambda>rv. rv_order_id rv = i) (reservations (biz j)) of
            None \<Rightarrow> NoHold
          | Some rv \<Rightarrow> if rv_status rv = ReservationStatusReserved then Held else Released)"

definition protocol_of :: "saga \<Rightarrow> protocol" where
  "protocol_of S = (status_of S, hold_in (idb S))"

lemma refused_linked:
  assumes ok: "order_side_ok d" and l: "linked d j" and i: "refused j i"
  shows "\<exists>o' \<in> set (orders (biz d)). o_id o' = i \<and> handled d j o'" "no_reservation j i"
proof -
  from i obtain r where r: "r \<in> set (ob_rows (outbox j))" "failed_row i r" by (auto simp: refused_def)
  with l obtain a where a: "a \<in> set (orders (biz d))"
    "reserved_row (o_id a) r \<or> failed_row (o_id a) r \<and> handled d j a \<and> no_reservation j (o_id a)"
    unfolding linked_def answer_linked_def by blast
  with r row_kind_distinct(2) failed_row_id have "o_id a = i" "handled d j a" "no_reservation j (o_id a)" by metis+
  with a(1) show "\<exists>o' \<in> set (orders (biz d)). o_id o' = i \<and> handled d j o'" "no_reservation j i" by blast+
qed

lemma no_reservation_find:
  "no_reservation j i \<longleftrightarrow> find (\<lambda>rv. rv_order_id rv = i) (reservations (biz j)) = None"
  by (auto simp: no_reservation_def find_None_iff)

lemma hold_unhandled:
  assumes ok: "order_side_ok d" and l: "linked d j" and o': "o' \<in> set (orders (biz d))"
    and r: "r \<in> set (ob_rows (outbox d))" "created_row o' r" "\<not> was_processed j (ob_event_id r)"
  shows "hold_in j (o_id o') = NoHold"
proof -
  note new = unhandled_order [OF ok l o' r]
  have "\<not> refused j (o_id o')"
    using refused_linked(1) [OF ok l, of "o_id o'"] order_same_id [OF ok _ o'] new(1) by metis
  with new(2) show ?thesis by (simp add: hold_in_def no_reservation_find)
qed

lemma hold_unknown:
  assumes ok: "order_side_ok d" and l: "linked d j" and i: "\<forall>o' \<in> set (orders (biz d)). o_id o' \<noteq> i"
  shows "hold_in j i = NoHold"
proof -
  have "\<not> refused j i" using refused_linked(1) [OF ok l] i by blast
  moreover have "no_reservation j i"
    using l i unfolding no_reservation_def linked_def reservation_linked_def by metis
  ultimately show ?thesis by (simp add: hold_in_def no_reservation_find)
qed

lemma refused_with_event:
  "refused (mark_processed k (with_event e j)) i \<longleftrightarrow>
     refused j i \<or> failed_row i (e\<lparr>ob_id := ob_next_id (outbox j)\<rparr>)"
  by (auto simp: refused_def set_insert_row)

lemma refused_cong: "outbox j' = outbox j \<Longrightarrow> refused j' i = refused j i"
  by (simp add: refused_def)

lemma status_cong: "biz (odb T) = biz (odb S) \<Longrightarrow> status_of T = status_of S"
  by (simp add: status_of_def order_row_def)

subsection \<open>Moves of the inventory service\<close>

lemma hold_reserves:
  assumes j2: "reserved_by ck now i sku qty j j2" and e: "reserved_row i (e\<lparr>ob_id := ob_next_id (outbox j)\<rparr>)"
    and nh: "hold_in j i = NoHold"
  shows "hold_in (mark_processed k (with_event e j2)) = (hold_in j)(i := Held)"
proof
  fix x
  have out: "outbox j2 = outbox j"
    and res: "reservations (biz j2) = reservations (biz j) @ [\<lparr>rv_id = next_reservation_id (biz j), rv_order_id = i,
      rv_sku = sku, rv_quantity = qty, rv_status = ReservationStatusReserved, rv_created_at = now\<rparr>]"
    using j2 by (auto simp: reserved_by_def add_reservation_def add_available_def)
  have ref: "refused (mark_processed k (with_event e j2)) y = refused j y" for y
    using e row_kind_distinct(2) refused_cong [OF out] unfolding refused_with_event out by metis
  have none: "\<not> refused j i" "find (\<lambda>rv. rv_order_id rv = i) (reservations (biz j)) = None"
    using nh by (auto simp: hold_in_def split: if_splits option.splits)
  show "hold_in (mark_processed k (with_event e j2)) x = ((hold_in j)(i := Held)) x"
    using none by (auto simp: hold_in_def ref res find_append split: option.splits)
qed

lemma hold_refuses:
  assumes e: "failed_row i (e\<lparr>ob_id := ob_next_id (outbox j)\<rparr>)"
  shows "hold_in (mark_processed k (with_event e j)) = (hold_in j)(i := Refused)"
proof
  fix x
  have "refused (mark_processed k (with_event e j)) x \<longleftrightarrow> refused j x \<or> x = i"
    using e failed_row_id unfolding refused_with_event by metis
  then show "hold_in (mark_processed k (with_event e j)) x = ((hold_in j)(i := Refused)) x"
    by (auto simp: hold_in_def)
qed

lemma hold_releases:
  assumes ok: "order_side_ok d" and l: "linked d j" and st: "stock_ok ck j" and j1: "released_by ck i j j1"
  shows "hold_in j i = Held" "hold_in (mark_processed k j1) = (hold_in j)(i := Released)"
proof -
  from j1 obtain rv where rv: "rv \<in> set (reservations (biz j))" "rv_order_id rv = i"
      "rv_status rv = ReservationStatusReserved"
    and res: "reservations (biz j1) =
      map (\<lambda>r. if rv_order_id r = i then r\<lparr>rv_status := ReservationStatusReleased\<rparr> else r) (reservations (biz j))"
    and out: "outbox j1 = outbox j"
    by (auto simp: released_by_def)
  have uniq: "distinct (map rv_order_id (reservations (biz j)))" using st by (simp add: stock_ok_def)
  have f: "find (\<lambda>rv. rv_order_id rv = i) (reservations (biz j)) = Some rv"
    by (rule find_unique) (use rv uniq in \<open>auto dest: distinct_key_eq\<close>)
  have nr: "\<not> refused j i"
    using refused_linked(2) [OF ok l] rv by (auto simp: no_reservation_def)
  with f rv(3) show "hold_in j i = Held" by (simp add: hold_in_def)
  have find: "find (\<lambda>rv. rv_order_id rv = x) (reservations (biz j1)) =
      map_option (\<lambda>r. if rv_order_id r = i then r\<lparr>rv_status := ReservationStatusReleased\<rparr> else r)
        (find (\<lambda>rv. rv_order_id rv = x) (reservations (biz j)))" for x
    unfolding res by (rule find_map_same) simp
  have ref: "refused (mark_processed k j1) x = refused j x" for x
    by (simp add: refused_def out)
  show "hold_in (mark_processed k j1) = (hold_in j)(i := Released)"
  proof
    fix x
    show "hold_in (mark_processed k j1) x = ((hold_in j)(i := Released)) x"
    proof (cases "x = i")
      case True
      then show ?thesis using nr rv f by (simp add: hold_in_def ref find)
    next
      case False
      then show ?thesis
        by (auto simp: hold_in_def ref find split: option.splits dest!: find_SomeD)
    qed
  qed
qed

lemma hold_mark [simp]: "hold_in (mark_processed k j) = hold_in j"
  by (simp add: hold_in_def refused_def fun_eq_iff)

lemma tick_hold:
  assumes b: "batch_effect fmt rows j w j' w'"
  shows "hold_in j' = hold_in j"
proof -
  have core: "map core (ob_rows (outbox j')) = map core (ob_rows (outbox j))"
    by (rule batch_effect_core [OF b])
  have "refused j' i = refused j i" for i
    unfolding refused_def using core_member [OF core] core_member [OF core [symmetric]] row_kind_core(4) by metis
  moreover have "biz j' = biz j" using b by (auto simp: batch_effect_def)
  ultimately show ?thesis by (simp add: hold_in_def fun_eq_iff)
qed

text \<open>The delivery of an order event is one move of the protocol, or none.\<close>

lemma delivery_simulated:
  assumes inv: "saga_inv ck S" and ck: "iv_collation env = ck"
    and r: "r \<in> set (ob_rows (outbox (odb S)))" "\<not> was_processed (idb S) (ob_event_id r)"
    and move: "order_event_move env (odb S) (idb S) r j1"
  shows "protocol_step\<^sup>*\<^sup>* (status_of S, hold_in (idb S)) (status_of S, hold_in (mark_processed (ob_event_id r) j1))"
proof -
  have ok: "order_side_ok (odb S)" and l: "linked (odb S) (idb S)" and st: "stock_ok ck (idb S)"
    using inv by (auto simp: saga_inv_def)
  have row: "order_row (odb S) (o_id o') = Some o'" if "o' \<in> set (orders (biz (odb S)))" for o'
    using that ok by (auto simp: order_row_Some order_side_ok_def order_ok_def)
  from move show ?thesis
  proof cases
    case (Reserves o' j2 e)
    have "hold_in (idb S) (o_id o') = NoHold"
      by (rule hold_unhandled [OF ok l Reserves(2) r(1) Reserves(3) r(2)])
    from hold_reserves [OF Reserves(4,5) this] Hold [where i = "o_id o'" and st = "status_of S" and h = "hold_in (idb S)"] this row [OF Reserves(2)]
    show ?thesis by (simp add: Reserves(1) status_of_def)
  next
    case (Refuses o' e)
    have "hold_in (idb S) (o_id o') = NoHold"
      by (rule hold_unhandled [OF ok l Refuses(2) r(1) Refuses(3) r(2)])
    from hold_refuses [OF Refuses(4)] Refuse [where i = "o_id o'" and st = "status_of S" and h = "hold_in (idb S)"] this row [OF Refuses(2)]
    show ?thesis by (simp add: Refuses(1) status_of_def)
  next
    case (Releases o')
    from Releases(4) ck have "released_by ck (o_id o') (idb S) j1" by simp
    note h = hold_releases [OF ok l st this]
    from h Release [where i = "o_id o'" and st = "status_of S" and h = "hold_in (idb S)"] row [OF Releases(1)] Releases(2)
    show ?thesis by (simp add: status_of_def)
  next
    case Ignores
    then show ?thesis by simp
  qed
qed

subsection \<open>Moves of the order service\<close>

lemma status_created:
  assumes ok: "order_side_ok (odb S)" and c: "order_created_by env u q (odb S) o' e d"
  shows "status_of (S\<lparr>odb := d\<rparr>) = (status_of S)(o_id o' \<mapsto> StatusPending)"
    and "\<forall>a \<in> set (orders (biz (odb S))). o_id a \<noteq> o_id o'"
proof -
  from c have o': "o' = new_order (en_now env) (order_of_request u q) (odb S)"
    and d: "d = (insert_order o' (odb S))\<lparr>outbox := insert_row e (outbox (odb S))\<rparr>"
    by (auto simp: order_created_by_def)
  have i: "o_id o' = next_order_id (biz (odb S))" "o_status o' = StatusPending" "live o'"
    by (simp_all add: o' new_order_def create_defaults_def order_of_request_def live_def)
  show new: "\<forall>a \<in> set (orders (biz (odb S))). o_id a \<noteq> o_id o'"
    using ok i(1) unfolding order_side_ok_def orders_ok_def by auto
  then have none: "find (\<lambda>a. live a \<and> o_id a = o_id o') (orders (biz (odb S))) = None"
    by (auto simp: find_None_iff)
  show "status_of (S\<lparr>odb := d\<rparr>) = (status_of S)(o_id o' \<mapsto> StatusPending)"
  proof
    fix x
    show "status_of (S\<lparr>odb := d\<rparr>) x = ((status_of S)(o_id o' \<mapsto> StatusPending)) x"
    proof (cases "x = o_id o'")
      case True
      with none i show ?thesis by (simp add: status_of_def order_row_def d find_append)
    next
      case False
      then show ?thesis by (auto simp: status_of_def order_row_def d find_append split: option.splits)
    qed
  qed
qed

lemma status_put:
  assumes ok: "orders_ok (odb S)" and c: "current (odb S) u i StatusPending v c"
    and f: "\<And>a. o_id (f a) = o_id a" "\<And>a. live (f a) = live a" "\<And>a. o_status (f a) = st"
    and d: "biz d = biz (put_order i f (odb S))"
  shows "status_of S i = Some StatusPending" "status_of (S\<lparr>odb := d\<rparr>) = (status_of S)(i \<mapsto> st)"
proof -
  from c have row: "order_row (odb S) i = Some c" "o_status c = StatusPending" by (auto simp: current_def)
  then show "status_of S i = Some StatusPending" by (simp add: status_of_def)
  have r: "order_row d x = order_row (put_order i f (odb S)) x" for x
    using d by (simp add: order_row_def)
  show "status_of (S\<lparr>odb := d\<rparr>) = (status_of S)(i \<mapsto> st)"
    using row f by (auto simp: status_of_def fun_eq_iff r order_row_put_order [OF ok f(1,2)])
qed

lemma cancel_simulated:
  assumes inv: "saga_inv ck S" and c: "order_cancelled_by env s reason (odb S) c e d"
    and re: "reason = ReasonUserCancelled \<or> refused (idb S) (o_id s)"
  shows "protocol_step (protocol_of S) (status_of (S\<lparr>odb := d\<rparr>), hold_in (idb S))"
proof -
  have ok: "orders_ok (odb S)" using inv by (simp add: saga_inv_def order_side_ok_def)
  from c have cur: "current (odb S) (o_user_id s) (o_id s) StatusPending (o_version s) c"
    and d: "biz d = biz (put_order (o_id s) (set_cancelled reason (en_now env)) (odb S))"
    by (auto simp: order_cancelled_by_def)
  note st = status_put [OF ok cur _ _ _ d, where st = StatusCancelled]
  show ?thesis
  proof (cases "refused (idb S) (o_id s)")
    case True
    then have "hold_in (idb S) (o_id s) = Refused" by (simp add: hold_in_def)
    with StockCancel [where st = "status_of S" and h = "hold_in (idb S)" and i = "o_id s"] st
    show ?thesis by (simp add: protocol_of_def)
  next
    case False
    with UserCancel [where st = "status_of S" and h = "hold_in (idb S)" and i = "o_id s"] st
    show ?thesis by (simp add: protocol_of_def)
  qed
qed

text \<open>What the delivery of an inventory event can be.\<close>

lemma inventory_delivery_moves:
  assumes inv: "saga_inv ck S" and m: "m \<in> set (inv_log S)" and eff: "inventory_message_effect env m (odb S) d"
  obtains i where "d = odb S \<or> d = mark_processed i (odb S)"
  | i o' c e d1 where "d = mark_processed i d1" "order_cancelled_by env o' ReasonOutOfStock (odb S) c e d1"
      "refused (idb S) (o_id o')"
proof -
  have ok: "order_side_ok (odb S)" and l: "linked (odb S) (idb S)"
    using inv by (auto simp: saga_inv_def)
  from inv m obtain fmt r where r: "r \<in> set (ob_rows (outbox (idb S)))" "m = row_message fmt r"
    unfolding saga_inv_def log_ok_def by blast
  consider "d = odb S"
    | envl d1 where "unmarshal_envelope (m_value (row_message fmt r)) = Inr envl"
        "inventory_event_effect env envl (odb S) d1" "d = mark_processed (header m ''event_id'') d1"
    using eff unfolding inventory_message_effect_def r(2) by blast
  then show ?thesis
  proof cases
    case 1
    then show ?thesis using that(1) by blast
  next
    case (2 envl d1)
    then consider "d1 = odb S"
      | rf o' c e where "env_event envl = ReservationFailed"
        "unmarshal_reservation_failed (envelope_data envl) = Inr rf" "order_row (odb S) (rf_order_id rf) = Some o'"
        "order_cancelled_by env o' ReasonOutOfStock (odb S) c e d1"
      unfolding inventory_event_effect_def by blast
    then show ?thesis
    proof cases
      case 1
      with 2(3) that(1) show ?thesis by blast
    next
      case (2 rf o' c e)
      from l r(1) obtain a where a: "a \<in> set (orders (biz (odb S)))" "reserved_row (o_id a) r \<or> failed_row (o_id a) r"
        unfolding linked_def answer_linked_def by blast
      have fr: "failed_row (o_id a) r"
        using a(2) reserved_row_decode [OF _ \<open>unmarshal_envelope (m_value (row_message fmt r)) = Inr envl\<close>] 2(1) by auto
      have "float_exact (int (o_id a))"
        using ok a(1) unfolding order_side_ok_def order_ok_def exact_order_def by blast
      from failed_row_decode [OF fr this \<open>unmarshal_envelope (m_value (row_message fmt r)) = Inr envl\<close> 2(2)]
      have "rf_order_id rf = o_id a" .
      moreover have "o_id o' = rf_order_id rf"
        using 2(3) ok by (auto simp: order_row_Some order_side_ok_def)
      ultimately have "refused (idb S) (o_id o')"
        using fr r(1) by (auto simp: refused_def)
      with that(2) [OF \<open>d = mark_processed (header m ''event_id'') d1\<close> 2(4)] show ?thesis by blast
    qed
  qed
qed

lemma status_mark [simp]: "status_of (S\<lparr>odb := mark_processed i d\<rparr>) = status_of (S\<lparr>odb := d\<rparr>)"
  by (simp add: status_of_def order_row_def)

lemma status_upd [simp]:
  "status_of (S\<lparr>idb := j\<rparr>) = status_of S" "status_of (S\<lparr>snaps := x\<rparr>) = status_of S"
  "status_of (S\<lparr>order_log := y\<rparr>) = status_of S" "status_of (S\<lparr>inv_log := y\<rparr>) = status_of S"
  by (simp_all add: status_of_def)

subsection \<open>The saga refines the protocol\<close>

lemma saga_step_simulated:
  assumes inv: "saga_inv ck S" and "saga_step ck S T"
  shows "protocol_step\<^sup>*\<^sup>* (protocol_of S) (protocol_of T)"
  using assms(2)
proof cases
  case (Create q env uid r d w)
  have "d = odb S \<or> (\<exists>o' e. order_created_by env uid q (odb S) o' e d)"
    using runs_holds [OF Create(4) holds_create_order] by blast
  then show ?thesis
  proof
    assume "d = odb S"
    with Create(1) show ?thesis by simp
  next
    assume "\<exists>o' e. order_created_by env uid q (odb S) o' e d"
    then obtain o' e where c: "order_created_by env uid q (odb S) o' e d" by blast
    have ok: "order_side_ok (odb S)" and l: "linked (odb S) (idb S)" using inv by (auto simp: saga_inv_def)
    note s = status_created [OF ok c]
    have "hold_in (idb S) (o_id o') = NoHold" by (rule hold_unknown [OF ok l s(2)])
    moreover have "status_of S (o_id o') = None"
      using s(2) by (auto simp: status_of_def order_row_def find_None_iff)
    ultimately have "protocol_step (protocol_of S) (protocol_of T)"
      using Place [where st = "status_of S" and h = "hold_in (idb S)" and i = "o_id o'"] s(1) Create(1)
      by (simp add: protocol_of_def)
    then show ?thesis by blast
  qed
next
  case (Read i uid o' d w)
  then show ?thesis by (simp add: protocol_of_def)
next
  case (Update o' st env r d w)
  have ok: "orders_ok (odb S)" using inv by (simp add: saga_inv_def order_side_ok_def)
  from runs_holds [OF Update(4) holds_update_order_from [OF this]]
  consider "d = odb S"
    | u v c where "current (odb S) u (o_id o') StatusPending v c"
        "d = put_order (o_id o') (set_status StatusPaid (en_now env)) (odb S)"
    | c e where "order_cancelled_by env o' ReasonUserCancelled (odb S) c e d" by blast
  then show ?thesis
  proof cases
    case 1
    with Update(1) show ?thesis by simp
  next
    case 2
    note st = status_put [OF ok 2(1) _ _ _ arg_cong [where f = biz, OF 2(2)], where st = StatusPaid]
    have "protocol_step (protocol_of S) (protocol_of T)"
      using Pay [where st = "status_of S" and h = "hold_in (idb S)" and i = "o_id o'"] st Update(1)
      by (simp add: protocol_of_def)
    then show ?thesis by blast
  next
    case 3
    from cancel_simulated [OF inv 3] Update(1) show ?thesis by (simp add: protocol_of_def r_into_rtranclp)
  qed
next
  case (OrderTick fmt pub now locked n r d w)
  have "outbox_ok (outbox (odb S))" using inv by (simp add: saga_inv_def order_side_ok_def)
  from runs_holds [OF OrderTick(2) holds_tick [OF this]] have "biz d = biz (odb S)" by (auto simp: batch_effect_def)
  with OrderTick(1) show ?thesis by (simp add: protocol_of_def status_of_def order_row_def)
next
  case (InventoryTick fmt pub now locked n r j w)
  have out: "outbox_ok (outbox (idb S))" using inv by (simp add: saga_inv_def)
  have b: "batch_effect fmt (pending_rows locked n (ob_rows (outbox (idb S)))) (idb S) (inv_log S) j w"
    using runs_holds [OF InventoryTick(2) holds_tick [OF out]] .
  from tick_hold [OF b] have "hold_in j = hold_in (idb S)" .
  with InventoryTick(1) show ?thesis by (simp add: protocol_of_def)
next
  case (DeliverOrder m ienv r d' w)
  have "stock_ok (iv_collation ienv) (idb S)" using inv DeliverOrder(3) by (simp add: saga_inv_def)
  from runs_holds [OF DeliverOrder(4) holds_handle_order_event [OF this]]
  have eff: "order_message_effect ienv m (idb S) d'" by blast
  show ?thesis
  proof (rule order_delivery_moves [OF inv DeliverOrder(2) eff])
    assume "d' = idb S"
    with DeliverOrder(1) show ?thesis by simp
  next
    fix r j1
    assume "r \<in> set (ob_rows (outbox (odb S)))" "\<not> was_processed (idb S) (ob_event_id r)"
      "order_event_move ienv (odb S) (idb S) r j1" "d' = mark_processed (ob_event_id r) j1"
    with delivery_simulated [OF inv DeliverOrder(3)] DeliverOrder(1) show ?thesis
      by (simp add: protocol_of_def)
  qed
next
  case (DeliverInventory m env r d w)
  have "orders_ok (odb S)" using inv by (simp add: saga_inv_def order_side_ok_def)
  from runs_holds [OF DeliverInventory(3) holds_handle_inventory_event [OF this]]
  have eff: "inventory_message_effect env m (odb S) d" by blast
  show ?thesis
  proof (rule inventory_delivery_moves [OF inv DeliverInventory(2) eff])
    fix i assume "d = odb S \<or> d = mark_processed i (odb S)"
    then have "biz d = biz (odb S)" by auto
    with DeliverInventory(1) show ?thesis by (simp add: protocol_of_def status_of_def order_row_def)
  next
    fix i o' c e d1
    assume "d = mark_processed i d1" "order_cancelled_by env o' ReasonOutOfStock (odb S) c e d1"
      "refused (idb S) (o_id o')"
    with cancel_simulated [OF inv] DeliverInventory(1) show ?thesis
      by (auto simp: protocol_of_def)
  qed
qed

lemma saga_init_simulated: "saga_init ck S \<Longrightarrow> protocol_init (protocol_of S)"
  by (auto simp: saga_init_def protocol_init_def protocol_of_def status_of_def order_row_def hold_in_def
      refused_def fun_eq_iff)

interpretation saga_protocol: simulation protocol_init protocol_step "saga_init ck" "saga_step ck"
    protocol_of "saga_inv ck" for ck
  by unfold_locales (auto intro: saga_init_simulated saga_inv_init saga_inv_step saga_step_simulated)

subsection \<open>What a step keeps\<close>

text \<open>Orders only move on, from a pending status to a final one, and their events stay.\<close>

lemma order_side_step:
  assumes inv: "saga_inv ck S" and "saga_step ck S T"
  shows "order_side_grows (odb S) (odb T)"
  using assms(2)
proof cases
  case (Create q env uid r d w)
  have ok: "order_side_ok (odb S)" using inv by (simp add: saga_inv_def)
  have "d = odb S \<or> (\<exists>o' e. order_created_by env uid q (odb S) o' e d)"
    using runs_holds [OF Create(4) holds_create_order] by blast
  with order_side_ok_created [OF ok Create(2,3)] order_side_grows_refl Create(1) show ?thesis by fastforce
next
  case (Read i uid o' d w)
  then show ?thesis by (simp add: order_side_grows_refl)
next
  case (Update o' st env r d w)
  have ok: "order_side_ok (odb S)" and oks: "orders_ok (odb S)" using inv by (auto simp: saga_inv_def order_side_ok_def)
  from runs_holds [OF Update(4) holds_update_order_from [OF oks]]
  consider "d = odb S"
    | u v c where "current (odb S) u (o_id o') StatusPending v c"
        "d = put_order (o_id o') (set_status StatusPaid (en_now env)) (odb S)"
    | c e where "order_cancelled_by env o' ReasonUserCancelled (odb S) c e d" by blast
  then show ?thesis
  proof cases
    case 1
    with Update(1) show ?thesis by (simp add: order_side_grows_refl)
  next
    case 2
    with order_side_ok_paid [OF ok 2(1)] Update(1) show ?thesis by simp
  next
    case 3
    with order_side_ok_cancelled [OF ok 3] Update(1) show ?thesis by simp
  qed
next
  case (OrderTick fmt pub now locked n r d w)
  have ok: "order_side_ok (odb S)" and out: "outbox_ok (outbox (odb S))"
    using inv by (auto simp: saga_inv_def order_side_ok_def)
  have b: "batch_effect fmt (pending_rows locked n (ob_rows (outbox (odb S)))) (odb S) (order_log S) d w"
    using runs_holds [OF OrderTick(2) holds_tick [OF out]] .
  have "biz d = biz (odb S)" using b by (auto simp: batch_effect_def)
  from order_side_ok_core [OF ok this batch_effect_core [OF b]] batch_effect_outbox_ok [OF b] out OrderTick(1)
  show ?thesis by simp
next
  case (DeliverInventory m env r d w)
  have ok: "order_side_ok (odb S)" and oks: "orders_ok (odb S)" using inv by (auto simp: saga_inv_def order_side_ok_def)
  from runs_holds [OF DeliverInventory(3) holds_handle_inventory_event [OF oks]]
  have eff: "inventory_message_effect env m (odb S) d" by blast
  show ?thesis
    by (rule inventory_delivery_moves [OF inv DeliverInventory(2) eff])
      (use order_side_ok_cancelled [OF ok] DeliverInventory(1) order_side_grows_refl in
        \<open>auto simp: order_side_grows_marked\<close>)
qed (simp_all add: order_side_grows_refl)

lemma order_moves_on:
  assumes "(saga_step ck)\<^sup>*\<^sup>* S T" "saga_inv ck S" "a \<in> set (orders (biz (odb S)))"
  shows "\<exists>b \<in> set (orders (biz (odb T))). same_order a b"
proof (rule stable_run [where I = "saga_inv ck" and P = "\<lambda>T. \<exists>b \<in> set (orders (biz (odb T))). same_order a b", OF assms(1,2)])
  show "\<exists>b \<in> set (orders (biz (odb S))). same_order a b" using assms(3) same_order_refl by blast
next
  fix U V assume inv: "saga_inv ck U" and step: "saga_step ck U V"
    and "\<exists>b \<in> set (orders (biz (odb U))). same_order a b"
  then obtain b where b: "b \<in> set (orders (biz (odb U)))" "same_order a b" by blast
  with order_side_step [OF inv step] obtain c where "c \<in> set (orders (biz (odb V)))" "same_order b c"
    unfolding order_side_grows_def by blast
  with b(2) show "\<exists>b \<in> set (orders (biz (odb V))). same_order a b"
    by (intro bexI [of _ c]) (auto simp: same_order_def)
next
  show "\<And>U V. saga_inv ck U \<Longrightarrow> saga_step ck U V \<Longrightarrow> saga_inv ck V" by (rule saga_inv_step)
qed

text \<open>
  Once the inventory service has handled the cancellation of an order, stock it holds for the
  order is never released.
\<close>

definition cancellation_handled :: "saga \<Rightarrow> nat \<Rightarrow> bool" where
  "cancellation_handled S i \<longleftrightarrow> (\<exists>o' \<in> set (orders (biz (odb S))). \<exists>r \<in> set (ob_rows (outbox (odb S))).
     o_id o' = i \<and> o_status o' = StatusCancelled \<and> cancelled_row o' r \<and> ob_event_id r \<in> set (processed (idb S)))"

lemma cancelled_row_same:
  "same_order a b \<Longrightarrow> o_status a = StatusCancelled \<Longrightarrow> cancelled_row b r = cancelled_row a r"
  by (simp add: cancelled_row_def order_cancelled_data_of_def same_order_def)

lemma cancellation_handled_order_step:
  assumes "cancellation_handled S i" "order_side_grows (odb S) (odb T)" "set (processed (idb S)) \<subseteq> set (processed (idb T))"
  shows "cancellation_handled T i"
proof -
  from assms(1) obtain a r where a: "a \<in> set (orders (biz (odb S)))" "o_id a = i" "o_status a = StatusCancelled"
    and r: "r \<in> set (ob_rows (outbox (odb S)))" "cancelled_row a r" "ob_event_id r \<in> set (processed (idb S))"
    unfolding cancellation_handled_def by blast
  from assms(2) a(1) r(1) obtain b r' where b: "b \<in> set (orders (biz (odb T)))" "same_order a b"
    and r': "r' \<in> set (ob_rows (outbox (odb T)))" "core r' = core r"
    unfolding order_side_grows_def by metis
  have "o_id b = i" "o_status b = StatusCancelled" using a b(2) by (auto simp: same_order_def)
  moreover have "cancelled_row b r'"
    using cancelled_row_same [OF b(2) a(3)] row_kind_core(2) [OF r'(2)] r(2) by simp
  moreover have "ob_event_id r' \<in> set (processed (idb T))"
    using core_eqD(2) [OF r'(2)] r(3) assms(3) by auto
  ultimately show ?thesis using b(1) r'(1) unfolding cancellation_handled_def by blast
qed

text \<open>An order has one \<open>order.cancelled\<close> row, so an event not yet handled is another order's.\<close>

lemma single_cancelled_row:
  assumes "order_side_ok d" "o' \<in> set (orders (biz d))"
    and "r1 \<in> set (ob_rows (outbox d))" "cancelled_row o' r1" "r2 \<in> set (ob_rows (outbox d))" "cancelled_row o' r2"
  shows "r1 = r2"
proof -
  have "length (filter (cancelled_row o') (ob_rows (outbox d))) \<le> 1"
    using assms(1,2) unfolding order_side_ok_def by auto
  moreover have "r1 \<in> set (filter (cancelled_row o') (ob_rows (outbox d)))"
    "r2 \<in> set (filter (cancelled_row o') (ob_rows (outbox d)))"
    using assms by simp_all
  ultimately show ?thesis
    by (cases "filter (cancelled_row o') (ob_rows (outbox d))") auto
qed

lemma handled_cancellation_keeps:
  assumes inv: "saga_inv ck S" and can: "cancellation_handled S i" and held: "hold_in (idb S) i = Held"
    and r: "r \<in> set (ob_rows (outbox (odb S)))" "\<not> was_processed (idb S) (ob_event_id r)"
    and move: "order_event_move env (odb S) (idb S) r j1" and ck: "iv_collation env = ck"
  shows "hold_in (mark_processed (ob_event_id r) j1) i = Held"
proof -
  have ok: "order_side_ok (odb S)" and l: "linked (odb S) (idb S)" and st: "stock_ok ck (idb S)"
    using inv by (auto simp: saga_inv_def)
  from move show ?thesis
  proof cases
    case (Reserves o' j2 e)
    note none = hold_unhandled [OF ok l Reserves(2) r(1) Reserves(3) r(2)]
    with held have "o_id o' \<noteq> i" by auto
    with hold_reserves [OF Reserves(4,5) none] held show ?thesis by (simp add: Reserves(1))
  next
    case (Refuses o' e)
    note none = hold_unhandled [OF ok l Refuses(2) r(1) Refuses(3) r(2)]
    with held have "o_id o' \<noteq> i" by auto
    with hold_refuses [OF Refuses(4)] held show ?thesis by (simp add: Refuses(1))
  next
    case (Releases o')
    have "o_id o' \<noteq> i"
    proof
      assume "o_id o' = i"
      with can obtain a r' where "a \<in> set (orders (biz (odb S)))" "r' \<in> set (ob_rows (outbox (odb S)))"
        "o_id a = o_id o'" "cancelled_row a r'" "was_processed (idb S) (ob_event_id r')"
        unfolding cancellation_handled_def was_processed_def by auto
      with order_same_id [OF ok _ Releases(1)] single_cancelled_row [OF ok Releases(1) _ _ r(1) Releases(3)] r(2)
      show False by metis
    qed
    moreover from Releases(4) ck have "released_by ck (o_id o') (idb S) j1" by simp
    ultimately show ?thesis using hold_releases [OF ok l st] held by simp
  next
    case Ignores
    with held show ?thesis by simp
  qed
qed

lemma leak_step:
  assumes inv: "saga_inv ck S" and can: "cancellation_handled S i" and held: "hold_in (idb S) i = Held"
    and step: "saga_step ck S T"
  shows "cancellation_handled T i \<and> hold_in (idb T) i = Held"
proof -
  have c: "cancellation_handled T i" if "set (processed (idb S)) \<subseteq> set (processed (idb T))"
    by (rule cancellation_handled_order_step [OF can order_side_step [OF inv step] that])
  have same: "cancellation_handled T i \<and> hold_in (idb T) i = Held" if "idb T = idb S"
    using c held that by simp
  from step show ?thesis
  proof cases
    case (InventoryTick fmt pub now locked n r j w)
    have out: "outbox_ok (outbox (idb S))" using inv by (simp add: saga_inv_def)
    have b: "batch_effect fmt (pending_rows locked n (ob_rows (outbox (idb S)))) (idb S) (inv_log S) j w"
      using runs_holds [OF InventoryTick(2) holds_tick [OF out]] .
    have "processed j = processed (idb S)" using b by (auto simp: batch_effect_def)
    with tick_hold [OF b] c held InventoryTick(1) show ?thesis by simp
  next
    case (DeliverOrder m ienv r d' w)
    have "stock_ok (iv_collation ienv) (idb S)" using inv DeliverOrder(3) by (simp add: saga_inv_def)
    from runs_holds [OF DeliverOrder(4) holds_handle_order_event [OF this]]
    have eff: "order_message_effect ienv m (idb S) d'" by blast
    show ?thesis
    proof (rule order_delivery_moves [OF inv DeliverOrder(2) eff])
      assume "d' = idb S"
      with same DeliverOrder(1) show ?thesis by simp
    next
      fix r j1
      assume r: "r \<in> set (ob_rows (outbox (odb S)))" "\<not> was_processed (idb S) (ob_event_id r)"
        and move: "order_event_move ienv (odb S) (idb S) r j1" and d': "d' = mark_processed (ob_event_id r) j1"
      have "hold_in d' i = Held"
        unfolding d' by (rule handled_cancellation_keeps [OF inv can held r move DeliverOrder(3)])
      moreover have "set (processed (idb S)) \<subseteq> set (processed d')"
        using move unfolding d' by cases (auto simp: reserved_by_def released_by_def add_reservation_def add_available_def)
      ultimately show ?thesis using c DeliverOrder(1) by simp
    qed
  qed (use same in simp_all)
qed

end
