(* ===== verification/SagaProps.thy ===== *)
theory SagaProps
  imports SagaProtocol
begin

text \<open>
  The properties of the saga, with two runs of the code, step by step, that end in states the
  saga is meant to exclude: stock held for a cancelled order, and a paid order without stock.
\<close>

subsection \<open>Concrete runs\<close>

text \<open>The run of an operation when the database replies to everything.\<close>

definition after :: "('db, 'm, 'a) tx \<Rightarrow> 'db \<Rightarrow> 'm list \<Rightarrow> (go_error + 'a) \<times> 'db \<times> 'm list" where
  "after t d w = (case t \<lparr>db = d, sched = [], wire = w\<rparr> of (r, s) \<Rightarrow> (r, db s, wire s))"

lemma runs_after: "runs t d w (fst (after t d w)) (fst (snd (after t d w))) (snd (snd (after t d w)))"
  unfolding runs_def after_def by (cases "t \<lparr>db = d, sched = [], wire = w\<rparr>") force

definition demo_text :: "nat \<Rightarrow> string" where
  "demo_text t = ''2026-01-31T12:30:05Z''"

definition demo_env :: "nat \<Rightarrow> string \<Rightarrow> order_env" where
  "demo_env now uuid = \<lparr>en_getenv = (\<lambda>_. ''''), en_now = now, en_now_text = demo_text now, en_uuid = uuid,
     en_validate = (\<lambda>_. Inr True), en_sha256_hex = (\<lambda>s. s), en_time_text = demo_text, en_time_parse = length\<rparr>"

definition demo_ienv :: "nat \<Rightarrow> string \<Rightarrow> inventory_env" where
  "demo_ienv now uuid = \<lparr>iv_getenv = (\<lambda>_. ''''), iv_now = now, iv_now_text = demo_text now, iv_uuid = uuid,
     iv_collation = (\<lambda>s. s), iv_tx_err = (\<lambda>_. None), iv_ctx = (\<lambda>_. None)\<rparr>"

definition demo_request :: "int \<Rightarrow> create_order_request" where
  "demo_request qty = \<lparr>cr_product_name = ''pen'', cr_sku = ''SKU-1'', cr_quantity = qty, cr_amount = 100\<rparr>"

definition demo_start :: saga where
  "demo_start = \<lparr>
     odb = \<lparr>biz = \<lparr>orders = [], next_order_id = 1, known_users = []\<rparr>, outbox = \<lparr>ob_rows = [], ob_next_id = 1\<rparr>, processed = []\<rparr>,
     idb = \<lparr>biz = \<lparr>products = [\<lparr>p_sku = ''SKU-1'', p_total = 5, p_available = 5\<rparr>], reservations = [], next_reservation_id = 1\<rparr>,
            outbox = \<lparr>ob_rows = [], ob_next_id = 1\<rparr>, processed = []\<rparr>,
     order_log = [], inv_log = [], snaps = {}\<rparr>"

text \<open>One step of each kind, as a function.\<close>

definition do_create :: "order_env \<Rightarrow> nat \<Rightarrow> create_order_request \<Rightarrow> saga \<Rightarrow> saga" where
  "do_create env uid q S = S\<lparr>odb := fst (snd (after (create_order env uid q :: (order_db, message, order) tx) (odb S) []))\<rparr>"

definition do_read :: "order \<Rightarrow> saga \<Rightarrow> saga" where
  "do_read o' S = S\<lparr>snaps := insert o' (snaps S)\<rparr>"

definition do_update :: "order_env \<Rightarrow> order \<Rightarrow> string \<Rightarrow> saga \<Rightarrow> saga" where
  "do_update env o' st S = S\<lparr>odb := fst (snd (after (update_order_from env o' st :: (order_db, message, order) tx) (odb S) []))\<rparr>"

definition do_order_tick :: "nat \<Rightarrow> saga \<Rightarrow> saga" where
  "do_order_tick now S =
     (let a = after (tick demo_text (\<lambda>_. Acked) now (\<lambda>_. False) 100) (odb S) (order_log S)
      in S\<lparr>odb := fst (snd a), order_log := snd (snd a)\<rparr>)"

definition do_inventory_tick :: "nat \<Rightarrow> saga \<Rightarrow> saga" where
  "do_inventory_tick now S =
     (let a = after (tick demo_text (\<lambda>_. Acked) now (\<lambda>_. False) 100) (idb S) (inv_log S)
      in S\<lparr>idb := fst (snd a), inv_log := snd (snd a)\<rparr>)"

definition do_deliver_order :: "inventory_env \<Rightarrow> nat \<Rightarrow> saga \<Rightarrow> saga" where
  "do_deliver_order ienv k S =
     S\<lparr>idb := fst (snd (after (handle_order_event ienv (order_log S ! k) :: (inventory_db, message, unit) tx) (idb S) []))\<rparr>"

definition do_deliver_inventory :: "order_env \<Rightarrow> nat \<Rightarrow> saga \<Rightarrow> saga" where
  "do_deliver_inventory env k S =
     S\<lparr>odb := fst (snd (after (handle_inventory_event env (inv_log S ! k) :: (order_db, message, unit) tx) (odb S) []))\<rparr>"

text \<open>Each leads from reachable states to reachable states.\<close>

lemma reach_create:
  "reachable I (saga_step ck) S \<Longrightarrow> valid_create_order_request q \<Longrightarrow> next_order_id (biz (odb S)) \<le> 2 ^ 53 \<Longrightarrow>
   reachable I (saga_step ck) (do_create env uid q S)"
  unfolding do_create_def by (erule reachable_step, rule Create [OF _ _ runs_after])

lemma reach_read:
  assumes "reachable I (saga_step ck) S"
    and "fst (after (find_by_id_and_user_id i uid :: (order_db, message, order) tx) (odb S) []) = Inr o'"
  shows "reachable I (saga_step ck) (do_read o' S)"
  unfolding do_read_def using assms(1)
  by (rule reachable_step, intro Read)
    (use runs_after [of "find_by_id_and_user_id i uid" "odb S" "[] :: message list"] assms(2) in simp)

lemma reach_update:
  "reachable I (saga_step ck) S \<Longrightarrow> o' \<in> snaps S \<Longrightarrow> valid_update_status_request st \<Longrightarrow>
   reachable I (saga_step ck) (do_update env o' st S)"
  unfolding do_update_def by (erule reachable_step, rule Update [OF _ _ runs_after])

lemma reach_order_tick: "reachable I (saga_step ck) S \<Longrightarrow> reachable I (saga_step ck) (do_order_tick now S)"
  unfolding do_order_tick_def Let_def by (erule reachable_step, rule OrderTick [OF runs_after])

lemma reach_inventory_tick: "reachable I (saga_step ck) S \<Longrightarrow> reachable I (saga_step ck) (do_inventory_tick now S)"
  unfolding do_inventory_tick_def Let_def by (erule reachable_step, rule InventoryTick [OF runs_after])

lemma reach_deliver_order:
  "reachable I (saga_step ck) S \<Longrightarrow> k < length (order_log S) \<Longrightarrow> iv_collation ienv = ck \<Longrightarrow>
   reachable I (saga_step ck) (do_deliver_order ienv k S)"
  unfolding do_deliver_order_def by (erule reachable_step, rule DeliverOrder [OF _ _ runs_after]) auto

lemma reach_deliver_inventory:
  "reachable I (saga_step ck) S \<Longrightarrow> k < length (inv_log S) \<Longrightarrow>
   reachable I (saga_step ck) (do_deliver_inventory env k S)"
  unfolding do_deliver_inventory_def by (erule reachable_step, rule DeliverInventory [OF _ runs_after]) auto

lemma demo_start_init: "saga_init (\<lambda>s. s) demo_start"
  by (simp add: saga_init_def demo_start_def)

text \<open>An order of two pens is placed and cancelled; the inventory service sees the events swapped.\<close>

definition leak1 :: saga where "leak1 = do_create (demo_env 10 ''u1'') 7 (demo_request 2) demo_start"
definition leak2 :: saga where "leak2 = do_read (hd (orders (biz (odb leak1)))) leak1"
definition leak3 :: saga where
  "leak3 = do_update (demo_env 20 ''u2'') (hd (orders (biz (odb leak1)))) StatusCancelled leak2"
definition leak4 :: saga where "leak4 = do_order_tick 30 leak3"
definition leak5 :: saga where "leak5 = do_deliver_order (demo_ienv 40 ''i1'') 1 leak4"
definition leak6 :: saga where "leak6 = do_deliver_order (demo_ienv 50 ''i2'') 0 leak5"
definition leak7 :: saga where "leak7 = do_inventory_tick 60 leak6"
definition leak8 :: saga where "leak8 = do_deliver_inventory (demo_env 70 ''u3'') 0 leak7"

lemma demo_start_reachable: "reachable (saga_init (\<lambda>s. s)) (saga_step (\<lambda>s. s)) demo_start"
  by (rule reachable_init [of "saga_init (\<lambda>s. s)", OF demo_start_init])

text \<open>The end of the run, from the publication of the two events on.\<close>

lemma leak_end: "(saga_step (\<lambda>s. s))\<^sup>*\<^sup>* leak4 leak8"
proof -
  let ?reach = "reachable (\<lambda>S. S = leak4) (saga_step (\<lambda>s. s))"
  have "?reach leak4" by (rule reachable_init) simp
  moreover have "1 < length (order_log leak4)" by code_simp
  ultimately have "?reach leak5"
    unfolding leak5_def by (rule reach_deliver_order) (simp add: demo_ienv_def)
  moreover have "0 < length (order_log leak5)" by code_simp
  ultimately have "?reach leak6"
    unfolding leak6_def by (rule reach_deliver_order) (simp add: demo_ienv_def)
  then have "?reach leak7"
    unfolding leak7_def by (rule reach_inventory_tick)
  moreover have "0 < length (inv_log leak7)" by code_simp
  ultimately have "?reach leak8"
    unfolding leak8_def by (rule reach_deliver_inventory)
  then show ?thesis by (simp add: reachable_def)
qed

lemma leak4_reachable: "reachable (saga_init (\<lambda>s. s)) (saga_step (\<lambda>s. s)) leak4"
proof -
  let ?reach = "reachable (saga_init (\<lambda>s. s)) (saga_step (\<lambda>s. s))"
  have "?reach leak1"
    unfolding leak1_def
    by (rule reach_create [OF demo_start_reachable])
      (simp_all add: demo_request_def valid_create_order_request_def required_str_def len_between_def demo_start_def)
  moreover have "fst (after (find_by_id_and_user_id 1 7 :: (order_db, message, order) tx) (odb leak1) []) =
      Inr (hd (orders (biz (odb leak1))))"
    by code_simp
  ultimately have "?reach leak2"
    unfolding leak2_def by (rule reach_read)
  moreover have "hd (orders (biz (odb leak1))) \<in> snaps leak2"
    by (simp add: leak2_def do_read_def)
  ultimately have "?reach leak3"
    unfolding leak3_def by (rule reach_update) (simp add: valid_update_status_request_def)
  then show ?thesis
    unfolding leak4_def by (rule reach_order_tick)
qed

lemma leak_reachable: "reachable (saga_init (\<lambda>s. s)) (saga_step (\<lambda>s. s)) leak8"
  using leak4_reachable leak_end unfolding reachable_def by (meson rtranclp_trans)

text \<open>An order of nine pens, of which there are five, is paid before the inventory service answers.\<close>

definition paid1 :: saga where "paid1 = do_create (demo_env 10 ''u1'') 7 (demo_request 9) demo_start"
definition paid2 :: saga where "paid2 = do_read (hd (orders (biz (odb paid1)))) paid1"
definition paid3 :: saga where
  "paid3 = do_update (demo_env 20 ''u2'') (hd (orders (biz (odb paid1)))) StatusPaid paid2"
definition paid4 :: saga where "paid4 = do_order_tick 30 paid3"
definition paid5 :: saga where "paid5 = do_deliver_order (demo_ienv 40 ''i1'') 0 paid4"
definition paid6 :: saga where "paid6 = do_inventory_tick 50 paid5"
definition paid7 :: saga where "paid7 = do_deliver_inventory (demo_env 60 ''u3'') 0 paid6"

lemma paid_reachable: "reachable (saga_init (\<lambda>s. s)) (saga_step (\<lambda>s. s)) paid7"
proof -
  let ?reach = "reachable (saga_init (\<lambda>s. s)) (saga_step (\<lambda>s. s))"
  have "?reach paid1"
    unfolding paid1_def
    by (rule reach_create [OF demo_start_reachable])
      (simp_all add: demo_request_def valid_create_order_request_def required_str_def len_between_def demo_start_def)
  moreover have "fst (after (find_by_id_and_user_id 1 7 :: (order_db, message, order) tx) (odb paid1) []) =
      Inr (hd (orders (biz (odb paid1))))"
    by code_simp
  ultimately have "?reach paid2"
    unfolding paid2_def by (rule reach_read)
  moreover have "hd (orders (biz (odb paid1))) \<in> snaps paid2"
    by (simp add: paid2_def do_read_def)
  ultimately have "?reach paid3"
    unfolding paid3_def by (rule reach_update) (simp add: valid_update_status_request_def)
  then have "?reach paid4"
    unfolding paid4_def by (rule reach_order_tick)
  moreover have "0 < length (order_log paid4)" by code_simp
  ultimately have "?reach paid5"
    unfolding paid5_def by (rule reach_deliver_order) (simp add: demo_ienv_def)
  then have "?reach paid6"
    unfolding paid6_def by (rule reach_inventory_tick)
  moreover have "0 < length (inv_log paid6)" by code_simp
  ultimately show ?thesis
    unfolding paid7_def by (rule reach_deliver_inventory)
qed

text \<open>The same order is not paid: it is cancelled when the inventory service answers.\<close>

definition oos1 :: saga where "oos1 = do_order_tick 30 paid1"
definition oos2 :: saga where "oos2 = do_deliver_order (demo_ienv 40 ''i1'') 0 oos1"
definition oos3 :: saga where "oos3 = do_inventory_tick 50 oos2"
definition oos4 :: saga where "oos4 = do_deliver_inventory (demo_env 60 ''u3'') 0 oos3"

lemma oos_reachable: "reachable (saga_init (\<lambda>s. s)) (saga_step (\<lambda>s. s)) oos4"
proof -
  let ?reach = "reachable (saga_init (\<lambda>s. s)) (saga_step (\<lambda>s. s))"
  have "?reach paid1"
    unfolding paid1_def
    by (rule reach_create [OF demo_start_reachable])
      (simp_all add: demo_request_def valid_create_order_request_def required_str_def len_between_def demo_start_def)
  then have "?reach oos1"
    unfolding oos1_def by (rule reach_order_tick)
  moreover have "0 < length (order_log oos1)" by code_simp
  ultimately have "?reach oos2"
    unfolding oos2_def by (rule reach_deliver_order) (simp add: demo_ienv_def)
  then have "?reach oos3"
    unfolding oos3_def by (rule reach_inventory_tick)
  moreover have "0 < length (inv_log oos3)" by code_simp
  ultimately show ?thesis
    unfolding oos4_def by (rule reach_deliver_inventory)
qed

text \<open>Nothing is left to do: every event is published and handled by the other service.\<close>

definition settled :: "saga \<Rightarrow> bool" where
  "settled S \<longleftrightarrow>
     (\<forall>r \<in> set (ob_rows (outbox (odb S))). ob_status r = OutboxStatusSent \<and> ob_event_id r \<in> set (processed (idb S))) \<and>
     (\<forall>r \<in> set (ob_rows (outbox (idb S))). ob_status r = OutboxStatusSent \<and> ob_event_id r \<in> set (processed (odb S)))"

text \<open>What the three runs end with, each evaluated once.\<close>

definition leak_result :: "saga \<Rightarrow> bool" where
  "leak_result S \<longleftrightarrow> settled S \<and> map m_key (order_log S) = [''7'', ''1''] \<and>
     (case orders (biz (odb S)) of
        [x] \<Rightarrow> o_id x = 1 \<and> o_quantity x = 2 \<and> o_status x = StatusCancelled \<and> live x \<and>
          (case ob_rows (outbox (odb S)) of
             [_, r] \<Rightarrow> ob_event_id r \<in> set (processed (idb S)) \<and>
               marshal_envelope \<lparr>env_event = OrderCancelled, env_version = 1, env_occurred_at = demo_text 20,
                 env_data = marshal_order_cancelled (order_cancelled_data_of x (o_cancel_reason x))\<rparr> = Inr (ob_payload r)
           | _ \<Rightarrow> False)
      | _ \<Rightarrow> False) \<and>
     (case reservations (biz (idb S)) of
        [rv] \<Rightarrow> rv_order_id rv = 1 \<and> rv_sku rv = ''SKU-1'' \<and> rv_quantity rv = 2 \<and> rv_status rv = ReservationStatusReserved
      | _ \<Rightarrow> False) \<and>
     products (biz (idb S)) = [\<lparr>p_sku = ''SKU-1'', p_total = 5, p_available = 3\<rparr>]"

lemma leak8_result: "leak_result leak8"
  by code_simp

lemma leak8_facts:
  "settled leak8" "map m_key (order_log leak8) = [''7'', ''1'']"
  "products (biz (idb leak8)) = [\<lparr>p_sku = ''SKU-1'', p_total = 5, p_available = 3\<rparr>]"
  using leak8_result by (simp_all only: leak_result_def)

lemma leak8_order:
  obtains x r0 r where "orders (biz (odb leak8)) = [x]" "o_id x = 1" "o_quantity x = 2" "o_status x = StatusCancelled" "live x"
    "ob_rows (outbox (odb leak8)) = [r0, r]" "cancelled_row x r" "ob_event_id r \<in> set (processed (idb leak8))"
  using leak8_result unfolding leak_result_def cancelled_row_def carries_def
  by (auto split: list.splits simp del: StatusCancelled_def)

lemma leak8_reservation:
  obtains rv where "reservations (biz (idb leak8)) = [rv]" "rv_order_id rv = 1" "rv_sku rv = ''SKU-1''" "rv_quantity rv = 2"
    "rv_status rv = ReservationStatusReserved"
  using leak8_result unfolding leak_result_def by (auto split: list.splits simp del: ReservationStatusReserved_def)

definition paid_result :: "saga \<Rightarrow> bool" where
  "paid_result S \<longleftrightarrow> settled S \<and> status_of S 1 = Some StatusPaid \<and> reservations (biz (idb S)) = [] \<and>
     (case ob_rows (outbox (idb S)) of
        [r] \<Rightarrow> marshal_envelope \<lparr>env_event = ReservationFailed, env_version = 1, env_occurred_at = demo_text 40,
             env_data = marshal_reservation_failed \<lparr>rf_order_id = 1, rf_reason = ReasonOutOfStock\<rparr>\<rparr> = Inr (ob_payload r)
      | _ \<Rightarrow> False)"

lemma paid7_result: "paid_result paid7"
  by code_simp

lemma refused_by_row:
  assumes "marshal_envelope \<lparr>env_event = ReservationFailed, env_version = 1, env_occurred_at = t,
      env_data = marshal_reservation_failed \<lparr>rf_order_id = i, rf_reason = ReasonOutOfStock\<rparr>\<rparr> = Inr (ob_payload r)"
    and "r \<in> set (ob_rows (outbox j))"
  shows "hold_in j i = Refused"
  using assms unfolding hold_in_def refused_def failed_row_def carries_def by auto

subsection \<open>Properties\<close>

text \<open>
  C1: conservation of stock.  In every reachable state of the saga, whatever the order of messages,
  redeliveries and database faults, each product's available column is its total minus the
  quantities of the active reservations for it, and the reserved stock never exceeds the total.
\<close>

theorem stock_conserved:
  assumes "reachable (saga_init ck) (saga_step ck) S" and "p \<in> set (products (biz (idb S)))"
  shows "p_available p = p_total p - held ck (ck (p_sku p)) (reservations (biz (idb S))) \<and>
    0 \<le> p_available p \<and> p_available p \<le> p_total p"
proof -
  have "stock_ok ck (idb S)" using saga_inv_reachable [OF assms(1)] by (simp add: saga_inv_def)
  moreover from this have "0 \<le> held ck (ck (p_sku p)) (reservations (biz (idb S)))"
    by (intro held_nonneg) (auto simp: stock_ok_def)
  ultimately show ?thesis using assms(2) by (auto simp: stock_ok_def)
qed

lemma stock_conserved_witness:
  "p_available (hd (products (biz (idb leak8)))) \<le> p_total (hd (products (biz (idb leak8)))) \<and>
   held (\<lambda>s. s) ''SKU-1'' (reservations (biz (idb leak8))) = 2"
proof -
  have "hd (products (biz (idb leak8))) \<in> set (products (biz (idb leak8)))" by (simp add: leak8_facts)
  then show ?thesis using stock_conserved [OF leak_reachable, of "hd (products (biz (idb leak8)))"]
    by (simp add: leak8_facts)
qed

text \<open>
  C4: reservations belong to orders.  In every reachable state a reservation is for an existing
  order, of its SKU and quantity, no order has two, and one that is released belongs to a cancelled order.
\<close>

theorem reservations_match_orders:
  assumes "reachable (saga_init ck) (saga_step ck) S"
  shows "distinct (map rv_order_id (reservations (biz (idb S)))) \<and>
    (\<forall>rv \<in> set (reservations (biz (idb S))). \<exists>o' \<in> set (orders (biz (odb S))).
       o_id o' = rv_order_id rv \<and> o_sku o' = rv_sku rv \<and> o_quantity o' = rv_quantity rv \<and>
       (rv_status rv = ReservationStatusReleased \<longrightarrow> o_status o' = StatusCancelled))"
proof -
  have "stock_ok ck (idb S)" "linked (odb S) (idb S)"
    using saga_inv_reachable [OF assms] by (auto simp: saga_inv_def)
  then show ?thesis
    unfolding stock_ok_def linked_def reservation_linked_def by blast
qed

lemma reservations_match_orders_witness:
  "\<exists>o' \<in> set (orders (biz (odb leak8))). o_id o' = 1 \<and> o_quantity o' = 2"
proof -
  obtain rv where "reservations (biz (idb leak8)) = [rv]" "rv_order_id rv = 1" "rv_quantity rv = 2"
    by (rule leak8_reservation)
  with reservations_match_orders [OF leak_reachable] show ?thesis by auto
qed

text \<open>
  C14: an order that was cancelled for lack of stock holds no stock, and never will: in every
  reachable state there is no reservation for it, and its \<open>order.created\<close> event is marked as handled.
\<close>

theorem out_of_stock_holds_nothing:
  assumes "reachable (saga_init ck) (saga_step ck) S" and "o' \<in> set (orders (biz (odb S)))"
    and "o_status o' = StatusCancelled" "o_cancel_reason o' = ReasonOutOfStock"
  shows "(\<forall>rv \<in> set (reservations (biz (idb S))). rv_order_id rv \<noteq> o_id o') \<and>
    (\<exists>r \<in> set (ob_rows (outbox (odb S))). created_row o' r \<and> ob_event_id r \<in> set (processed (idb S)))"
proof -
  have ok: "order_side_ok (odb S)" and l: "linked (odb S) (idb S)"
    using saga_inv_reachable [OF assms(1)] by (auto simp: saga_inv_def)
  then have ref: "refused (idb S) (o_id o')"
    using assms(2-4) unfolding linked_def out_of_stock_def by blast
  from refused_linked [OF ok l ref] order_same_id [OF ok _ assms(2)] show ?thesis
    unfolding no_reservation_def handled_def was_processed_def by metis
qed

lemma out_of_stock_holds_nothing_witness:
  "o_status (hd (orders (biz (odb oos4)))) = StatusCancelled \<and>
   filter (\<lambda>rv. rv_order_id rv = o_id (hd (orders (biz (odb oos4))))) (reservations (biz (idb oos4))) = []"
proof -
  have "hd (orders (biz (odb oos4))) \<in> set (orders (biz (odb oos4))) \<and>
      o_status (hd (orders (biz (odb oos4)))) = StatusCancelled \<and>
      o_cancel_reason (hd (orders (biz (odb oos4)))) = ReasonOutOfStock" by code_simp
  then show ?thesis
    using out_of_stock_holds_nothing [OF oos_reachable, of "hd (orders (biz (odb oos4)))"] unfolding filter_empty_conv by blast
qed

text \<open>
  C15: each order has exactly one \<open>order.created\<close> event in the outbox, and exactly one
  \<open>order.cancelled\<close> event when it is cancelled, else none.
\<close>

theorem order_events_once:
  assumes "reachable (saga_init ck) (saga_step ck) S" and "o' \<in> set (orders (biz (odb S)))"
  shows "length (filter (created_row o') (ob_rows (outbox (odb S)))) = 1 \<and>
    length (filter (cancelled_row o') (ob_rows (outbox (odb S)))) = (if o_status o' = StatusCancelled then 1 else 0)"
  using saga_inv_reachable [OF assms(1)] assms(2) unfolding saga_inv_def order_side_ok_def by blast

lemma order_events_once_witness:
  "length (filter (cancelled_row (hd (orders (biz (odb leak8))))) (ob_rows (outbox (odb leak8)))) = 1"
proof -
  obtain x where "orders (biz (odb leak8)) = [x]" "o_status x = StatusCancelled" by (rule leak8_order)
  with order_events_once [OF leak_reachable, of x] show ?thesis by (simp del: StatusCancelled_def)
qed

text \<open>
  C2: the services with their databases, outboxes and messages refine the saga protocol: every
  reachable state of the system is, seen through \<open>protocol_of\<close>, a reachable state of the protocol.
\<close>

theorem saga_refines_protocol:
  assumes "reachable (saga_init ck) (saga_step ck) S"
  shows "reachable protocol_init protocol_step (protocol_of S)"
  using assms by (rule saga_protocol.refines)

lemma saga_refines_protocol_witness:
  "reachable protocol_init protocol_step (status_of paid7, hold_in (idb paid7)) \<and>
   status_of paid7 1 = Some StatusPaid \<and> hold_in (idb paid7) 1 = Refused"
proof -
  have r: "paid_result paid7" by (rule paid7_result)
  then have "hold_in (idb paid7) 1 = Refused"
    unfolding paid_result_def by (intro refused_by_row) (auto split: list.splits)
  with r show ?thesis unfolding paid_result_def
    using saga_refines_protocol [OF paid_reachable] by (simp add: protocol_of_def)
qed

text \<open>
  Orders are never lost and only move on.  In every later state an order still exists with its
  user, SKU and quantity, and once paid or cancelled it keeps that status, its version and its reason.
\<close>

theorem orders_move_on:
  assumes "reachable (saga_init ck) (saga_step ck) S" "(saga_step ck)\<^sup>*\<^sup>* S T" and "a \<in> set (orders (biz (odb S)))"
  shows "\<exists>b \<in> set (orders (biz (odb T))). o_id b = o_id a \<and> o_user_id b = o_user_id a \<and> o_sku b = o_sku a \<and>
    o_quantity b = o_quantity a \<and>
    (o_status a = StatusPending \<or>
     o_status b = o_status a \<and> o_version b = o_version a \<and> o_cancel_reason b = o_cancel_reason a)"
  using order_moves_on [OF assms(2) saga_inv_reachable [OF assms(1)] assms(3)] unfolding same_order_def by metis

lemma orders_move_on_witness:
  "\<exists>b \<in> set (orders (biz (odb leak8))). o_id b = 1 \<and> o_status b = StatusCancelled"
proof -
  have "hd (orders (biz (odb leak4))) \<in> set (orders (biz (odb leak4))) \<and>
      o_id (hd (orders (biz (odb leak4)))) = 1 \<and> o_status (hd (orders (biz (odb leak4)))) = StatusCancelled"
    by code_simp
  then show ?thesis using orders_move_on [OF leak4_reachable leak_end, of "hd (orders (biz (odb leak4)))"] by auto
qed

text \<open>
  C11: the saga can leak stock.  \<open>order.created\<close> is keyed by the user id and \<open>order.cancelled\<close> by the
  order id, so the two may sit in different partitions; when the cancellation is consumed first, it
  finds no reservation and is marked as processed, and the reservation made afterwards stays.  All
  events are published and processed, the order is cancelled, and its two pens are still reserved.
\<close>

theorem stock_leak:
  "reachable (saga_init (\<lambda>s. s)) (saga_step (\<lambda>s. s)) leak8 \<and> settled leak8 \<and>
   map m_key (order_log leak8) = [''7'', ''1''] \<and> status_of leak8 1 = Some StatusCancelled \<and>
   (\<exists>rv \<in> set (reservations (biz (idb leak8))).
      rv_order_id rv = 1 \<and> rv_quantity rv = 2 \<and> rv_status rv = ReservationStatusReserved)"
proof -
  obtain x where "orders (biz (odb leak8)) = [x]" "o_id x = 1" "o_status x = StatusCancelled" "live x"
    by (rule leak8_order)
  then have "status_of leak8 1 = Some StatusCancelled" by (simp add: status_of_def order_row_def)
  moreover obtain rv where "reservations (biz (idb leak8)) = [rv]" "rv_order_id rv = 1" "rv_quantity rv = 2"
    "rv_status rv = ReservationStatusReserved" by (rule leak8_reservation)
  ultimately show ?thesis using leak_reachable leak8_facts(1,2) by auto
qed

text \<open>
  C12: leaked stock is leaked for good.  Once the inventory service has processed the cancellation
  of an order and holds stock for it, it holds that stock in every later state.
\<close>

theorem leaked_stock_stays:
  assumes "reachable (saga_init ck) (saga_step ck) S" "(saga_step ck)\<^sup>*\<^sup>* S T"
    and "cancellation_handled S i" "hold_in (idb S) i = Held"
  shows "hold_in (idb T) i = Held"
proof -
  have "cancellation_handled T i \<and> hold_in (idb T) i = Held"
    by (rule stable_run [where I = "saga_inv ck" and P = "\<lambda>T. cancellation_handled T i \<and> hold_in (idb T) i = Held",
          OF assms(2)])
      (use assms(1,3,4) saga_inv_reachable saga_inv_step leak_step in blast)+
  then show ?thesis by blast
qed

lemma held_by_reservation:
  assumes "saga_inv ck S" "rv \<in> set (reservations (biz (idb S)))" "rv_status rv = ReservationStatusReserved"
  shows "hold_in (idb S) (rv_order_id rv) = Held"
proof -
  have ok: "order_side_ok (odb S)" "linked (odb S) (idb S)" "distinct (map rv_order_id (reservations (biz (idb S))))"
    using assms(1) by (auto simp: saga_inv_def stock_ok_def)
  have "\<not> refused (idb S) (rv_order_id rv)"
    using refused_linked(2) [OF ok(1,2)] assms(2) unfolding no_reservation_def by blast
  moreover have "find (\<lambda>x. rv_order_id x = rv_order_id rv) (reservations (biz (idb S))) = Some rv"
    by (rule find_unique) (use assms(2) distinct_key_eq [OF ok(3) _ assms(2)] in auto)
  ultimately show ?thesis using assms(3) by (simp add: hold_in_def)
qed

lemma leaked_stock_stays_witness:
  "hold_in (idb leak8) 1 = Held \<and> hold_in (idb (do_inventory_tick 80 leak8)) 1 = Held"
proof -
  have inv: "saga_inv (\<lambda>s. s) leak8" by (rule saga_inv_reachable [OF leak_reachable])
  obtain rv where "reservations (biz (idb leak8)) = [rv]" "rv_order_id rv = 1" "rv_status rv = ReservationStatusReserved"
    by (rule leak8_reservation)
  with held_by_reservation [OF inv, of rv] have held: "hold_in (idb leak8) 1 = Held" by simp
  obtain x r0 r where "orders (biz (odb leak8)) = [x]" "o_id x = 1" "o_status x = StatusCancelled"
    "ob_rows (outbox (odb leak8)) = [r0, r]" "cancelled_row x r" "ob_event_id r \<in> set (processed (idb leak8))"
    by (rule leak8_order)
  then have "cancellation_handled leak8 1" unfolding cancellation_handled_def by auto
  moreover have "(saga_step (\<lambda>s. s))\<^sup>*\<^sup>* leak8 (do_inventory_tick 80 leak8)"
    using reach_inventory_tick [where I = "\<lambda>S. S = leak8" and S = leak8] by (simp add: reachable_def)
  ultimately show ?thesis using leaked_stock_stays [OF leak_reachable] held by blast
qed

text \<open>
  C13: an order can stay paid without stock.  If the user pays before the answer of the inventory
  service arrives, \<open>handleReservationFailed\<close> finds the order no longer pending, its \<open>Cancel\<close> changes no row, and the
  conflict is taken for a concurrent cancellation: the event is marked as processed, all events
  are handled, and the order of nine pens stays paid while five exist and none is reserved.
\<close>

theorem paid_without_stock:
  "reachable (saga_init (\<lambda>s. s)) (saga_step (\<lambda>s. s)) paid7 \<and> settled paid7 \<and>
   status_of paid7 1 = Some StatusPaid \<and> reservations (biz (idb paid7)) = []"
  using paid_reachable paid7_result unfolding paid_result_def by blast

end
