(* ===== verification/Settling.thy ===== *)
theory Settling
  imports SagaProps
begin

text \<open>
  Progress of the saga.  Its invariants say what never happens; here it is shown that a pending order can be
  decided as long as its own events have not been given up: from every reachable state there are steps of the code, with a
  database and a broker that answer, after which stock is reserved for the order or the order is cancelled for lack of it.  What
  stands in the way is an event of the order whose retries are used up, a user id or an amount that \<open>float64\<close> alters,
  and a product whose total does not fit its column.

  The first part is the invariant behind it: every row that is no longer pending has its message in the log, an event
  that was handled was decided, and a refusal that was handled has reached its order.
\<close>

subsection \<open>Nothing gets lost between the tables and the logs\<close>




definition decided :: "inventory_db \<Rightarrow> nat \<Rightarrow> bool" where
  "decided j i \<longleftrightarrow> \<not> no_reservation j i \<or> refused j i"





text \<open>How a table gains rows: each new one is pending and has an event id of its own.\<close>

definition rows_added :: "outbox_table \<Rightarrow> outbox_table \<Rightarrow> bool" where
  "rows_added t t' \<longleftrightarrow> set (ob_rows t) \<subseteq> set (ob_rows t') \<and>
     (\<forall>r \<in> set (ob_rows t') - set (ob_rows t). ob_status r = OutboxStatusPending \<and> ob_event_id r \<notin> ob_event_id ` set (ob_rows t))"

lemma rows_added_refl [simp]: "rows_added t t"
  by (simp add: rows_added_def)







subsection \<open>The steps of the order service\<close>





subsection \<open>The pollers\<close>






subsection \<open>The deliveries\<close>




lemma decided_mark [simp]: "decided (mark_processed k j) i = decided j i"
  by (simp add: decided_def no_reservation_def refused_def)




subsection \<open>The invariant holds in every reachable state\<close>




subsection \<open>Operations of a database that answers\<close>

text \<open>An operation that runs through: no reply is left out and nothing is published.\<close>

definition clean :: "('db, 'm, 'a) tx \<Rightarrow> 'db \<Rightarrow> 'm list \<Rightarrow> 'a \<Rightarrow> 'db \<Rightarrow> bool" where
  "clean t d w a d' \<longleftrightarrow> t \<lparr>db = d, sched = [], wire = w\<rparr> = (Inr a, \<lparr>db = d', sched = [], wire = w\<rparr>)"






lemma clean_try: "clean t d w a d' \<Longrightarrow> clean (try_tx t) d w (Inr a) d'"
  by (simp add: clean_def try_tx_def)




















subsection \<open>From a pending order to its decision\<close>











subsection \<open>Properties\<close>



end
