(* ===== verification/Consumer.thy ===== *)
theory Consumer
  imports Poller HttpCommon
begin

text \<open>
  The long-running parts of \<open>common/xstream\<close>: the consumer loop of \<open>stream.go\<close>, the
  poller's timer loop, \<open>RunWithRecover\<close>, and the set-up of the producer.  Kafka is outside the
  program and a parameter: \<open>kafka_reader\<close> for a consumer group's reader, \<open>kafka_admin\<close> for the
  connections that create topics.  A loop that serves until it is cancelled is a
  recursion over what \<open>ctx.Done()\<close> and the timers answer at each turn; when the answers are used up
  the loop is still \<open>Serving\<close>.
\<close>

subsection \<open>Panics\<close>

datatype 'a outcome = Returns 'a | Panics string

text \<open>
  \<open>RunWithRecover\<close>: a panic of \<open>fn\<close> ends \<open>fn\<close>, is logged with the name of the caller, and goes no further;
  what \<open>fn\<close> did before stays.
\<close>

definition run_with_recover ::
  "string \<Rightarrow> ('s \<Rightarrow> unit outcome \<times> 's) \<Rightarrow> 's \<Rightarrow> (string \<times> string) option \<times> 's" where
  "run_with_recover caller fn s =
     (case fn s of (Returns _, s1) \<Rightarrow> (None, s1) | (Panics v, s1) \<Rightarrow> (Some (caller, v), s1))"

subsection \<open>Setting up the producer\<close>

text \<open>A Go map is ranged over in any order; the association list fixes one.\<close>

definition to_kafka_headers :: "(string \<times> string) list \<Rightarrow> (string \<times> string) list" where
  "to_kafka_headers h = map (\<lambda>(k, v). (k, v)) h"

record ('k, 'c) kafka_admin =
  ka_dial :: "string \<Rightarrow> 'k \<Rightarrow> (go_error + 'c) \<times> 'k"
  ka_controller :: "'c \<Rightarrow> 'k \<Rightarrow> (go_error + string \<times> int) \<times> 'k"
  ka_create :: "'c \<Rightarrow> topic_spec \<Rightarrow> 'k \<Rightarrow> go_error option \<times> 'k"
  ka_close :: "'c \<Rightarrow> 'k \<Rightarrow> 'k"

definition isTopicExistsErr :: "go_error option \<Rightarrow> bool" where
  "isTopicExistsErr err = (case err of None \<Rightarrow> False | Some e \<Rightarrow> str_contains ''already exists'' (error_text e))"

text \<open>The first broker that answers.\<close>

fun dial_first :: "('k, 'c) kafka_admin \<Rightarrow> string list \<Rightarrow> go_error \<Rightarrow> 'k \<Rightarrow> (go_error + 'c) \<times> 'k" where
  "dial_first ka [] lastErr k = (Inl (Wrapped ''dial brokers'' lastErr), k)"
| "dial_first ka (b # bs) lastErr k =
     (case ka_dial ka b k of (Inr c, k1) \<Rightarrow> (Inr c, k1) | (Inl err, k1) \<Rightarrow> dial_first ka bs err k1)"

text \<open>The topics are created one by one; an error is logged, here kept, unless the topic was there.\<close>

fun create_topics :: "('k, 'c) kafka_admin \<Rightarrow> 'c \<Rightarrow> topic_spec list \<Rightarrow> 'k \<Rightarrow> (string \<times> go_error) list \<times> 'k" where
  "create_topics ka c [] k = ([], k)"
| "create_topics ka c (spec # specs) k =
     (case ka_create ka c spec k of (err, k1) \<Rightarrow>
        (case create_topics ka c specs k1 of (logged, k2) \<Rightarrow>
           (case err of
              None \<Rightarrow> (logged, k2)
            | Some e \<Rightarrow> (if isTopicExistsErr err then logged else (ts_name spec, e) # logged, k2))))"

definition ensureTopics ::
  "('k, 'c) kafka_admin \<Rightarrow> string list \<Rightarrow> topic_spec list \<Rightarrow> 'k \<Rightarrow> (go_error + (string \<times> go_error) list) \<times> 'k" where
  "ensureTopics ka servers specs k =
     (if servers = [] then (Inl (PlainError ''no bootstrap servers''), k)
      else case dial_first ka servers (PlainError '''') k of
        (Inl err, k1) \<Rightarrow> (Inl err, k1)
      | (Inr conn, k1) \<Rightarrow>
          (case ka_controller ka conn k1 of
             (Inl err, k2) \<Rightarrow> (Inl (Wrapped ''get controller'' err), ka_close ka conn k2)
           | (Inr (host, p), k2) \<Rightarrow>
               (case ka_dial ka (join_host_port host (itoa p)) k2 of
                  (Inl err, k3) \<Rightarrow> (Inl (Wrapped ''dial controller'' err), ka_close ka conn k3)
                | (Inr topicConn, k3) \<Rightarrow>
                    (case create_topics ka topicConn specs k3 of (logged, k4) \<Rightarrow>
                       (Inr logged, ka_close ka conn (ka_close ka topicConn k4))))))"

text \<open>The settings of the writer that messages depend on.\<close>

record producer =
  pd_servers :: "string list"
  pd_require_all :: bool
  pd_max_attempts :: nat
  pd_async :: bool

definition NewProducer ::
  "('k, 'c) kafka_admin \<Rightarrow> string list \<Rightarrow> 'k \<Rightarrow> (go_error + producer) \<times> 'k" where
  "NewProducer ka servers k =
     (case ensureTopics ka servers TopicSpecs k of
        (Inl err, k1) \<Rightarrow> (Inl (Wrapped ''ensure topics'' err), k1)
      | (Inr _, k1) \<Rightarrow> (Inr \<lparr>pd_servers = servers, pd_require_all = True, pd_max_attempts = 5, pd_async = False\<rparr>, k1))"

subsection \<open>The consumer loop\<close>

record consumer_config =
  cf_brokers :: "string list"
  cf_topic :: string
  cf_group :: string

definition consumerCaller :: "consumer_config \<Rightarrow> string" where
  "consumerCaller cfg = ''consumer:'' @ cf_group cfg @ ''/'' @ cf_topic cfg"

text \<open>
  The reader of a consumer group (\<open>kafka.Reader\<close>, started at the first offset when the group has none and
  with synchronous commits): the next message, or an error, and the commit of a message.  A message is as
  Kafka delivers it, its headers with repetitions.
\<close>

record 'r kafka_reader =
  kr_fetch :: "'r \<Rightarrow> (go_error + message) \<times> 'r"
  kr_commit :: "message \<Rightarrow> 'r \<Rightarrow> (go_error + unit) \<times> 'r"

text \<open>A handler works on the state of its service; it returns nil or an error, or panics.\<close>

type_synonym 's handler = "message \<Rightarrow> 's \<Rightarrow> go_error option outcome \<times> 's"

record ('r, 's) consumer =
  cs_reader :: 'r
  cs_service :: 's
  cs_handled :: "(message \<times> go_error option outcome) list"
  cs_consumed :: "(int \<times> string) list"
  cs_panics :: "(string \<times> string) list"
  cs_waits :: "int list"

text \<open>
  The function each turn runs under \<open>RunWithRecover\<close>; its first result is the \<open>fetchErr\<close> it sets.
  \<open>cs_handled\<close> records the calls of the handler and \<open>cs_consumed\<close> the increments of the counter.
\<close>

definition handle_next ::
  "'r kafka_reader \<Rightarrow> 's handler \<Rightarrow> go_error option \<times> ('r, 's) consumer \<Rightarrow>
   unit outcome \<times> go_error option \<times> ('r, 's) consumer" where
  "handle_next kr h st = (case st of (fetchErr, c) \<Rightarrow>
     (case kr_fetch kr (cs_reader c) of
        (Inl err, r1) \<Rightarrow> (Returns (), Some err, c\<lparr>cs_reader := r1\<rparr>)
      | (Inr msg, r1) \<Rightarrow>
          let xMsg = msg\<lparr>m_headers := from_kafka_headers (m_headers msg)\<rparr> in
          (case h xMsg (cs_service c) of (res, s1) \<Rightarrow>
             let c1 = c\<lparr>cs_reader := r1, cs_service := s1, cs_handled := cs_handled c @ [(msg, res)]\<rparr> in
             (case res of
                Panics v \<Rightarrow> (Panics v, fetchErr, c1)
              | Returns (Some err) \<Rightarrow>
                  (Returns (), fetchErr, c1\<lparr>cs_consumed := cs_consumed c1 @ [(m_partition msg, ''error'')]\<rparr>)
              | Returns None \<Rightarrow>
                  (case kr_commit kr msg r1 of (_, r2) \<Rightarrow>
                     (Returns (), fetchErr,
                      c1\<lparr>cs_reader := r2, cs_consumed := cs_consumed c1 @ [(m_partition msg, ''success'')]\<rparr>))))))"

definition second :: int where "second = 1000000000"
definition maxBackoff :: int where "maxBackoff = 10 * second"

text \<open>What one turn of the loop sees: is \<open>ctx\<close> done at its start, and is it done before the wait ends.\<close>

record turn =
  tn_done :: bool
  tn_done_waiting :: bool

datatype serving = Serving int | Stopped

fun consume_loop ::
  "'r kafka_reader \<Rightarrow> consumer_config \<Rightarrow> 's handler \<Rightarrow> turn list \<Rightarrow> int \<Rightarrow> ('r, 's) consumer \<Rightarrow>
   serving \<times> ('r, 's) consumer" where
  "consume_loop kr cfg h [] wait c = (Serving wait, c)"
| "consume_loop kr cfg h (t # ts) wait c =
     (if tn_done t then (Stopped, c)
      else case run_with_recover (consumerCaller cfg) (handle_next kr h) (None, c) of
        (panicked, fetchErr, c1) \<Rightarrow>
          let c2 = c1\<lparr>cs_panics := cs_panics c1 @ (case panicked of None \<Rightarrow> [] | Some p \<Rightarrow> [p])\<rparr> in
          (case fetchErr of
             Some err \<Rightarrow>
               if errors_is err CtxCanceled then (Stopped, c2)
               else let c3 = c2\<lparr>cs_waits := cs_waits c2 @ [wait]\<rparr> in
                 if tn_done_waiting t then (Stopped, c3)
                 else consume_loop kr cfg h ts (min (wait * 2) maxBackoff) c3
           | None \<Rightarrow> consume_loop kr cfg h ts second c2))"

text \<open>\<open>consume\<close>: a new reader and the loop; the deferred close of the reader, which nothing follows, is left out.\<close>

definition consume ::
  "'r kafka_reader \<Rightarrow> consumer_config \<Rightarrow> 's handler \<Rightarrow> turn list \<Rightarrow> 'r \<Rightarrow> 's \<Rightarrow> serving \<times> ('r, 's) consumer" where
  "consume kr cfg h turns r s =
     consume_loop kr cfg h turns second
       \<lparr>cs_reader = r, cs_service = s, cs_handled = [], cs_consumed = [], cs_panics = [], cs_waits = []\<rparr>"

subsection \<open>The timer loop of the poller\<close>

text \<open>
  What happens to the loop: a tick of the timer, or the end of \<open>ctx\<close>.  A tick runs \<open>p.tick\<close> on the database
  session, where it may panic.
\<close>

datatype poll_event = TimerFires | CtxDone

fun poll_loop ::
  "('s \<Rightarrow> unit outcome \<times> 's) \<Rightarrow> poll_event list \<Rightarrow> 's \<Rightarrow> (bool \<times> (string \<times> string) list) \<times> 's" where
  "poll_loop tk [] s = ((False, []), s)"
| "poll_loop tk (CtxDone # es) s = ((True, []), s)"
| "poll_loop tk (TimerFires # es) s =
     (case run_with_recover ''poller'' tk s of (panicked, s1) \<Rightarrow>
        (case poll_loop tk es s1 of ((stopped, ps), s2) \<Rightarrow>
           ((stopped, (case panicked of None \<Rightarrow> [] | Some p \<Rightarrow> [p]) @ ps), s2)))"

text \<open>
  The loop starts after a random part of the interval (\<open>jitter\<close>, \<open>None\<close> when \<open>rand.Int\<close> fails), unless
  \<open>ctx\<close> ends while it waits.  \<open>rand.Int\<close> panics on an interval that is not positive, and nothing recovers that.
\<close>

definition poll ::
  "int \<Rightarrow> (int \<Rightarrow> int option) \<Rightarrow> ('s \<Rightarrow> unit outcome \<times> 's) \<Rightarrow> bool \<Rightarrow> poll_event list \<Rightarrow> 's \<Rightarrow>
   (bool \<times> (string \<times> string) list) outcome \<times> 's" where
  "poll interval jitter tk done_in_jitter es s =
     (if interval \<le> 0 then (Panics ''crypto/rand: argument to Int is <= 0'', s)
      else if jitter interval \<noteq> None \<and> done_in_jitter then (Returns (True, []), s)
      else case poll_loop tk es s of (res, s1) \<Rightarrow> (Returns res, s1))"

lemma run_with_recover_state [simp]: "snd (run_with_recover caller fn s) = snd (fn s)"
  by (simp add: run_with_recover_def split: prod.splits outcome.splits)

text \<open>Every tick before the end of \<open>ctx\<close> runs, whether earlier ones panicked or not.\<close>

lemma poll_loop_ticks:
  "snd (poll_loop tk es s) = ((\<lambda>s. snd (tk s)) ^^ length (takeWhile (\<lambda>e. e = TimerFires) es)) s \<and>
   fst (fst (poll_loop tk es s)) = (CtxDone \<in> set es)"
proof (induction tk es s rule: poll_loop.induct)
  case (3 tk es s)
  obtain p s1 where p: "run_with_recover ''poller'' tk s = (p, s1)"
    by (cases "run_with_recover ''poller'' tk s")
  then have "s1 = snd (tk s)" by (metis run_with_recover_state snd_conv)
  with 3 [OF p [symmetric]] p show ?case
    by (auto simp: funpow_Suc_right simp del: funpow.simps split: prod.splits)
qed simp_all

end
