(* ===== verification/ConsumerProps.thy ===== *)
theory ConsumerProps
  imports Consumer
begin

text \<open>
  The properties of the consumer loop: what it hands to the handler, what it commits, how long it waits,
  and that a failed message is lost as soon as a later one of its partition succeeds.
\<close>

subsection \<open>What is asked of Kafka\<close>

text \<open>
  A group's reader on one partition, as kafka-go documents it: \<open>plog\<close> is the partition, \<open>pos\<close> the position of the
  reader and \<open>com\<close> the committed offset of the group.  \<open>FetchMessage\<close> returns the message at the position and moves on,
  whether the message before it was committed or not; \<open>CommitMessages\<close> moves the committed offset past the message,
  and with it past everything before it.  Either may fail; a failed commit may have been applied.
\<close>

definition reader_sound ::
  "'r kafka_reader \<Rightarrow> message list \<Rightarrow> ('r \<Rightarrow> nat) \<Rightarrow> ('r \<Rightarrow> nat) \<Rightarrow> bool" where
  "reader_sound kr plog pos com \<longleftrightarrow>
     (\<forall>i < length plog. m_offset (plog ! i) = int i) \<and>
     (\<forall>r e r1. kr_fetch kr r = (Inl e, r1) \<longrightarrow> pos r1 = pos r \<and> com r1 = com r) \<and>
     (\<forall>r m r1. kr_fetch kr r = (Inr m, r1) \<longrightarrow>
        pos r < length plog \<and> m = plog ! pos r \<and> pos r1 = Suc (pos r) \<and> com r1 = com r) \<and>
     (\<forall>m r res r1. kr_commit kr m r = (res, r1) \<longrightarrow> pos r1 = pos r \<and>
        (com r1 = Suc (nat (m_offset m)) \<or> isl res \<and> com r1 = com r))"

lemma reader_fetchD:
  assumes "reader_sound kr plog pos com" "kr_fetch kr r = (Inr m, r1)"
  shows "pos r < length plog" "m = plog ! pos r" "pos r1 = Suc (pos r)" "com r1 = com r" "m_offset m = int (pos r)"
  using assms unfolding reader_sound_def by blast+

lemma reader_fetch_failD:
  "reader_sound kr plog pos com \<Longrightarrow> kr_fetch kr r = (Inl e, r1) \<Longrightarrow> pos r1 = pos r \<and> com r1 = com r"
  unfolding reader_sound_def by blast

lemma reader_commitD:
  "reader_sound kr plog pos com \<Longrightarrow> kr_commit kr m r = (res, r1) \<Longrightarrow> pos r1 = pos r \<and>
     (com r1 = Suc (nat (m_offset m)) \<or> isl res \<and> com r1 = com r)"
  unfolding reader_sound_def by blast

subsection \<open>What a turn does\<close>

text \<open>
  The messages handed to the handler since the loop started at offset \<open>start\<close> are those from \<open>start\<close> up to the
  position, and the committed offset is at most one past the last message that succeeded.
\<close>

definition consumed_ok ::
  "message list \<Rightarrow> ('r \<Rightarrow> nat) \<Rightarrow> ('r \<Rightarrow> nat) \<Rightarrow> nat \<Rightarrow> ('r, 's) consumer \<Rightarrow> bool" where
  "consumed_ok plog pos com start c \<longleftrightarrow>
     map fst (cs_handled c) = take (pos (cs_reader c) - start) (drop start plog) \<and>
     start \<le> pos (cs_reader c) \<and> pos (cs_reader c) \<le> length plog \<and>
     (com (cs_reader c) = start \<or>
      (\<exists>m. (m, Returns None) \<in> set (cs_handled c) \<and> int (com (cs_reader c)) = m_offset m + 1))"

lemma take_Suc_drop_nth: "start \<le> p \<Longrightarrow> p < length plog \<Longrightarrow>
   take (Suc p - start) (drop start plog) = take (p - start) (drop start plog) @ [plog ! p]"
  by (simp add: Suc_diff_le take_Suc_conv_app_nth)

lemma handle_next_ok:
  assumes rs: "reader_sound kr plog pos com" and ok: "consumed_ok plog pos com start c"
    and run: "handle_next kr h (f, c) = (out, f1, c1)"
  shows "consumed_ok plog pos com start c1 \<and> cs_panics c1 = cs_panics c \<and> cs_waits c1 = cs_waits c"
proof (cases "kr_fetch kr (cs_reader c)")
  case (Pair g r1)
  show ?thesis
  proof (cases g)
    case (Inl e)
    with run ok Pair reader_fetch_failD [OF rs, of "cs_reader c" e r1] show ?thesis
      by (auto simp: handle_next_def consumed_ok_def)
  next
    case (Inr m)
    note got = reader_fetchD [OF rs, of "cs_reader c" m r1]
    obtain res s1 where h: "h (m\<lparr>m_headers := from_kafka_headers (m_headers m)\<rparr>) (cs_service c) = (res, s1)"
      by (cases "h (m\<lparr>m_headers := from_kafka_headers (m_headers m)\<rparr>) (cs_service c)")
    obtain k r2 where k: "kr_commit kr m r1 = (k, r2)" by (cases "kr_commit kr m r1")
    note com = reader_commitD [OF rs k]
    have handed: "consumed_ok plog pos com start
        (c\<lparr>cs_reader := r1, cs_service := s1, cs_handled := cs_handled c @ [(m, res)]\<rparr>)"
      using ok got Pair Inr by (auto simp: consumed_ok_def take_Suc_drop_nth)
    show ?thesis
    proof (cases "res = Returns None")
      case True
      have "consumed_ok plog pos com start
        (c\<lparr>cs_service := s1, cs_handled := cs_handled c @ [(m, res)], cs_reader := r2,
           cs_consumed := cs_consumed c @ [(m_partition m, ''success'')]\<rparr>)"
        using handed com True got Pair Inr by (auto simp: consumed_ok_def)
      with run Pair Inr h k True show ?thesis by (auto simp: handle_next_def Let_def)
    next
      case False
      with run handed Pair Inr h show ?thesis
        by (auto simp: handle_next_def Let_def consumed_ok_def split: outcome.splits option.splits)
    qed
  qed
qed

lemma consumed_ok_log [simp]:
  "consumed_ok plog pos com start (c\<lparr>cs_panics := x\<rparr>) = consumed_ok plog pos com start c"
  "consumed_ok plog pos com start (c\<lparr>cs_waits := y\<rparr>) = consumed_ok plog pos com start c"
  by (simp_all add: consumed_ok_def)

lemma consume_loop_ok:
  assumes rs: "reader_sound kr plog pos com" and "consumed_ok plog pos com start c"
    and "consume_loop kr cfg h ts wait c = (out, c1)"
    and "second \<le> wait" "wait \<le> maxBackoff" "\<forall>w \<in> set (cs_waits c). second \<le> w \<and> w \<le> maxBackoff"
  shows "consumed_ok plog pos com start c1 \<and> (\<forall>w \<in> set (cs_waits c1). second \<le> w \<and> w \<le> maxBackoff)"
  using assms(2-)
proof (induction ts arbitrary: wait c)
  case Nil
  then show ?case by simp
next
  case (Cons t ts)
  obtain oc f1 c1' where n: "handle_next kr h (None, c) = (oc, f1, c1')" by (metis prod_cases3)
  note nx = handle_next_ok [OF rs Cons.prems(1) n]
  show ?case
  proof (cases "tn_done t")
    case True
    with Cons.prems show ?thesis by auto
  next
    case False
    obtain p where p: "run_with_recover (consumerCaller cfg) (handle_next kr h) (None, c) = (p, f1, c1')"
      by (cases oc) (auto simp: run_with_recover_def n)
    let ?c2 = "c1'\<lparr>cs_panics := cs_panics c1' @ (case p of None \<Rightarrow> [] | Some p \<Rightarrow> [p])\<rparr>"
    have c2: "consumed_ok plog pos com start ?c2" "\<forall>w \<in> set (cs_waits ?c2). second \<le> w \<and> w \<le> maxBackoff"
      using nx Cons.prems(5) by simp_all
    have bounds: "second \<le> min (wait * 2) maxBackoff" "min (wait * 2) maxBackoff \<le> maxBackoff" "second \<le> maxBackoff"
      using Cons.prems(3,4) by (simp_all add: second_def maxBackoff_def)
    show ?thesis
    proof (cases f1)
      case None
      with Cons.prems(2) False p have "consume_loop kr cfg h ts second ?c2 = (out, c1)" by simp
      from Cons.IH [OF c2(1) this _ bounds(3) c2(2)] show ?thesis by simp
    next
      case (Some e)
      let ?c3 = "?c2\<lparr>cs_waits := cs_waits ?c2 @ [wait]\<rparr>"
      have c3: "consumed_ok plog pos com start ?c3" "\<forall>w \<in> set (cs_waits ?c3). second \<le> w \<and> w \<le> maxBackoff"
        using c2 Cons.prems(3,4) by simp_all
      from Cons.prems(2) False p Some consider "c1 = ?c2" | "c1 = ?c3"
        | "consume_loop kr cfg h ts (min (wait * 2) maxBackoff) ?c3 = (out, c1)"
        by (simp add: Let_def split: if_splits)
      then show ?thesis
        using c2 c3 Cons.IH [OF c3(1) _ bounds(1,2) c3(2)] by cases auto
    qed
  qed
qed

section \<open>Properties\<close>

lemma consume_ok:
  assumes "reader_sound kr plog pos com" "pos r = com r" "com r \<le> length plog" "consume kr cfg h turns r s = (out, c)"
  shows "consumed_ok plog pos com (com r) c \<and> (\<forall>w \<in> set (cs_waits c). second \<le> w \<and> w \<le> maxBackoff)"
  by (rule consume_loop_ok [OF assms(1) _ assms(4) [unfolded consume_def]])
    (use assms(2,3) in \<open>auto simp: consumed_ok_def second_def maxBackoff_def\<close>)

text \<open>
  C26: A consumer that starts at the committed offset hands the messages of the partition to its handler one by one
  and in order, none left out and none twice; the offset it commits is one past a message that succeeded; and it
  waits between one and ten seconds after a failed fetch.
\<close>
theorem consumer_in_order:
  assumes "reader_sound kr plog pos com" "pos r = com r" "com r \<le> length plog" "consume kr cfg h turns r s = (out, c)"
  shows "map fst (cs_handled c) = take (pos (cs_reader c) - com r) (drop (com r) plog) \<and>
    (com (cs_reader c) = com r \<or>
     (\<exists>m. (m, Returns None) \<in> set (cs_handled c) \<and> int (com (cs_reader c)) = m_offset m + 1)) \<and>
    (\<forall>w \<in> set (cs_waits c). 1000000000 \<le> w \<and> w \<le> 10000000000)"
  using consume_ok [OF assms] unfolding consumed_ok_def by (simp add: second_def maxBackoff_def)

definition quiet_turn :: turn where "quiet_turn = \<lparr>tn_done = False, tn_done_waiting = False\<rparr>"

definition arriving :: "message \<Rightarrow> message" where
  "arriving m = m\<lparr>m_headers := from_kafka_headers (m_headers m)\<rparr>"

lemma handled_beyond:
  assumes "reader_sound kr plog pos com" "pos r = com r" "com r \<le> length plog" "i < com r" "consume kr cfg h turns r s = (out, c)"
  shows "plog ! i \<notin> fst ` set (cs_handled c)"
proof
  assume "plog ! i \<in> fst ` set (cs_handled c)"
  then have "plog ! i \<in> set (map fst (cs_handled c))" by simp
  then have "plog ! i \<in> set (take (pos (cs_reader c) - com r) (drop (com r) plog))"
    using consume_ok [OF assms(1-3,5)] unfolding consumed_ok_def by metis
  then have "plog ! i \<in> set (drop (com r) plog)" by (rule in_set_takeD)
  then obtain k where k: "k < length plog - com r" "plog ! i = plog ! (com r + k)"
    by (auto simp: in_set_conv_nth)
  from assms(1) have off: "\<forall>j < length plog. m_offset (plog ! j) = int j" unfolding reader_sound_def by blast
  have "m_offset (plog ! i) = int i" using off assms(3,4) by simp
  moreover have "m_offset (plog ! (com r + k)) = int (com r + k)" using off k(1) by simp
  ultimately show False using k(2) assms(4) by simp
qed

lemma two_turns:
  assumes rs: "reader_sound kr plog pos com" and start: "pos r = com r"
    and first: "kr_fetch kr r = (Inr m1, r1)" "h (arriving m1) s = (failed, s1)" "failed \<noteq> Returns None"
    and later: "kr_fetch kr r1 = (Inr m2, r2)" "h (arriving m2) s1 = (Returns None, s2)" "kr_commit kr m2 r2 = (Inr u, r3)"
    and run: "consume kr cfg h [quiet_turn, quiet_turn] r s = (out, c)"
  shows "cs_handled c = [(m1, failed), (m2, Returns None)]" "com (cs_reader c) = com r + 2" "cs_service c = s2"
    "plog ! com r = m1" "com r + 2 \<le> length plog"
proof -
  note got1 = reader_fetchD [OF rs first(1)] and got2 = reader_fetchD [OF rs later(1)]
  from run first later have c: "cs_handled c = [(m1, failed), (m2, Returns None)]" "cs_reader c = r3" "cs_service c = s2"
    by (cases failed; auto simp: consume_def quiet_turn_def run_with_recover_def handle_next_def arriving_def Let_def
        split: option.splits)+
  have com: "com r3 = com r + 2"
    using reader_commitD [OF rs later(3)] got1(3) got2(5) start by simp
  show "cs_handled c = [(m1, failed), (m2, Returns None)]" "com (cs_reader c) = com r + 2" "cs_service c = s2"
    "plog ! com r = m1" "com r + 2 \<le> length plog"
    using c com got1(2,3) got2(1) start by simp_all
qed

text \<open>
  A message whose handling failed is lost as soon as the next message of the partition succeeds: the commit of
  the later message covers it, so after a restart no run of the consumer hands it to the handler again, although
  the loop leaves it uncommitted in order to get it redelivered.
\<close>
theorem failed_message_lost:
  assumes rs: "reader_sound kr plog pos com" and start: "pos r = com r"
    and first: "kr_fetch kr r = (Inr m1, r1)" "h (arriving m1) s = (failed, s1)" "failed \<noteq> Returns None"
    and later: "kr_fetch kr r1 = (Inr m2, r2)" "h (arriving m2) s1 = (Returns None, s2)" "kr_commit kr m2 r2 = (Inr u, r3)"
    and run: "consume kr cfg h [quiet_turn, quiet_turn] r s = (out, c)"
  shows "cs_handled c = [(m1, failed), (m2, Returns None)] \<and> com (cs_reader c) = com r + 2 \<and>
    (\<forall>turns r' s' out' c'. pos r' = com r' \<and> com r' = com (cs_reader c) \<longrightarrow>
       consume kr cfg h turns r' s' = (out', c') \<longrightarrow> m1 \<notin> fst ` set (cs_handled c'))"
proof -
  note two = two_turns [OF rs start first later run]
  have "m1 \<notin> fst ` set (cs_handled c')"
    if "pos r' = com r'" "com r' = com (cs_reader c)" "consume kr cfg h turns r' s' = (out', c')" for turns r' s' out' c'
  proof -
    have "com r' \<le> length plog" "com r < com r'" using that(2) two(2,5) by simp_all
    from handled_beyond [OF rs that(1) this that(3)] show ?thesis using two(4) by simp
  qed
  with two show ?thesis by blast
qed

text \<open>
  C18: A consumer ends: once \<open>ctx\<close> is done the loop stops at the start of its next turn, whatever fetches, handlers
  and commits did before, and does nothing after that turn.
\<close>
theorem consumer_stops:
  assumes "tn_done t"
  shows "consume kr cfg h (before @ t # after) r s = (Stopped, snd (consume kr cfg h before r s))"
proof -
  have "consume_loop kr cfg h (before @ t # after) wait c = (Stopped, snd (consume_loop kr cfg h before wait c))" for wait c
    using assms by (induction before arbitrary: wait c) (auto simp: Let_def split: prod.splits option.splits)
  then show ?thesis by (simp add: consume_def)
qed

text \<open>
  A tick that panics does not end the poller: every tick before the end of \<open>ctx\<close> runs, each on the state the
  one before it left, and none after it; an interval that is not positive panics instead.
\<close>
theorem poller_survives_panics:
  "poll interval jitter tk False es s =
     (if interval \<le> 0 then (Panics ''crypto/rand: argument to Int is <= 0'', s)
      else (Returns (CtxDone \<in> set es, snd (fst (poll_loop tk es s))),
            ((\<lambda>s. snd (tk s)) ^^ length (takeWhile (\<lambda>e. e = TimerFires) es)) s))"
  using poll_loop_ticks [of tk es s] by (auto simp: poll_def prod_eq_iff split: prod.splits)

section \<open>Instances\<close>

text \<open>A partition in memory; a state is the position and the committed offset.\<close>

definition mem_kafka :: "message list \<Rightarrow> (nat \<times> nat) kafka_reader" where
  "mem_kafka plog = \<lparr>
     kr_fetch = (\<lambda>(p, c). if p < length plog then (Inr (plog ! p), (Suc p, c)) else (Inl (PlainError ''timeout''), (p, c))),
     kr_commit = (\<lambda>m (p, c). (Inr (), (p, Suc (nat (m_offset m)))))\<rparr>"

lemma mem_kafka_sound:
  assumes "\<And>i. i < length plog \<Longrightarrow> m_offset (plog ! i) = int i"
  shows "reader_sound (mem_kafka plog) plog fst snd"
  using assms by (auto simp: reader_sound_def mem_kafka_def split: if_splits)

definition two_messages :: "message list" where
  "two_messages = map (\<lambda>i. \<lparr>m_topic = ''order-events'', m_partition = 0, m_offset = i, m_key = '''',
     m_value = Garbage '''', m_headers = []\<rparr>) [0, 1]"

lemma two_messages_sound: "reader_sound (mem_kafka two_messages) two_messages fst snd"
  by (rule mem_kafka_sound) (auto simp: two_messages_def less_Suc_eq numeral_2_eq_2)

text \<open>A handler that fails on the first message, and counts the others.\<close>

definition fails_first :: "nat handler" where
  "fails_first m n = (if m_offset m = 0 then (Returns (Some (MySQLError 1205)), n) else (Returns None, Suc n))"

definition sample_config :: consumer_config where
  "sample_config = \<lparr>cf_brokers = [''kafka:9092''], cf_topic = ''order-events'', cf_group = ''inventory''\<rparr>"

lemma consumer_in_order_witness:
  "\<exists>out c. consume (mem_kafka two_messages) sample_config fails_first [quiet_turn] (0, 0) 0 = (out, c) \<and>
    map fst (cs_handled c) = take (fst (cs_reader c)) two_messages"
proof -
  obtain out c where c: "consume (mem_kafka two_messages) sample_config fails_first [quiet_turn] (0, 0) 0 = (out, c)"
    by (cases "consume (mem_kafka two_messages) sample_config fails_first [quiet_turn] (0, 0) 0")
  from consumer_in_order [OF two_messages_sound _ _ c] c show ?thesis by (simp add: two_messages_def)
qed

lemma failed_message_lost_witness:
  "\<exists>out c. consume (mem_kafka two_messages) sample_config fails_first [quiet_turn, quiet_turn] (0, 0) 0 = (out, c) \<and>
    snd (cs_reader c) = 2 \<and> fst ` set (cs_handled c) = set two_messages \<and>
    two_messages ! 0 \<notin> fst ` set (cs_handled (snd (consume (mem_kafka two_messages) sample_config fails_first [quiet_turn] (2, 2) 0)))"
proof -
  let ?c = "consume (mem_kafka two_messages) sample_config fails_first [quiet_turn, quiet_turn] (0, 0) 0"
  let ?d = "consume (mem_kafka two_messages) sample_config fails_first [quiet_turn] (2, 2) 0"
  obtain out c where c: "?c = (out, c)" by (cases ?c)
  obtain out' d where d: "?d = (out', d)" by (cases ?d)
  have turn1: "kr_fetch (mem_kafka two_messages) (0, 0) = (Inr (two_messages ! 0), (1, 0))"
      "fails_first (arriving (two_messages ! 0)) 0 = (Returns (Some (MySQLError 1205)), 0)"
      "Returns (Some (MySQLError 1205)) \<noteq> Returns None"
    and turn2: "kr_fetch (mem_kafka two_messages) (1, 0) = (Inr (two_messages ! 1), (2, 0))"
      "fails_first (arriving (two_messages ! 1)) 0 = (Returns None, 1)"
      "kr_commit (mem_kafka two_messages) (two_messages ! 1) (2, 0) = (Inr (), (2, 2))"
    by (simp_all add: mem_kafka_def two_messages_def fails_first_def arriving_def)
  note lost = failed_message_lost [OF two_messages_sound _ turn1 turn2 c]
  have 1: "cs_handled c = [(two_messages ! 0, Returns (Some (MySQLError 1205))), (two_messages ! 1, Returns None)]"
    "snd (cs_reader c) = 2" using lost by simp_all
  have "fst (2, 2 :: nat) = snd (2, 2 :: nat) \<and> snd (2, 2 :: nat) = snd (cs_reader c)" using 1 by simp
  with lost d have "two_messages ! 0 \<notin> fst ` set (cs_handled d)"
    by (metis fst_conv snd_conv)
  with 1 c d show ?thesis by (auto simp: two_messages_def)
qed

lemma consumer_stops_witness:
  "consume (mem_kafka two_messages) sample_config fails_first
      ([quiet_turn] @ \<lparr>tn_done = True, tn_done_waiting = False\<rparr> # [quiet_turn]) (0, 0) 0 =
    (Stopped, snd (consume (mem_kafka two_messages) sample_config fails_first [quiet_turn] (0, 0) 0))"
  by (rule consumer_stops) simp

end
