(* ===== verification/InventoryProps.thy ===== *)
theory InventoryProps
  imports InventoryConsumer
begin

text \<open>
  Properties of the inventory service on its own; those of the whole saga are in \<open>SagaProps\<close>.
\<close>

lemma reserve_misses_error:
  assumes "sched s = [Runs, Fails f]" "\<not> BugEnabled getenv ''BUG_DB_DEADLOCK''"
  shows "reserve (\<lambda>_. None) ck getenv now oid sku qty s = (Inr 0, s\<lparr>sched := []\<rparr>)"
proof -
  have "errors_is ErrRecordNotFound ErrRecordNotFound" by simp
  then show ?thesis
    using assms unfolding reserve_def reserve_ordered_def find_reservation_by_order_id_def decrement_available_def decrementErr_def
    by (cases "find (\<lambda>r. rv_order_id r = oid) (reservations (biz (db s)))") (simp_all add: run_simps first_row_def)
qed

section \<open>Properties\<close>

text \<open>
  C27: An error of the statement that takes the stock is read as "out of stock".  \<open>decrementErr\<close> asks the transaction
  handle for the error, but GORM leaves an error of a chained call on the handle it returns (\<open>iv_tx_err\<close> gives
  \<open>None\<close>), so \<open>Reserve\<close> reports no affected row and no error: whatever the stock, the
  event is marked as handled, \<open>WithRetry\<close> has nothing to retry, and the order is told that the reservation failed.
\<close>
theorem failed_update_reads_as_out_of_stock:
  assumes "iv_tx_err env = (\<lambda>_. None)" "\<not> BugEnabled (iv_getenv env) ''BUG_DB_DEADLOCK''"
    and event: "header msg ''event_id'' = i" "i \<noteq> ''''" "i \<notin> set (processed d)"
    and created: "unmarshal_envelope (m_value msg) = Inr envl" "env_event envl = OrderCreated"
      "unmarshal_order_created (envelope_data envl) = Inr oc"
    and failed: "inventory_event env ReservationFailed (oc_order_id oc)
      (marshal_reservation_failed \<lparr>rf_order_id = oc_order_id oc, rf_reason = ReasonOutOfStock\<rparr>) = Inr e"
      "\<not> event_id_used (ob_event_id e) (outbox d)"
  shows "exec_tx (handle_order_event env msg :: (inventory_db, 'm, unit) tx) [Runs, Runs, Runs, Fails (MySQLFault n)] d =
    (Inr (), (with_event e d)\<lparr>processed := i # processed d\<rparr>)"
proof -
  have "find (\<lambda>r. r = i) (processed d) = None" using event(3) by (auto simp: find_None_iff)
  moreover have "outbox_insert e \<lparr>db = d, sched = [], wire = [] :: 'm list\<rparr> =
      (Inr (e\<lparr>ob_id := ob_next_id (outbox d)\<rparr>), \<lparr>db = with_event e d, sched = [], wire = []\<rparr>)"
    using failed(2) by (simp add: outbox_insert_def run_simps Let_def event_id_used_def with_event_def insert_row_def)
  moreover have "order_event_attempt env i envl \<lparr>db = d, sched = [Runs, Runs, Runs, Fails (MySQLFault n)], wire = [] :: 'm list\<rparr> =
      (None, \<lparr>db = (with_event e d)\<lparr>processed := i # processed d\<rparr>, sched = [], wire = []\<rparr>)"
    using calculation assms
    by (simp add: order_event_attempt_def process_def find_processed_def create_processed_def order_event_body_def
        handle_order_created_def write_outbox_def run_simps first_row_def reserve_misses_error)
  ultimately show ?thesis
    using event(1,2) created(1)
    by (simp add: exec_tx_def handle_order_event_def WithRetry_def DefaultRetryOptions_def Let_def numeral_3_eq_3)
qed

section \<open>Instances\<close>

definition sample_inventory_env :: inventory_env where
  "sample_inventory_env = \<lparr>iv_getenv = (\<lambda>_. ''''), iv_now = 30, iv_now_text = ''2026-01-31T12:30:06Z'', iv_uuid = ''uuid-2'',
     iv_collation = (\<lambda>s. s), iv_tx_err = (\<lambda>_. None), iv_ctx = (\<lambda>_. None)\<rparr>"

definition full_stock_db :: inventory_db where
  "full_stock_db = \<lparr>biz = \<lparr>products = [\<lparr>p_sku = ''SKU-1'', p_total = 10, p_available = 10\<rparr>],
     reservations = [], next_reservation_id = 1\<rparr>, outbox = \<lparr>ob_rows = [], ob_next_id = 1\<rparr>, processed = []\<rparr>"

lemma failed_update_reads_as_out_of_stock_witness:
  "\<exists>msg d'. header msg ''event_id'' = ''e1'' \<and>
    exec_tx (handle_order_event sample_inventory_env msg :: (inventory_db, nat, unit) tx)
      [Runs, Runs, Runs, Fails (MySQLFault 1205)] full_stock_db = (Inr (), d') \<and>
    map ob_event_type (ob_rows (outbox d')) = [ReservationFailed] \<and> biz d' = biz full_stock_db \<and> processed d' = [''e1'']"
proof -
  obtain j envl where j: "unmarshal_envelope (Doc j) = Inr envl" "env_event envl = OrderCreated"
    "unmarshal_order_created (envelope_data envl) = Inr sample_created"
  proof -
    have "rfc3339 ''2026-01-31T12:30:05Z''" by code_simp
    then obtain j where "marshal_envelope \<lparr>env_event = OrderCreated, env_version = 1, env_occurred_at = ''2026-01-31T12:30:05Z'',
        env_data = marshal_order_created sample_created\<rparr> = Inr j" by (simp add: marshal_envelope_def)
    from unmarshal_marshal_envelope [OF this] remarshal_order_created [of sample_created] that show ?thesis
      by (auto simp: sample_created_def float_exact_def in_int64_def envelope_data_def)
  qed
  define msg where "msg = \<lparr>m_topic = TopicOrderEvents, m_partition = 0, m_offset = 0, m_key = ''7'', m_value = Doc j,
    m_headers = [(''event_id'', ''e1'')]\<rparr>"
  have "rfc3339 ''2026-01-31T12:30:06Z''" by code_simp
  then obtain e where e: "inventory_event sample_inventory_env ReservationFailed (oc_order_id sample_created)
      (marshal_reservation_failed \<lparr>rf_order_id = oc_order_id sample_created, rf_reason = ReasonOutOfStock\<rparr>) = Inr e"
    "ob_event_type e = ReservationFailed"
    by (auto simp: inventory_event_def marshal_envelope_def sample_inventory_env_def)
  have "exec_tx (handle_order_event sample_inventory_env msg :: (inventory_db, nat, unit) tx)
      [Runs, Runs, Runs, Fails (MySQLFault 1205)] full_stock_db =
    (Inr (), (with_event e full_stock_db)\<lparr>processed := ''e1'' # processed full_stock_db\<rparr>)"
    by (rule failed_update_reads_as_out_of_stock [OF _ _ _ _ _ _ j(2,3) e(1)])
      (simp_all add: sample_inventory_env_def BugEnabled_def msg_def header_def full_stock_db_def j(1) event_id_used_def)
  then show ?thesis
    by (intro exI [of _ msg]) (simp add: msg_def header_def e(2) full_stock_db_def insert_row_def)
qed

end
