(* ===== verification/Delivery.thy ===== *)
theory Delivery
  imports ConsumerProps InventoryProps OrderConsumer
begin

text \<open>
  The consumer loop with the handlers of the services: what reaches the data of a service when Kafka delivers a
  partition, delivers it again, or never delivers a message again.  A run of the loop is the run of the handler over the
  messages it was handed (\<open>consume_runs\<close>); the contract a handler has to keep, success marks the event and a
  marked event changes nothing, is the locale \<open>once_only\<close>, and the three handlers of the services interpret it.
\<close>

subsection \<open>A run over messages\<close>

fun run_messages :: "'s handler \<Rightarrow> message list \<Rightarrow> 's \<Rightarrow> go_error option outcome list \<times> 's" where
  "run_messages h [] s = ([], s)"
| "run_messages h (m # ms) s =
     (case h (arriving m) s of (r, s1) \<Rightarrow> (case run_messages h ms s1 of (rs, s2) \<Rightarrow> (r # rs, s2)))"

lemma run_messages_append:
  "run_messages h (ms @ ms2) s =
     (case run_messages h ms s of (rs, s1) \<Rightarrow> (case run_messages h ms2 s1 of (rs2, s2) \<Rightarrow> (rs @ rs2, s2)))"
  by (induction ms arbitrary: s) (simp_all split: prod.splits)

definition runs_so_far :: "'s handler \<Rightarrow> 's \<Rightarrow> ('r, 's) consumer \<Rightarrow> bool" where
  "runs_so_far h s c \<longleftrightarrow> run_messages h (map fst (cs_handled c)) s = (map snd (cs_handled c), cs_service c)"

lemma runs_so_far_log [simp]:
  "runs_so_far h s (c\<lparr>cs_panics := x\<rparr>) = runs_so_far h s c"
  "runs_so_far h s (c\<lparr>cs_waits := y\<rparr>) = runs_so_far h s c"
  by (simp_all add: runs_so_far_def)

lemma handle_next_runs:
  assumes "runs_so_far h s c" "handle_next kr h (f, c) = (out, f1, c1)"
  shows "runs_so_far h s c1"
  using assms
  by (auto simp: handle_next_def runs_so_far_def run_messages_append arriving_def Let_def
      split: prod.splits sum.splits outcome.splits option.splits)

text \<open>What the turns keep and the logs do not matter to, the loop keeps.\<close>

lemma consume_loop_keeps:
  assumes turn: "\<And>f c r f1 c1. I c \<Longrightarrow> handle_next kr h (f, c) = (r, f1, c1) \<Longrightarrow> I c1"
    and logs: "\<And>c x. I c \<Longrightarrow> I (c\<lparr>cs_panics := x\<rparr>)" "\<And>c x. I c \<Longrightarrow> I (c\<lparr>cs_waits := x\<rparr>)"
  shows "I c \<Longrightarrow> consume_loop kr cfg h ts wait c = (out, c1) \<Longrightarrow> I c1"
proof (induction ts arbitrary: wait c)
  case (Cons t ts)
  obtain oc f1 c2 where n: "handle_next kr h (None, c) = (oc, f1, c2)" by (metis prod_cases3)
  obtain p where p: "run_with_recover (consumerCaller cfg) (handle_next kr h) (None, c) = (p, f1, c2)"
    by (cases oc) (auto simp: run_with_recover_def n)
  let ?c2 = "c2\<lparr>cs_panics := cs_panics c2 @ (case p of None \<Rightarrow> [] | Some p \<Rightarrow> [p])\<rparr>"
  let ?c3 = "?c2\<lparr>cs_waits := cs_waits ?c2 @ [wait]\<rparr>"
  have c2: "I ?c2" by (rule logs(1) [OF turn [OF Cons.prems(1) n]])
  have c3: "I ?c3" by (rule logs(2) [OF c2])
  from Cons.prems(2) p consider "c1 = c" | "c1 = ?c2" | "c1 = ?c3"
    | "consume_loop kr cfg h ts (min (wait * 2) maxBackoff) ?c3 = (out, c1)"
    | "consume_loop kr cfg h ts second ?c2 = (out, c1)"
    by (simp add: Let_def split: if_splits option.splits)
  then show ?case using Cons.prems(1) c2 c3 Cons.IH [OF c2] Cons.IH [OF c3] by cases simp_all
qed simp

lemma consume_loop_runs:
  "runs_so_far h s c \<Longrightarrow> consume_loop kr cfg h ts wait c = (out, c1) \<Longrightarrow> runs_so_far h s c1"
  by (rule consume_loop_keeps [where I = "runs_so_far h s"]) (auto intro: handle_next_runs)

text \<open>The loop is the handler, run over the messages it was handed, in that order.\<close>

lemma consume_runs:
  assumes "consume kr cfg h turns r s = (out, c)"
  shows "run_messages h (map fst (cs_handled c)) s = (map snd (cs_handled c), cs_service c)"
proof -
  have "runs_so_far h s c"
    by (rule consume_loop_runs [OF _ assms [unfolded consume_def]]) (simp add: runs_so_far_def)
  then show ?thesis by (simp add: runs_so_far_def)
qed

subsection \<open>Handlers of a service\<close>

text \<open>
  The handlers of the services return an error or nil and do not panic.  \<open>f\<close> may take what it needs from outside
  (clock, UUID) from the message: each delivery has its own.
\<close>

definition consumer_of :: "(message \<Rightarrow> ('db, 'm, unit) tx) \<Rightarrow> ('db, 'm) session handler" where
  "consumer_of f m s = (case f m s of (Inl err, s1) \<Rightarrow> (Returns (Some err), s1) | (Inr _, s1) \<Rightarrow> (Returns None, s1))"

lemma consumer_of_run:
  "f m s = (r, s1) \<Longrightarrow> consumer_of f m s = (case r of Inl err \<Rightarrow> Returns (Some err) | Inr _ \<Rightarrow> Returns None, s1)"
  by (simp add: consumer_of_def split: sum.splits)

abbreviation event_of :: "message \<Rightarrow> string" where
  "event_of m \<equiv> header (arriving m) ''event_id''"

text \<open>
  The contract.  On data that are in order (\<open>ok\<close>) and messages that are (\<open>good\<close>): a delivery keeps the data in
  order and forgets no event, a success marks the event (a message without an id is skipped), and a delivery of an event
  that is marked, or of none, changes nothing.
\<close>

definition repeats_nothing :: "(message \<Rightarrow> ('d svc_db, 'm, unit) tx) \<Rightarrow> bool" where
  "repeats_nothing f \<longleftrightarrow> (\<forall>m d w. header m ''event_id'' = '''' \<or> was_processed d (header m ''event_id'') \<longrightarrow>
     holds (f m) d w (\<lambda>r d' _. d' = d))"

lemma run_again:
  assumes f: "repeats_nothing f"
    and "run_messages (consumer_of f) ms s = (rs, s1)" "\<forall>m \<in> set ms. event_of m = '''' \<or> was_processed (db s) (event_of m)"
  shows "db s1 = db s"
  using assms(2-)
proof (induction ms arbitrary: s rs)
  case (Cons m ms)
  obtain r s0 where r: "f (arriving m) s = (r, s0)" by (cases "f (arriving m) s")
  obtain rs1 where rest: "run_messages (consumer_of f) ms s0 = (rs1, s1)"
    using Cons.prems(1) consumer_of_run [of f, OF r] by (auto split: prod.splits)
  from Cons.prems(2) f have "holds (f (arriving m)) (db s) (wire s) (\<lambda>r d' _. d' = db s)"
    unfolding repeats_nothing_def by auto
  from holds_sessionD [OF this r refl refl] have "db s0 = db s" .
  with Cons.IH [OF rest] Cons.prems(2) show ?case by simp
qed simp

locale once_only =
  fixes f :: "message \<Rightarrow> ('d svc_db, 'm, unit) tx"
    and ok :: "'d svc_db \<Rightarrow> bool"
    and good :: "message \<Rightarrow> bool"
  assumes keeps: "ok d \<Longrightarrow> good m \<Longrightarrow> holds (f m) d w (\<lambda>r d' _. ok d' \<and> (\<forall>i. was_processed d i \<longrightarrow> was_processed d' i))"
    and marks: "ok d \<Longrightarrow> good m \<Longrightarrow> holds (f m) d w (\<lambda>r d' _.
        r = Inr () \<longrightarrow> header m ''event_id'' = '''' \<or> was_processed d' (header m ''event_id''))"
    and again: "repeats_nothing f"
begin

lemma run_marks:
  assumes "run_messages (consumer_of f) ms s = (rs, s1)" "ok (db s)" "\<forall>m \<in> set ms. good (arriving m)"
  shows "ok (db s1) \<and> (\<forall>i. was_processed (db s) i \<longrightarrow> was_processed (db s1) i) \<and>
    ((\<forall>x \<in> set rs. x = Returns None) \<longrightarrow> (\<forall>m \<in> set ms. event_of m = '''' \<or> was_processed (db s1) (event_of m)))"
  using assms
proof (induction ms arbitrary: s rs)
  case (Cons m ms)
  obtain r s0 where r: "f (arriving m) s = (r, s0)" by (cases "f (arriving m) s")
  note one = consumer_of_run [of f, OF r]
  obtain rs1 where rest: "run_messages (consumer_of f) ms s0 = (rs1, s1)" "rs = fst (consumer_of f (arriving m) s) # rs1"
    using Cons.prems(1) one by (auto split: prod.splits)
  have good: "good (arriving m)" using Cons.prems(3) by simp
  from holds_sessionD [OF keeps [OF Cons.prems(2) good] r refl refl]
  have kept: "ok (db s0)" "\<forall>i. was_processed (db s) i \<longrightarrow> was_processed (db s0) i" by auto
  from holds_sessionD [OF marks [OF Cons.prems(2) good] r refl refl]
  have marked: "r = Inr () \<Longrightarrow> event_of m = '''' \<or> was_processed (db s0) (event_of m)" by simp
  have head: "fst (consumer_of f (arriving m) s) = Returns None \<Longrightarrow> r = Inr ()"
    using one by (simp split: sum.splits)
  from Cons.IH [OF rest(1) kept(1)] Cons.prems(3) kept marked head rest(2) show ?case by auto
qed simp

text \<open>
  Two runs of the loop: the second, over messages the first has handled and perhaps with another clock and other UUIDs
  (\<open>f2\<close>), finds nothing to do.
\<close>

lemma second_run:
  assumes first: "consume kr cfg (consumer_of f) turns r s = (out, c)" "\<forall>x \<in> set (cs_handled c). snd x = Returns None"
    and "ok (db s)" "\<forall>x \<in> set (cs_handled c). good (arriving (fst x))" "db s2 = db (cs_service c)"
    and second: "consume kr2 cfg2 (consumer_of f2) turns2 r2 s2 = (out2, c2)" "repeats_nothing f2"
      "fst ` set (cs_handled c2) \<subseteq> fst ` set (cs_handled c)"
  shows "db (cs_service c2) = db (cs_service c)"
proof -
  from run_marks [OF consume_runs [OF first(1)] assms(3)] first(2) assms(4)
  have "\<forall>m \<in> fst ` set (cs_handled c). event_of m = '''' \<or> was_processed (db (cs_service c)) (event_of m)" by auto
  then have "\<forall>m \<in> fst ` set (cs_handled c2). event_of m = '''' \<or> was_processed (db s2) (event_of m)"
    using second(3) unfolding assms(5) by blast
  then have "\<forall>m \<in> set (map fst (cs_handled c2)). event_of m = '''' \<or> was_processed (db s2) (event_of m)"
    by simp
  from run_again [OF second(2) consume_runs [OF second(1)] this] assms(5) show ?thesis by simp
qed

end

subsection \<open>The handlers of the services\<close>

text \<open>A success of \<open>Process\<close> leaves the event marked, and a marked event is left alone.\<close>

lemma process_marks: "holds (process i fn) d w (\<lambda>r d' _. (\<exists>b. r = Inr b) \<longrightarrow> was_processed d' i)"
  by (rule holds_process)
    (auto simp: holds_def process_dedup.seen_mark split: sum.splits)

lemma process_seen: "was_processed d i \<Longrightarrow> holds (process i fn) d w (\<lambda>r d' _. d' = d)"
  by (rule holds_conseq [OF process_dedup.proc_seen]) auto

definition in_collation :: "collation \<Rightarrow> inventory_env \<Rightarrow> inventory_env" where
  "in_collation ck env = env\<lparr>iv_collation := ck\<rparr>"

lemma iv_collation_in [simp]: "iv_collation (in_collation ck env) = ck"
  by (simp add: in_collation_def)

text \<open>The inventory service: a database has one collation, a delivery its own clock, UUID and context.\<close>

abbreviation on_order_event :: "collation \<Rightarrow> (message \<Rightarrow> inventory_env) \<Rightarrow> message \<Rightarrow> (inventory_db, 'm, unit) tx" where
  "on_order_event ck env m \<equiv> handle_order_event (in_collation ck (env m)) m"

lemma order_event_marks:
  assumes "handle_order_event env m s = (Inr (), s')"
  shows "header m ''event_id'' = '''' \<or> was_processed (db s') (header m ''event_id'')"
proof (rule disjCI)
  let ?i = "header m ''event_id''"
  assume "\<not> was_processed (db s') ?i"
  show "?i = ''''"
  proof (rule ccontr)
    assume i: "?i \<noteq> ''''"
    with assms obtain envl ms where run: "WithRetry [] (iv_ctx env) (order_event_attempt env ?i envl) s = (None, s', ms)"
      by (auto simp: handle_order_event_def Let_def split: sum.splits prod.splits option.splits)
    then have "retry_loop (iv_ctx env) (order_event_attempt env ?i envl) (Suc 2) 1 None s = (None, s', ms)"
      by (simp add: WithRetry_def DefaultRetryOptions_def numeral_3_eq_3 numeral_2_eq_2)
    from retry_loop_last [OF this] obtain s0 where "order_event_attempt env ?i envl s0 = (None, s')" by auto
    then obtain b where "process ?i (order_event_body env envl) s0 = (Inr b, s')"
      by (auto simp: order_event_attempt_def split: prod.splits sum.splits)
    from holds_sessionD [OF process_marks this refl refl] \<open>\<not> was_processed (db s') ?i\<close> show False by simp
  qed
qed

lemma order_event_again: "repeats_nothing (on_order_event ck env)"
  unfolding repeats_nothing_def
proof (intro allI impI)
  fix m and d :: inventory_db and w :: "'m list"
  let ?i = "header m ''event_id''" and ?e = "in_collation ck (env m)"
  assume seen: "?i = '''' \<or> was_processed d ?i"
  show "holds (handle_order_event ?e m) d w (\<lambda>r d' _. d' = d)"
    unfolding holds_def
  proof (intro allI, clarify)
    fix rs r s'
    let ?s = "\<lparr>db = d, sched = rs, wire = w\<rparr>"
    assume run: "handle_order_event ?e m ?s = (r, s')"
    show "db s' = d"
    proof (cases "?i = '''' \<or> (\<exists>e. unmarshal_envelope (m_value m) = Inl e)")
      case True
      with run show ?thesis by (auto simp: handle_order_event_def Let_def split: if_splits)
    next
      case False
      with run obtain envl r1 ms
        where l: "WithRetry [] (iv_ctx ?e) (order_event_attempt ?e ?i envl) ?s = (r1, s', ms)"
        by (auto simp: handle_order_event_def Let_def split: sum.splits prod.splits option.splits)
      show ?thesis
      proof (rule WithRetry_inv [where I = "\<lambda>s. db s = d", OF _ _ l])
        fix s r s' assume "db s = d" "order_event_attempt ?e ?i envl s = (r, s')"
        then obtain r2 where "process ?i (order_event_body ?e envl) s = (r2, s')"
          by (auto simp: order_event_attempt_def split: prod.splits sum.splits)
        from holds_sessionD [OF process_seen this \<open>db s = d\<close> refl] seen False show "db s' = d" by simp
      qed simp
    qed
  qed
qed

lemma order_event_keeps:
  assumes "stock_ok ck d" "message_quantity_ok m"
  shows "holds (on_order_event ck env m) d w (\<lambda>r d' _. stock_ok ck d' \<and> (\<forall>i. was_processed d i \<longrightarrow> was_processed d' i))"
proof (rule holds_conseq [OF holds_handle_order_event])
  show "stock_ok (iv_collation (in_collation ck (env m))) d" using assms(1) by simp
next
  fix r :: "go_error + unit" and d' and w' :: "'a list"
  assume "w' = w \<and> order_message_effect (in_collation ck (env m)) m d d'"
  then have eff: "order_message_effect (in_collation ck (env m)) m d d'" by simp
  then have "\<forall>i. was_processed d i \<longrightarrow> was_processed d' i"
    by (auto simp: order_message_effect_def process_dedup.seen_mark dest!: order_event_effect_processed)
  with stock_ok_message [OF _ assms(2) eff] assms(1)
  show "stock_ok ck d' \<and> (\<forall>i. was_processed d i \<longrightarrow> was_processed d' i)" by simp
qed

interpretation order_events: once_only "on_order_event ck env" "stock_ok ck" message_quantity_ok for ck env
proof unfold_locales
  fix d :: inventory_db and m and w :: "'a list"
  assume ok: "stock_ok ck d" "message_quantity_ok m"
  show "holds (on_order_event ck env m) d w (\<lambda>r d' _. stock_ok ck d' \<and> (\<forall>i. was_processed d i \<longrightarrow> was_processed d' i))"
    by (rule order_event_keeps [OF ok])
  show "holds (on_order_event ck env m) d w (\<lambda>r d' _. r = Inr () \<longrightarrow>
      header m ''event_id'' = '''' \<or> was_processed d' (header m ''event_id''))"
    unfolding holds_def by (auto dest: order_event_marks)
qed (rule order_event_again)

text \<open>The order service's two handlers, which run \<open>Process\<close> without the retry loop.\<close>

abbreviation on_inventory_event :: "(message \<Rightarrow> order_env) \<Rightarrow> message \<Rightarrow> (order_db, 'm, unit) tx" where
  "on_inventory_event env m \<equiv> handle_inventory_event (env m) m"

lemma orders_ok_inventory_message:
  assumes "orders_ok d" "inventory_message_effect env m d d'"
  shows "orders_ok d'"
proof -
  have cancelled: "orders_ok (put_order i (set_cancelled reason now) d)" for i reason now
    by (rule orders_ok_put_order [OF assms(1)]) simp
  have biz: "biz d2 = biz d1 \<Longrightarrow> orders_ok d1 \<Longrightarrow> orders_ok d2" for d1 d2 by (simp add: orders_ok_def)
  have "orders_ok d1" if "inventory_event_effect env envl d d1" for envl d1
    using that assms(1) biz [OF _ cancelled] by (auto simp: inventory_event_effect_def order_cancelled_by_def)
  with assms biz [of "mark_processed _ _"] show ?thesis
    by (auto simp: inventory_message_effect_def)
qed

lemma inventory_message_grows:
  "inventory_message_effect env m d d' \<Longrightarrow> was_processed d i \<Longrightarrow> was_processed d' i"
  by (auto simp: inventory_message_effect_def process_dedup.seen_mark dest!: inventory_event_effect_processed)

lemma holds_inventory_event_via:
  assumes "\<And>e. Q (Inl e) d w" "header m ''event_id'' = '''' \<Longrightarrow> Q (Inr ()) d w"
    and "\<And>fn. header m ''event_id'' \<noteq> '''' \<Longrightarrow> holds (process (header m ''event_id'') fn) d w
      (\<lambda>r d' w'. case r of Inl e \<Rightarrow> Q (Inl e) d' w' | Inr b \<Rightarrow> Q (Inr ()) d' w')"
  shows "holds (handle_inventory_event env m) d w Q"
  unfolding handle_inventory_event_def Let_def
  by (intro holds_if holds_case_sum holds_throw holds_ret holds_bind)
    (auto intro: assms holds_conseq [OF assms(3)] intro!: holds_ret split: sum.splits)

lemma inventory_event_marks:
  "holds (handle_inventory_event env m) d w (\<lambda>r d' _. r = Inr () \<longrightarrow>
     header m ''event_id'' = '''' \<or> was_processed d' (header m ''event_id''))"
  by (rule holds_inventory_event_via, simp, simp, rule holds_conseq [OF process_marks]) (auto split: sum.splits)

lemma inventory_event_again: "repeats_nothing (on_inventory_event env)"
  unfolding repeats_nothing_def
  by (intro allI impI, rule holds_inventory_event_via, simp, simp, rule holds_conseq [OF process_seen])
    (auto split: sum.splits)

interpretation inventory_events: once_only "on_inventory_event env" orders_ok "\<lambda>_. True" for env
proof unfold_locales
  fix d :: order_db and m and w :: "'a list"
  assume ok: "orders_ok d"
  show "holds (on_inventory_event env m) d w (\<lambda>r d' _. orders_ok d' \<and> (\<forall>i. was_processed d i \<longrightarrow> was_processed d' i))"
    by (rule holds_conseq [OF holds_handle_inventory_event [OF ok]])
      (auto intro: orders_ok_inventory_message [OF ok] inventory_message_grows)
qed (rule inventory_event_marks inventory_event_again)+

text \<open>Does the message cancel order \<open>oid\<close>?\<close>

definition cancels :: "nat \<Rightarrow> message \<Rightarrow> bool" where
  "cancels oid m = (case unmarshal_envelope (m_value m) of
     Inl err \<Rightarrow> False
   | Inr envl \<Rightarrow> env_event envl = OrderCancelled \<and> (case unmarshal_order_cancelled (envelope_data envl) of
       Inl err \<Rightarrow> False | Inr ox \<Rightarrow> ox_order_id ox = oid))"

text \<open>Stock held for an order stays held through every message that does not cancel the order.\<close>

lemma order_event_still_held:
  assumes "order_event_effect env envl d d'" "\<not> not_held oid d"
    and other: "\<And>ox. env_event envl = OrderCancelled \<Longrightarrow> unmarshal_order_cancelled (envelope_data envl) = Inr ox \<Longrightarrow> ox_order_id ox \<noteq> oid"
  shows "\<not> not_held oid d'"
proof -
  obtain r where r: "r \<in> set (reservations (biz d))" "rv_order_id r = oid" "rv_status r = ReservationStatusReserved"
    using assms(2) by (auto simp: not_held_def)
  have stays: "r \<in> set (reservations (biz d'))" if "released_by ck i d d'" "i \<noteq> oid" for ck i
    using that r by (auto simp: released_by_def add_available_def)
  have grows: "r \<in> set (reservations (biz d'))" if "created_effect env oc d d'" for oc
    using that r by (auto simp: created_effect_def reserved_by_def add_reservation_def add_available_def)
  have "r \<in> set (reservations (biz d'))"
    using assms(1) r(1) other by (auto simp: order_event_effect_def intro: stays grows split: if_splits)
  with r(2,3) show ?thesis by (auto simp: not_held_def)
qed

lemma message_still_held:
  assumes "order_message_effect env m d d'" "\<not> not_held oid d" "\<not> cancels oid m"
  shows "\<not> not_held oid d'"
proof -
  consider "d' = d" | envl d1 where "unmarshal_envelope (m_value m) = Inr envl" "order_event_effect env envl d d1"
      "d' = mark_processed (header m ''event_id'') d1"
    using assms(1) by (auto simp: order_message_effect_def)
  then show ?thesis
  proof cases
    case 2
    have "\<not> not_held oid d1"
      by (rule order_event_still_held [OF 2(2) assms(2)]) (use assms(3) 2(1) in \<open>simp add: cancels_def\<close>)
    with 2(3) show ?thesis by (simp add: not_held_def)
  qed (use assms(2) in simp)
qed

interpretation held_stock: once_only "on_order_event ck env" "\<lambda>d. stock_ok ck d \<and> \<not> not_held oid d"
    "\<lambda>m. message_quantity_ok m \<and> \<not> cancels oid m" for ck env oid
proof unfold_locales
  fix d :: inventory_db and m and w :: "'a list"
  assume ok: "stock_ok ck d \<and> \<not> not_held oid d" "message_quantity_ok m \<and> \<not> cancels oid m"
  have "holds (on_order_event ck env m) d w (\<lambda>r d' _. \<not> not_held oid d')"
    by (rule holds_conseq [OF holds_handle_order_event]) (use ok message_still_held in auto)
  from holds_conj [OF order_event_keeps [of ck d m env w] this] ok
  show "holds (on_order_event ck env m) d w (\<lambda>r d' _. (stock_ok ck d' \<and> \<not> not_held oid d') \<and>
      (\<forall>i. was_processed d i \<longrightarrow> was_processed d' i))"
    by (auto elim: holds_conseq)
  show "holds (on_order_event ck env m) d w (\<lambda>r d' _. r = Inr () \<longrightarrow>
      header m ''event_id'' = '''' \<or> was_processed d' (header m ''event_id''))"
    unfolding holds_def by (auto dest: order_event_marks)
qed (rule order_event_again)

section \<open>Properties\<close>

lemma arriving_value [simp]: "m_value (arriving m) = m_value m"
  by (simp add: arriving_def)

lemma message_quantity_ok_arriving [simp]: "message_quantity_ok (arriving m) = message_quantity_ok m"
  by (simp add: message_quantity_ok_def)

lemma cancels_arriving [simp]: "cancels oid (arriving m) = cancels oid m"
  by (simp add: cancels_def)

text \<open>
  C35: Redelivery does no harm.  When a run of the inventory service's consumer handled messages successfully, any later
  run that is handed some of them again (after a crash before the commit, a rebalancing, a reset of the offset), in
  any order, with another clock and other UUIDs and whatever the database replies, leaves the data as the first run did.
\<close>
theorem redelivered_partition:
  assumes "consume kr cfg (consumer_of (\<lambda>m. handle_order_event (in_collation ck (env m)) m)) turns r s = (out, c)"
    and "\<forall>x \<in> set (cs_handled c). snd x = Returns None \<and> message_quantity_ok (fst x)" "stock_ok ck (db s)"
    and "consume kr2 cfg2 (consumer_of (\<lambda>m. handle_order_event (in_collation ck (env2 m)) m)) turns2 r2 s2 = (out2, c2)"
    and "db s2 = db (cs_service c)" "fst ` set (cs_handled c2) \<subseteq> fst ` set (cs_handled c)"
  shows "db (cs_service c2) = db (cs_service c)"
  by (rule order_events.second_run [OF assms(1) _ assms(3) _ assms(5,4) order_event_again assms(6)])
    (use assms(2) in auto)

text \<open>
  C36: A cancellation can be lost.  When the handling of an \<open>order.cancelled\<close> message fails and the next message of the
  partition succeeds, the stock held for the order stays held: no later run of the consumer from the committed offset
  releases it, unless the partition has another cancellation of the same order.
\<close>
theorem cancellation_lost:
  fixes h h2 :: "(inventory_db, 'm) session handler"
  assumes rs: "reader_sound kr plog pos com" and start: "pos r = com r"
    and h: "h = consumer_of (\<lambda>m. handle_order_event (in_collation ck (env m)) m)"
    and h2: "h2 = consumer_of (\<lambda>m. handle_order_event (in_collation ck (env2 m)) m)"
    and first: "kr_fetch kr r = (Inr m1, r1)" "h (arriving m1) s = (Returns (Some err), s1)"
    and later: "kr_fetch kr r1 = (Inr m2, r2)" "h (arriving m2) s1 = (Returns None, s2)" "kr_commit kr m2 r2 = (Inr u, r3)"
    and run: "consume kr cfg h [quiet_turn, quiet_turn] r s = (out, c)"
    and held: "stock_ok ck (db s2)" "\<not> not_held oid (db s2)"
    and only: "\<forall>m \<in> set plog. message_quantity_ok m \<and> (cancels oid m \<longrightarrow> m = m1)"
    and again: "pos r' = com r'" "com r' = com (cs_reader c)" "db s' = db (cs_service c)" "consume kr cfg h2 turns r' s' = (out', c')"
  shows "cs_handled c = [(m1, Returns (Some err)), (m2, Returns None)] \<and> \<not> not_held oid (db (cs_service c'))"
proof -
  note two = two_turns [OF rs start first _ later run]
  have beyond: "com r' \<le> length plog" "com r < com r'" using again(2) two(2,5) by simp_all
  have "m1 \<notin> fst ` set (cs_handled c')"
    using handled_beyond [OF rs again(1) beyond again(4)] two(4) by simp
  moreover have "fst ` set (cs_handled c') \<subseteq> set plog"
    using consume_ok [OF rs again(1) beyond(1) again(4)] unfolding consumed_ok_def
    by (metis dual_order.trans list.set_map set_drop_subset set_take_subset)
  ultimately have "\<forall>m \<in> set (map fst (cs_handled c')). message_quantity_ok m \<and> \<not> cancels oid m"
    using only by fastforce
  then have good: "\<forall>m \<in> set (map fst (cs_handled c')). message_quantity_ok (arriving m) \<and> \<not> cancels oid (arriving m)"
    by simp
  have "stock_ok ck (db s') \<and> \<not> not_held oid (db s')" using held again(3) two(3) by simp
  from held_stock.run_marks [OF consume_runs [OF again(4) [unfolded h2]] this good] two(1) show ?thesis by blast
qed

section \<open>Instances\<close>

definition cancel_message :: "int \<Rightarrow> string \<Rightarrow> nat \<Rightarrow> message" where
  "cancel_message off i oid = \<lparr>m_topic = ''order-events'', m_partition = 0, m_offset = off, m_key = '''',
     m_value = Doc (JObj [(''event'', JStr OrderCancelled), (''version'', JInt 1),
       (''occurred_at'', JStr ''2026-01-31T12:30:05Z''),
       (''data'', marshal_order_cancelled \<lparr>ox_order_id = oid, ox_sku = ''SKU-1'', ox_quantity = 2, ox_reason = ''''\<rparr>)]),
     m_headers = [(''event_id'', i)]\<rparr>"

lemma cancel_message_reads:
  assumes "float_exact (int oid)"
  shows "\<exists>envl ox. unmarshal_envelope (m_value (cancel_message off i oid)) = Inr envl \<and> env_event envl = OrderCancelled \<and>
    unmarshal_order_cancelled (envelope_data envl) = Inr ox \<and> ox_order_id ox = oid"
proof -
  have "rfc3339 ''2026-01-31T12:30:05Z''" by code_simp
  then have "marshal_envelope \<lparr>env_event = OrderCancelled, env_version = 1, env_occurred_at = ''2026-01-31T12:30:05Z'',
      env_data = marshal_order_cancelled \<lparr>ox_order_id = oid, ox_sku = ''SKU-1'', ox_quantity = 2, ox_reason = ''''\<rparr>\<rparr> =
      Inr (JObj [(''event'', JStr OrderCancelled), (''version'', JInt 1), (''occurred_at'', JStr ''2026-01-31T12:30:05Z''),
        (''data'', marshal_order_cancelled \<lparr>ox_order_id = oid, ox_sku = ''SKU-1'', ox_quantity = 2, ox_reason = ''''\<rparr>)])"
    by (simp add: marshal_envelope_def)
  from unmarshal_marshal_envelope [OF this] assms
    remarshal_order_cancelled [of "\<lparr>ox_order_id = oid, ox_sku = ''SKU-1'', ox_quantity = 2, ox_reason = ''''\<rparr>"]
  show ?thesis by (simp add: cancel_message_def in_int64_def envelope_data_def float_exact_def)
qed

lemma cancel_message_event [simp]:
  "header (arriving (cancel_message off i oid)) ''event_id'' = i" "m_offset (cancel_message off i oid) = off"
  by (simp_all add: cancel_message_def arriving_def from_kafka_headers_def header_def)

lemma cancel_message_good:
  assumes "float_exact (int oid)"
  shows "message_quantity_ok (cancel_message off i oid)" "cancels j (cancel_message off i oid) \<longleftrightarrow> oid = j"
  using cancel_message_reads [OF assms, of off i] by (auto simp: message_quantity_ok_def cancels_def)

text \<open>Two pens are held for order 7.\<close>

definition held_stock_db :: inventory_db where
  "held_stock_db = \<lparr>biz = \<lparr>products = [\<lparr>p_sku = ''SKU-1'', p_total = 10, p_available = 8\<rparr>],
     reservations = [\<lparr>rv_id = 1, rv_order_id = 7, rv_sku = ''SKU-1'', rv_quantity = 2,
       rv_status = ReservationStatusReserved, rv_created_at = 20\<rparr>], next_reservation_id = 2\<rparr>,
     outbox = \<lparr>ob_rows = [], ob_next_id = 1\<rparr>, processed = []\<rparr>"

definition clerk :: "(inventory_db, nat) session handler" where
  "clerk = consumer_of (\<lambda>m. handle_order_event (in_collation (\<lambda>s. s) sample_inventory_env) m)"

lemma held_stock_db_ok: "stock_ok (\<lambda>s. s) held_stock_db" "\<not> not_held 7 held_stock_db"
  by (simp_all add: stock_ok_def not_held_def held_stock_db_def held_def ReservationStatusActive_def)

lemma clerk_outage:
  assumes "i \<noteq> ''''" "float_exact (int oid)"
  shows "clerk (arriving (cancel_message off i oid)) \<lparr>db = d, sched = Fails (ConnFault ''gone'') # rs, wire = w\<rparr> =
    (Returns (Some (PlainError ''gone'')), \<lparr>db = d, sched = rs, wire = w\<rparr>)"
  using cancel_message_reads [OF assms(2), of off i] assms(1)
  by (auto simp: clerk_def consumer_of_def handle_order_event_def Let_def WithRetry_def DefaultRetryOptions_def numeral_3_eq_3
      order_event_attempt_def process_def transaction_def next_reply_def IsDeadlock_def)

lemma clerk_nothing_held:
  assumes "i \<noteq> ''''" "float_exact (int oid)" "i \<notin> set (processed d)" "\<forall>r \<in> set (reservations (biz d)). rv_order_id r \<noteq> oid"
  shows "clerk (arriving (cancel_message off i oid)) \<lparr>db = d, sched = [], wire = w\<rparr> =
    (Returns None, \<lparr>db = mark_processed i d, sched = [], wire = w\<rparr>)"
proof -
  have "find (\<lambda>r. rv_order_id r = oid) (reservations (biz d)) = None" "find (\<lambda>r. r = i) (processed d) = None"
    using assms(3,4) by (auto simp: find_None_iff)
  with cancel_message_reads [OF assms(2), of off i] assms(1,3) show ?thesis
    by (auto simp: clerk_def consumer_of_def handle_order_event_def Let_def WithRetry_def DefaultRetryOptions_def numeral_3_eq_3
        order_event_attempt_def process_def find_processed_def create_processed_def order_event_body_def
        handle_order_cancelled_def release_def find_reservation_by_order_id_def run_simps first_row_def mark_processed_def)
qed

lemma clerk_releases:
  "\<exists>d. clerk (arriving (cancel_message off ''e1'' 7)) \<lparr>db = held_stock_db, sched = [], wire = w\<rparr> =
      (Returns None, \<lparr>db = d, sched = [], wire = w\<rparr>) \<and> products (biz d) = [\<lparr>p_sku = ''SKU-1'', p_total = 10, p_available = 10\<rparr>]"
proof -
  have "float_exact (int 7)" by (simp add: float_exact_def)
  from cancel_message_reads [OF this, of off "''e1''"] show ?thesis
    by (auto simp: clerk_def consumer_of_def handle_order_event_def Let_def WithRetry_def DefaultRetryOptions_def numeral_3_eq_3
        order_event_attempt_def process_def find_processed_def create_processed_def order_event_body_def
        handle_order_cancelled_def release_def find_reservation_by_order_id_def run_simps first_row_def held_stock_db_def
        in_collation_def sample_inventory_env_def BugEnabled_def update_available_def update_rows_def int_column_def)
qed

lemma mem_kafka_list:
  "\<forall>i < length plog. m_offset (plog ! i) = int i \<Longrightarrow> reader_sound (mem_kafka plog) plog fst snd"
  by (rule mem_kafka_sound) blast

lemma redelivered_partition_witness:
  "\<exists>out c out2 c2. consume (mem_kafka [cancel_message 0 ''e1'' 7]) sample_config clerk [quiet_turn] (0, 0)
      \<lparr>db = held_stock_db, sched = [], wire = []\<rparr> = (out, c) \<and> map p_available (products (biz (db (cs_service c)))) = [10] \<and>
    consume (mem_kafka [cancel_message 0 ''e1'' 7]) sample_config clerk [quiet_turn] (0, 0) (cs_service c) = (out2, c2) \<and>
    db (cs_service c2) = db (cs_service c)"
proof -
  let ?kr = "mem_kafka [cancel_message 0 ''e1'' 7]" and ?s = "\<lparr>db = held_stock_db, sched = [], wire = [] :: nat list\<rparr>"
  have 7: "float_exact (int 7)" by (simp add: float_exact_def)
  have sound: "reader_sound ?kr [cancel_message 0 ''e1'' 7] fst snd" by (rule mem_kafka_list) simp
  obtain d where d: "clerk (arriving (cancel_message 0 ''e1'' 7)) ?s = (Returns None, \<lparr>db = d, sched = [], wire = []\<rparr>)"
    "products (biz d) = [\<lparr>p_sku = ''SKU-1'', p_total = 10, p_available = 10\<rparr>]" using clerk_releases [of 0 "[]"] by blast
  obtain out c where c: "consume ?kr sample_config clerk [quiet_turn] (0, 0) ?s = (out, c)" by (cases "consume ?kr sample_config clerk [quiet_turn] (0, 0) ?s")
  obtain out2 c2 where c2: "consume ?kr sample_config clerk [quiet_turn] (0, 0) (cs_service c) = (out2, c2)"
    by (cases "consume ?kr sample_config clerk [quiet_turn] (0, 0) (cs_service c)")
  have handled: "cs_handled c = [(cancel_message 0 ''e1'' 7, Returns None)]" "db (cs_service c) = d"
    using c d(1) by (auto simp: consume_def quiet_turn_def run_with_recover_def handle_next_def Let_def mem_kafka_def arriving_def)
  have "map fst (cs_handled c2) = take (fst (cs_reader c2)) [cancel_message 0 ''e1'' 7]"
    using consume_ok [OF sound _ _ c2] by (simp add: consumed_ok_def)
  then have "set (map fst (cs_handled c2)) \<subseteq> set [cancel_message 0 ''e1'' 7]" by (metis set_take_subset)
  then have "fst ` set (cs_handled c2) \<subseteq> fst ` set (cs_handled c)" by (simp add: handled)
  from redelivered_partition [OF c [unfolded clerk_def] _ _ c2 [unfolded clerk_def] refl this]
  have "db (cs_service c2) = db (cs_service c)" using handled held_stock_db_ok cancel_message_good [OF 7] by simp
  with c c2 d(2) handled show ?thesis by auto
qed

lemma cancellation_lost_witness:
  "\<exists>out c out' c'. consume (mem_kafka [cancel_message 0 ''e1'' 7, cancel_message 1 ''e2'' 8]) sample_config clerk [quiet_turn, quiet_turn] (0, 0)
      \<lparr>db = held_stock_db, sched = [Fails (ConnFault ''gone'')], wire = []\<rparr> = (out, c) \<and>
    consume (mem_kafka [cancel_message 0 ''e1'' 7, cancel_message 1 ''e2'' 8]) sample_config clerk [quiet_turn] (2, 2) (cs_service c) = (out', c') \<and>
    \<not> not_held 7 (db (cs_service c'))"
proof -
  let ?plog = "[cancel_message 0 ''e1'' 7, cancel_message 1 ''e2'' 8]"
  let ?kr = "mem_kafka ?plog" and ?s = "\<lparr>db = held_stock_db, sched = [Fails (ConnFault ''gone'')], wire = [] :: nat list\<rparr>"
  have fl: "float_exact (int 7)" "float_exact (int 8)" by (simp_all add: float_exact_def)
  have sound: "reader_sound ?kr ?plog fst snd" by (rule mem_kafka_list) (simp add: less_Suc_eq numeral_2_eq_2 all_simps)
  let ?d = "mark_processed ''e2'' held_stock_db"
  have turn1: "kr_fetch ?kr (0, 0) = (Inr (cancel_message 0 ''e1'' 7), (1, 0))"
    "clerk (arriving (cancel_message 0 ''e1'' 7)) ?s =
      (Returns (Some (PlainError ''gone'')), \<lparr>db = held_stock_db, sched = [], wire = []\<rparr>)"
    using clerk_outage [of "''e1''" 7] fl by (simp_all add: mem_kafka_def)
  have turn2: "kr_fetch ?kr (1, 0) = (Inr (cancel_message 1 ''e2'' 8), (2, 0))"
    "clerk (arriving (cancel_message 1 ''e2'' 8)) \<lparr>db = held_stock_db, sched = [], wire = []\<rparr> =
      (Returns None, \<lparr>db = ?d, sched = [], wire = []\<rparr>)"
    "kr_commit ?kr (cancel_message 1 ''e2'' 8) (2, 0) = (Inr (), (2, 2))"
    using clerk_nothing_held [of "''e2''" 8 held_stock_db 1 "[]"] fl by (simp_all add: mem_kafka_def held_stock_db_def)
  obtain out c where c: "consume ?kr sample_config clerk [quiet_turn, quiet_turn] (0, 0) ?s = (out, c)"
    by (cases "consume ?kr sample_config clerk [quiet_turn, quiet_turn] (0, 0) ?s")
  obtain out' c' where c': "consume ?kr sample_config clerk [quiet_turn] (2, 2) (cs_service c) = (out', c')"
    by (cases "consume ?kr sample_config clerk [quiet_turn] (2, 2) (cs_service c)")
  note lost = cancellation_lost [OF sound _ clerk_def clerk_def turn1 turn2 c,
    where oid = 7 and r' = "(2, 2)" and s' = "cs_service c" and turns = "[quiet_turn]" and out' = out' and c' = c']
  have start: "fst (0 :: nat, 0 :: nat) = snd (0 :: nat, 0 :: nat)"
    and failed: "Returns (Some (PlainError ''gone'')) \<noteq> Returns None" by simp_all
  note two = two_turns(2,3) [OF sound start turn1 failed turn2 c]
  have com: "fst (2 :: nat, 2 :: nat) = snd (2 :: nat, 2 :: nat)" "snd (2 :: nat, 2) = snd (cs_reader c)" using two(1) by simp_all
  have "stock_ok (\<lambda>s. s) ?d" "\<not> not_held 7 ?d"
    using held_stock_db_ok stock_ok_biz [of ?d held_stock_db] by (simp_all add: not_held_def)
  moreover have "\<forall>m \<in> set ?plog. message_quantity_ok m \<and> (cancels 7 m \<longrightarrow> m = cancel_message 0 ''e1'' 7)"
    using cancel_message_good [OF fl(1)] cancel_message_good [OF fl(2)] by simp
  ultimately have "\<not> not_held 7 (db (cs_service c'))" using lost [OF start _ _ _ com refl c'] by simp
  with c c' show ?thesis by blast
qed

end
