(* ===== verification/Metrics.thy ===== *)
theory Metrics
  imports Delivery
begin

text \<open>
  The Prometheus counters (\<open>common/xmetrics\<close>) and what the services count.  The client library is a parameter
  (\<open>prometheus\<close>): a registry of collectors, and the increment of a counter with its label values.  The other theories
  record increments where they belong to an operation (\<open>cs_consumed\<close>, \<open>ow_orders_created\<close>, the labels of \<open>WithRetry\<close> and
  of the RPC interceptor); here are the declarations, the increments of the event handlers and of the poller, and what
  the numbers mean: the handlers count under the labels the consumer loop counts under as well.
\<close>

subsection \<open>The counters\<close>

record counter_vec =
  cv_name :: string
  cv_help :: string
  cv_labels :: "string list"

definition labelResult :: string where "labelResult = ''result''"

definition OrdersCreated :: counter_vec where
  "OrdersCreated = \<lparr>cv_name = ''orders_created_total'', cv_help = ''Total orders created by result type.'', cv_labels = [labelResult]\<rparr>"

definition UsersRegistered :: counter_vec where
  "UsersRegistered = \<lparr>cv_name = ''users_registered_total'', cv_help = ''Total users registered by result type.'',
     cv_labels = [labelResult]\<rparr>"

definition RPCBreakerRejected :: counter_vec where
  "RPCBreakerRejected = \<lparr>cv_name = ''rpc_calls_breaker_open_total'',
     cv_help = ''Total RPC calls rejected by circuit breaker.'', cv_labels = [''method'']\<rparr>"

definition OutboxEventsPublished :: counter_vec where
  "OutboxEventsPublished = \<lparr>cv_name = ''outbox_events_published_total'',
     cv_help = ''Total outbox events published by topic and result.'', cv_labels = [''topic'', labelResult]\<rparr>"

definition KafkaMessagesConsumed :: counter_vec where
  "KafkaMessagesConsumed = \<lparr>cv_name = ''kafka_messages_consumed_total'',
     cv_help = ''Total Kafka messages consumed by topic, group, partition and result.'',
     cv_labels = [''topic'', ''group'', ''partition'', labelResult]\<rparr>"

definition DBDeadlocks :: counter_vec where
  "DBDeadlocks = \<lparr>cv_name = ''db_deadlocks_total'',
     cv_help = ''Total database deadlocks/lock-waits detected by the retry wrapper, by db and outcome.'',
     cv_labels = [''db'', ''outcome'']\<rparr>"

record 'p prometheus =
  pr_register :: "counter_vec \<Rightarrow> 'p \<Rightarrow> go_error option \<times> 'p"
  pr_inc :: "counter_vec \<Rightarrow> string list \<Rightarrow> 'p \<Rightarrow> unit outcome \<times> 'p"

text \<open>\<open>MustRegister\<close> registers one collector after the other and panics at the first error.\<close>

primrec must_register :: "'p prometheus \<Rightarrow> counter_vec list \<Rightarrow> 'p \<Rightarrow> unit outcome \<times> 'p" where
  "must_register pr [] p = (Returns (), p)"
| "must_register pr (v # vs) p =
     (case pr_register pr v p of (Some e, p1) \<Rightarrow> (Panics (error_text e), p1) | (None, p1) \<Rightarrow> must_register pr vs p1)"

text \<open>The \<open>init\<close> functions of \<open>db.go\<close> and \<open>xmetrics.go\<close>, which Go runs in the order of the file names.\<close>

definition init_db :: "'p prometheus \<Rightarrow> 'p \<Rightarrow> unit outcome \<times> 'p" where
  "init_db pr = must_register pr [DBDeadlocks]"

definition init_xmetrics :: "'p prometheus \<Rightarrow> 'p \<Rightarrow> unit outcome \<times> 'p" where
  "init_xmetrics pr = must_register pr
     [OrdersCreated, UsersRegistered, RPCBreakerRejected, OutboxEventsPublished, KafkaMessagesConsumed]"

definition init_metrics :: "'p prometheus \<Rightarrow> 'p \<Rightarrow> unit outcome \<times> 'p" where
  "init_metrics pr p = (case init_db pr p of (Returns _, p1) \<Rightarrow> init_xmetrics pr p1 | (Panics v, p1) \<Rightarrow> (Panics v, p1))"

text \<open>A registry as documented: a name can be registered once, an increment needs a value for each label.\<close>

definition mem_prometheus :: "(string list \<times> (string \<times> string list) list) prometheus" where
  "mem_prometheus = \<lparr>
     pr_register = (\<lambda>v (names, incs). if cv_name v \<in> set names
       then (Some (PlainError ''duplicate metrics collector registration attempted''), (names, incs))
       else (None, (names @ [cv_name v], incs))),
     pr_inc = (\<lambda>v vals (names, incs). if length vals \<noteq> length (cv_labels v)
       then (Panics ''inconsistent label cardinality'', (names, incs))
       else (Returns (), (names, incs @ [(cv_name v, vals)])))\<rparr>"

lemma init_metrics_returns: "fst (init_metrics mem_prometheus ([], [])) = Returns ()"
  by code_simp

subsection \<open>What the handlers count\<close>

text \<open>
  The results a handler counts for one delivery, under its topic, its group and the partition of the message.  A message without an
  event id or with a body that is no envelope is not counted here.
\<close>

definition reaches_process :: "message \<Rightarrow> bool" where
  "reaches_process msg \<longleftrightarrow> header msg ''event_id'' \<noteq> '''' \<and> (\<exists>envl. unmarshal_envelope (m_value msg) = Inr envl)"

lemma reaches_process_code [code]:
  "reaches_process msg = (header msg ''event_id'' \<noteq> '''' \<and> (case unmarshal_envelope (m_value msg) of Inl e \<Rightarrow> False | Inr envl \<Rightarrow> True))"
  by (auto simp: reaches_process_def split: sum.splits)

definition user_event_counts :: "bool \<Rightarrow> string \<Rightarrow> message \<Rightarrow> (order_db, 'm) session \<Rightarrow> string list" where
  "user_event_counts zero_dates seen msg s =
     (if \<not> reaches_process msg then []
      else case fst (user_event_processed zero_dates seen msg s) of
             Inl err \<Rightarrow> [''error'']
           | Inr processed_now \<Rightarrow> if processed_now = Some True then [''success''] else [''skip''])"

definition inventory_event_counts :: "order_env \<Rightarrow> message \<Rightarrow> (order_db, 'm) session \<Rightarrow> string list" where
  "inventory_event_counts env msg s =
     (if reaches_process msg \<and> isl (fst (handle_inventory_event env msg s)) then [''error''] else [])"

definition order_event_counts :: "inventory_env \<Rightarrow> message \<Rightarrow> (inventory_db, 'm) session \<Rightarrow> string list" where
  "order_event_counts env msg s =
     (if reaches_process msg \<and> isl (fst (handle_order_event env msg s)) then [''error''] else [])"

text \<open>A consumer's handler with what it has counted: partitions and results.\<close>

definition counted_consumer ::
  "(message \<Rightarrow> ('db, 'm, unit) tx) \<Rightarrow> (message \<Rightarrow> ('db, 'm) session \<Rightarrow> string list) \<Rightarrow>
   (('db, 'm) session \<times> (int \<times> string) list) handler" where
  "counted_consumer f g m st = (case st of (s, ms) \<Rightarrow>
     (case consumer_of f m s of (r, s1) \<Rightarrow> (r, s1, ms @ map (Pair (m_partition m)) (g m s))))"

definition count_of :: "string \<Rightarrow> (int \<times> string) list \<Rightarrow> nat" where
  "count_of l ms = length (filter (\<lambda>x. snd x = l) ms)"

lemma count_of_simps [simp]:
  "count_of l [] = 0" "count_of l (xs @ ys) = count_of l xs + count_of l ys"
  "count_of l (x # xs) = (if snd x = l then 1 else 0) + count_of l xs"
  by (simp_all add: count_of_def)

subsection \<open>Handlers and the loop count together\<close>

text \<open>
  A handler that counts a failure behind the decoding of the message, and, if \<open>own\<close>, a success as handled now or
  skipped.
\<close>

locale counting =
  fixes f :: "message \<Rightarrow> ('db, 'm, unit) tx"
    and g :: "message \<Rightarrow> ('db, 'm) session \<Rightarrow> string list"
    and own :: bool
  assumes fails: "f m s = (Inl e, s1) \<Longrightarrow> g m s = (if reaches_process m then [''error''] else [])"
    and succeeds: "f m s = (Inr (), s1) \<Longrightarrow>
      g m s \<in> (if own \<and> reaches_process m then {[''success''], [''skip'']} else {[]})"
begin

definition tallied :: "('r, ('db, 'm) session \<times> (int \<times> string) list) consumer \<Rightarrow> bool" where
  "tallied c \<longleftrightarrow>
     (let ok = filter (\<lambda>(m, x). x = Returns None) (cs_handled c); failed = filter (\<lambda>(m, x). x \<noteq> Returns None) (cs_handled c);
          deep = \<lambda>(m, x). reaches_process (arriving m); mine = snd (cs_service c) in
      count_of ''error'' (cs_consumed c) = length failed \<and> count_of ''success'' (cs_consumed c) = length ok \<and>
      count_of ''skip'' (cs_consumed c) = 0 \<and> count_of ''error'' mine = length (filter deep failed) \<and>
      count_of ''success'' mine + count_of ''skip'' mine = (if own then length (filter deep ok) else 0))"

lemma handle_next_tallied:
  assumes "tallied c" "handle_next kr (counted_consumer f g) (x, c) = (out, x1, c1)"
  shows "tallied c1"
proof (cases "kr_fetch kr (cs_reader c)")
  case (Pair res r1)
  show ?thesis
  proof (cases res)
    case (Inl e)
    with assms Pair show ?thesis by (auto simp: handle_next_def tallied_def Let_def)
  next
    case (Inr m)
    obtain s ms where s: "cs_service c = (s, ms)" by (cases "cs_service c")
    obtain y s1 where run: "f (arriving m) s = (y, s1)" by (cases "f (arriving m) s")
    have here: "arriving m = m\<lparr>m_headers := from_kafka_headers (m_headers m)\<rparr>" "m_partition (arriving m) = m_partition m"
      by (simp_all add: arriving_def)
    show ?thesis
    proof (cases y)
      case (Inl e)
      with assms Pair \<open>res = Inr m\<close> s run fails [of "arriving m" s e s1] here show ?thesis
        by (auto simp: handle_next_def tallied_def counted_consumer_def consumer_of_def Let_def)
    next
      case (Inr u)
      with assms Pair \<open>res = Inr m\<close> s run succeeds [of "arriving m" s s1] here show ?thesis
        by (auto simp: handle_next_def tallied_def counted_consumer_def consumer_of_def Let_def split: prod.splits if_splits)
    qed
  qed
qed

lemma consume_tallied:
  assumes "consume kr cfg (counted_consumer f g) turns r (s, []) = (out, c)"
  shows "tallied c"
proof (rule consume_loop_keeps [where I = tallied, OF handle_next_tallied])
  show "consume_loop kr cfg (counted_consumer f g) turns second
      \<lparr>cs_reader = r, cs_service = (s, []), cs_handled = [], cs_consumed = [], cs_panics = [], cs_waits = []\<rparr> = (out, c)"
    using assms by (simp add: consume_def)
qed (simp_all add: tallied_def)

end

interpretation user_counts: counting "handle_user_event zero_dates seen" "user_event_counts zero_dates seen" True
  for zero_dates seen
proof unfold_locales
  fix m :: message and s s1 :: "(order_db, 'm) session" and e
  show "handle_user_event zero_dates seen m s = (Inl e, s1) \<Longrightarrow>
      user_event_counts zero_dates seen m s = (if reaches_process m then [''error''] else [])"
    by (auto simp: handle_user_event_def user_event_counts_def bind_tx_def ret_def split: prod.splits sum.splits)
  show "handle_user_event zero_dates seen m s = (Inr (), s1) \<Longrightarrow> user_event_counts zero_dates seen m s \<in>
      (if True \<and> reaches_process m then {[''success''], [''skip'']} else {[]})"
    by (auto simp: handle_user_event_def user_event_counts_def bind_tx_def ret_def split: prod.splits sum.splits)
qed

interpretation inventory_counts: counting "handle_inventory_event env" "inventory_event_counts env" False for env
  by unfold_locales (auto simp: inventory_event_counts_def)

interpretation order_counts: counting "handle_order_event env" "order_event_counts env" False for env
  by unfold_locales (auto simp: order_event_counts_def)

subsection \<open>What a tick of the poller counts\<close>

primrec publish_batch_counts ::
  "(nat \<Rightarrow> string) \<Rightarrow> (message \<Rightarrow> pub_result) \<Rightarrow> nat \<Rightarrow> outbox_event list \<Rightarrow> ('d svc_db, message) session \<Rightarrow>
   (string \<times> string) list" where
  "publish_batch_counts fmt pub now [] s = []"
| "publish_batch_counts fmt pub now (e # es) s =
     (case publish pub (row_message fmt e) s of
        (Inr (Some msg), s1) \<Rightarrow>
          (ob_topic e, ''error'') # publish_batch_counts fmt pub now es (snd (increment_retry_count (ob_id e) msg s1))
      | (Inr None, s1) \<Rightarrow>
          (case mark_as_sent now (ob_id e) s1 of
             (Inl err, s2) \<Rightarrow> []
           | (Inr _, s2) \<Rightarrow> (ob_topic e, ''success'') # publish_batch_counts fmt pub now es s2)
      | (Inl err, s1) \<Rightarrow> [])"

definition tick_counts ::
  "(nat \<Rightarrow> string) \<Rightarrow> (message \<Rightarrow> pub_result) \<Rightarrow> nat \<Rightarrow> (nat \<Rightarrow> bool) \<Rightarrow> nat \<Rightarrow> ('d svc_db, message) session \<Rightarrow>
   (string \<times> string) list" where
  "tick_counts fmt pub now locked batch_size s =
     (case next_reply s of
        (Runs, s0) \<Rightarrow>
          (case query (\<lambda>d. Inr (pending_rows locked batch_size (ob_rows (outbox d)))) s0 of
             (Inl err, s1) \<Rightarrow> []
           | (Inr events, s1) \<Rightarrow> publish_batch_counts fmt pub now events s1)
      | (_, s0) \<Rightarrow> [])"

text \<open>What is counted as published was acknowledged by the broker.\<close>

lemma increment_wire: "increment_retry_count i msg s = (r, s1) \<Longrightarrow> wire s1 = wire s"
  by (auto simp: increment_retry_count_def stmt_def next_reply_def update_outbox_def split: list.splits reply.splits prod.splits)

lemma mark_wire: "mark_as_sent now i s = (r, s1) \<Longrightarrow> wire s1 = wire s"
  by (auto simp: mark_as_sent_def stmt_def next_reply_def update_outbox_def split: list.splits reply.splits prod.splits)

lemma published_counts:
  "publish_batch fmt pub now es s = (r, s') \<Longrightarrow>
   length (wire s) + length (filter (\<lambda>x. snd x = ''success'') (publish_batch_counts fmt pub now es s)) \<le> length (wire s')"
proof (induction es arbitrary: s)
  case (Cons e es)
  show ?case
  proof (cases "pub (row_message fmt e)")
    case Acked
    let ?s = "s\<lparr>wire := wire s @ [row_message fmt e]\<rparr>"
    obtain r1 s1 where m: "mark_as_sent now (ob_id e) ?s = (r1, s1)" by (cases "mark_as_sent now (ob_id e) ?s")
    from mark_wire [OF m] have "wire s1 = wire s @ [row_message fmt e]" by simp
    with Cons.prems Cons.IH [of s1] Acked m show ?thesis
      by (cases r1) (auto simp: publish_def bind_tx_def)
  next
    case (NotStored x)
    obtain r1 s1 where m: "increment_retry_count (ob_id e) x s = (r1, s1)" by (cases "increment_retry_count (ob_id e) x s")
    from increment_wire [OF m] Cons.prems Cons.IH [of s1] NotStored m show ?thesis
      by (auto simp: publish_def bind_tx_def try_tx_def)
  next
    case (StoredUnacked x)
    let ?s = "s\<lparr>wire := wire s @ [row_message fmt e]\<rparr>"
    obtain r1 s1 where m: "increment_retry_count (ob_id e) x ?s = (r1, s1)" by (cases "increment_retry_count (ob_id e) x ?s")
    from increment_wire [OF m] Cons.prems Cons.IH [of s1] StoredUnacked m show ?thesis
      by (auto simp: publish_def bind_tx_def try_tx_def)
  qed
qed (simp add: ret_def)

text \<open>It is counted at once, so a batch that is rolled back after all is counted, and again when it is published again.\<close>

lemma rolled_back_counted:
  "map snd (tick_counts (\<lambda>t. itoa (int t)) (\<lambda>_. Acked) 99 (\<lambda>_. False) 100
      \<lparr>db = demo_outbox, sched = [Runs, Runs, Runs, Runs, Fails (ConnFault ''gone'')], wire = []\<rparr>) = [''success'', ''success''] \<and>
   db (snd (tick (\<lambda>t. itoa (int t)) (\<lambda>_. Acked) 99 (\<lambda>_. False) 100
      \<lparr>db = demo_outbox, sched = [Runs, Runs, Runs, Runs, Fails (ConnFault ''gone'')], wire = []\<rparr>)) = demo_outbox"
  by code_simp

subsection \<open>Properties\<close>

text \<open>
  C40: \<open>kafka_messages_consumed_total\<close> does not count messages.  The handler of user events and the consumer loop
  increment it under the same labels: in every run of the loop, each failure behind the decoding of the message counts as two
  errors, and each success as two results, \<open>success\<close> twice or \<open>skip\<close> and \<open>success\<close>.
\<close>
theorem deliveries_counted_twice:
  assumes "consume kr cfg (counted_consumer (handle_user_event zero_dates seen) (user_event_counts zero_dates seen)) turns r (s, []) = (out, c)"
    and "ok = filter (\<lambda>(m, x). x = Returns None) (cs_handled c)" "failed = filter (\<lambda>(m, x). x \<noteq> Returns None) (cs_handled c)"
    and "tally = snd (cs_service c) @ cs_consumed c"
  shows "count_of ''error'' tally = length failed + length (filter (\<lambda>(m, x). reaches_process (arriving m)) failed) \<and>
    count_of ''success'' tally + count_of ''skip'' tally = length ok + length (filter (\<lambda>(m, x). reaches_process (arriving m)) ok)"
  using user_counts.consume_tallied [OF assms(1)] assms(2-4) by (simp add: user_counts.tallied_def Let_def)

text \<open>One registration, delivered twice: four results.\<close>

definition registration :: message where
  "registration = \<lparr>m_topic = ''user-events'', m_partition = 0, m_offset = 0, m_key = ''7'',
     m_value = Doc (JObj [(''event'', JStr UserRegistered), (''version'', JInt 1), (''occurred_at'', JStr ''2026-01-31T12:30:05Z''),
       (''data'', marshal_user_registered \<lparr>ur_user_id = 7, ur_username = ''ann''\<rparr>)]),
     m_headers = [(''event_id'', ''e1'')]\<rparr>"

definition no_orders :: order_db where
  "no_orders = \<lparr>biz = \<lparr>orders = [], next_order_id = 1, known_users = []\<rparr>, outbox = \<lparr>ob_rows = [], ob_next_id = 1\<rparr>, processed = []\<rparr>"

definition registration_run :: "serving \<times> (nat \<times> nat, (order_db, nat) session \<times> (int \<times> string) list) consumer" where
  "registration_run = consume (mem_kafka [registration, registration]) sample_config
     (counted_consumer (handle_user_event False ''2026-01-31'') (user_event_counts False ''2026-01-31'')) [quiet_turn, quiet_turn] (0, 0)
     (\<lparr>db = no_orders, sched = [], wire = []\<rparr>, [])"

lemma deliveries_counted_twice_witness:
  "let tally = snd (cs_service (snd registration_run)) @ cs_consumed (snd registration_run) in
   length (cs_handled (snd registration_run)) = 2 \<and> count_of ''success'' tally + count_of ''skip'' tally = 4"
proof -
  have "map snd (cs_handled (snd registration_run)) = [Returns None, Returns None] \<and>
      list_all (\<lambda>(m, x). reaches_process (arriving m)) (cs_handled (snd registration_run))" by code_simp
  then obtain m1 m2 where m: "cs_handled (snd registration_run) = [(m1, Returns None), (m2, Returns None)]"
    "reaches_process (arriving m1)" "reaches_process (arriving m2)" by auto
  note twice = deliveries_counted_twice [OF registration_run_def [symmetric, THEN trans, OF surjective_pairing] refl refl refl]
  from m twice show ?thesis by simp
qed

end
