(* ===== verification/GormLogger.thy ===== *)
theory GormLogger
  imports Retry HttpCommon
begin

text \<open>
  \<open>common/xdb/gormlogger.go\<close> and \<open>db.go\<close>: the logger GORM calls after every statement, with the redaction of
  string literals, and the opening of the connection pool.
\<close>

subsection \<open>Levels\<close>

datatype log_level = Silent | LevelError | LevelWarn | LevelInfo

primrec level_rank :: "log_level \<Rightarrow> nat" where
  "level_rank Silent = 1"
| "level_rank LevelError = 2"
| "level_rank LevelWarn = 3"
| "level_rank LevelInfo = 4"

instantiation log_level :: linorder
begin

definition less_eq_log_level :: "log_level \<Rightarrow> log_level \<Rightarrow> bool" where
  "a \<le> b \<longleftrightarrow> level_rank a \<le> level_rank b"

definition less_log_level :: "log_level \<Rightarrow> log_level \<Rightarrow> bool" where
  "a < b \<longleftrightarrow> level_rank a < level_rank b"

instance
proof
  fix a b :: log_level
  show "a \<le> b \<Longrightarrow> b \<le> a \<Longrightarrow> a = b"
    by (cases a; cases b) (simp_all add: less_eq_log_level_def)
qed (auto simp: less_eq_log_level_def less_log_level_def)

end

subsection \<open>Redaction\<close>

definition quote_char :: char where "quote_char = CHR 0x27"

text \<open>
  The match of \<open>'(?:[^']|'')*'\<close> after its opening quote: the text that follows the match.  The star is greedy, so a
  doubled quote is taken as a part of the literal, unless no closing quote follows: then the match backs up and
  the first of the two closes the literal.
\<close>

fun literal_end :: "string \<Rightarrow> string option" where
  "literal_end [] = None"
| "literal_end [c] = (if c = quote_char then Some [] else None)"
| "literal_end (c # d # cs) =
     (if c \<noteq> quote_char then literal_end (d # cs)
      else if d = quote_char then (case literal_end cs of Some r \<Rightarrow> Some r | None \<Rightarrow> Some (d # cs))
      else Some (d # cs))"

lemma literal_end_shorter: "literal_end s = Some r \<Longrightarrow> length r < length s"
  by (induction s arbitrary: r rule: literal_end.induct) (auto split: if_splits option.splits)

text \<open>\<open>ReplaceAllString\<close>: each match, from the left, becomes \<open>'?'\<close>.\<close>

function redactSQL :: "string \<Rightarrow> string" where
  "redactSQL [] = []"
| "redactSQL (c # cs) =
     (case (if c = quote_char then literal_end cs else None) of
        Some r \<Rightarrow> [quote_char, CHR ''?'', quote_char] @ redactSQL r
      | None \<Rightarrow> c # redactSQL cs)"
  by pat_completeness auto
termination
  by (relation "measure length") (auto split: if_splits dest: literal_end_shorter)

subsection \<open>The logger\<close>

record gorm_logger =
  gl_level :: log_level
  gl_slow_threshold :: int

definition NewGormLogger :: "int \<Rightarrow> gorm_logger" where
  "NewGormLogger threshold = \<lparr>gl_level = LevelWarn, gl_slow_threshold = threshold\<rparr>"

definition LogMode :: "gorm_logger \<Rightarrow> log_level \<Rightarrow> gorm_logger" where
  "LogMode g level = g\<lparr>gl_level := level\<rparr>"

text \<open>What is logged: the level, and for \<open>Trace\<close> its fields.\<close>

datatype log_entry =
  InfoLog string
| SlowLog string
| ErrorLog string
| ErrorSql int int string string bool
| SlowSql int int int string

definition log_info :: "gorm_logger \<Rightarrow> string \<Rightarrow> log_entry list" where
  "log_info g msg = (if LevelInfo \<le> gl_level g then [InfoLog msg] else [])"

definition log_warn :: "gorm_logger \<Rightarrow> string \<Rightarrow> log_entry list" where
  "log_warn g msg = (if LevelWarn \<le> gl_level g then [SlowLog msg] else [])"

definition log_error :: "gorm_logger \<Rightarrow> string \<Rightarrow> log_entry list" where
  "log_error g msg = (if LevelError \<le> gl_level g then [ErrorLog msg] else [])"

definition isRecordNotFound :: "go_error \<Rightarrow> bool" where
  "isRecordNotFound err = errors_is err ErrRecordNotFound"

text \<open>
  \<open>elapsed\<close> is the time since \<open>begin\<close>; \<open>fc\<close> gives the statement and its affected rows.  An error comes with its text, what
  \<open>err.Error()\<close> returns: the message of a MySQL error is the server's and may say anything about the values.
\<close>

definition Trace :: "gorm_logger \<Rightarrow> int \<Rightarrow> string \<times> int \<Rightarrow> (go_error \<times> string) option \<Rightarrow> log_entry list" where
  "Trace g elapsed fc err =
     (if gl_level g \<le> Silent then []
      else case (case err of
          Some (e, txt) \<Rightarrow> if LevelError \<le> gl_level g \<and> \<not> isRecordNotFound e then Some (e, txt) else None
        | None \<Rightarrow> None) of
        Some (e, txt) \<Rightarrow> (case fc of (sql, rows) \<Rightarrow> [ErrorSql elapsed rows (redactSQL sql) txt (IsDeadlock e)])
      | None \<Rightarrow>
          if 0 < gl_slow_threshold g \<and> gl_slow_threshold g < elapsed \<and> LevelWarn \<le> gl_level g
          then (case fc of (sql, rows) \<Rightarrow> [SlowSql elapsed rows (gl_slow_threshold g) (redactSQL sql)])
          else [])"

text \<open>What is logged of a statement that has not failed: itself, redacted already here, when it was slow.\<close>

definition slow_entry :: "gorm_logger \<Rightarrow> int \<Rightarrow> int \<Rightarrow> string \<Rightarrow> log_entry list" where
  "slow_entry g elapsed rows sql =
     (if 0 < gl_slow_threshold g \<and> gl_slow_threshold g < elapsed \<and> LevelWarn \<le> gl_level g
      then [SlowSql elapsed rows (gl_slow_threshold g) sql] else [])"

subsection \<open>Redaction is complete\<close>

text \<open>
  A statement as GORM writes it out: text without quotes, and string values in quotes with the quotes inside
  doubled.  Two values do not touch.
\<close>

datatype sql_part = SqlText string | SqlValue string

definition double_quotes :: "string \<Rightarrow> string" where
  "double_quotes v = concat (map (\<lambda>c. if c = quote_char then [quote_char, quote_char] else [c]) v)"

primrec render_part :: "sql_part \<Rightarrow> string" where
  "render_part (SqlText t) = t"
| "render_part (SqlValue v) = quote_char # double_quotes v @ [quote_char]"

primrec hidden_part :: "sql_part \<Rightarrow> string" where
  "hidden_part (SqlText t) = t"
| "hidden_part (SqlValue v) = [quote_char, CHR ''?'', quote_char]"

fun sql_parts_ok :: "sql_part list \<Rightarrow> bool" where
  "sql_parts_ok [] = True"
| "sql_parts_ok (SqlText t # ps) = (t \<noteq> [] \<and> quote_char \<notin> set t \<and> sql_parts_ok ps)"
| "sql_parts_ok [SqlValue v] = True"
| "sql_parts_ok (SqlValue v # SqlText t # ps) = sql_parts_ok (SqlText t # ps)"
| "sql_parts_ok (SqlValue v # SqlValue u # ps) = False"

lemma literal_end_value:
  assumes "rest = [] \<or> hd rest \<noteq> quote_char"
  shows "literal_end (double_quotes v @ quote_char # rest) = Some rest"
proof (induction v)
  case Nil
  with assms show ?case by (cases rest) (auto simp: double_quotes_def)
next
  case (Cons c v)
  obtain d ds where "double_quotes v @ quote_char # rest = d # ds" by (cases "double_quotes v @ quote_char # rest") auto
  with Cons show ?case by (auto simp: double_quotes_def)
qed

lemma redact_text: "quote_char \<notin> set t \<Longrightarrow> redactSQL (t @ s) = t @ redactSQL s"
  by (induction t) auto

lemma redact_parts: "sql_parts_ok ps \<Longrightarrow> redactSQL (concat (map render_part ps)) = concat (map hidden_part ps)"
proof (induction ps rule: sql_parts_ok.induct)
  case (2 t ps)
  then show ?case by (simp add: redact_text)
next
  case (3 v)
  then show ?case using literal_end_value [of "[]" v] by simp
next
  case (4 v t ps)
  then have "t \<noteq> []" "quote_char \<notin> set t" by simp_all
  then have "hd t \<noteq> quote_char" by (metis hd_in_set)
  then have "literal_end (double_quotes v @ quote_char # t @ concat (map render_part ps)) = Some (t @ concat (map render_part ps))"
    using \<open>t \<noteq> []\<close> by (intro literal_end_value) auto
  with 4 show ?case by simp
qed simp_all

section \<open>Properties\<close>

text \<open>
  C29: The statement in the log holds no string value: \<open>Trace\<close> logs the SQL with every value replaced by \<open>'?'\<close>,
  whatever the values contain, quotes included, and the text around them as it is.  So two statements that differ in
  their values only are logged alike, when they end alike.  Only the SQL is redacted: the text of an error is
  logged beside it as it is (\<open>duplicate_value_logged\<close>).
\<close>
theorem trace_redacts_statement:
  assumes "sql_parts_ok ps"
  shows "Trace g elapsed (concat (map render_part ps), rows) err =
    (case err of
       Some (e, txt) \<Rightarrow>
         if gl_level g = Silent then []
         else if \<not> isRecordNotFound e then [ErrorSql elapsed rows (concat (map hidden_part ps)) txt (IsDeadlock e)]
         else slow_entry g elapsed rows (concat (map hidden_part ps))
     | None \<Rightarrow> if gl_level g = Silent then [] else slow_entry g elapsed rows (concat (map hidden_part ps))) \<and>
    (sql_parts_ok qs \<and> map hidden_part qs = map hidden_part ps \<longrightarrow>
       Trace g elapsed (concat (map render_part qs), rows) err = Trace g elapsed (concat (map render_part ps), rows) err)"
proof -
  have "gl_level g \<le> Silent \<longleftrightarrow> gl_level g = Silent" "LevelError \<le> gl_level g \<longleftrightarrow> gl_level g \<noteq> Silent"
    by (cases "gl_level g"; simp add: less_eq_log_level_def)+
  then show ?thesis
    by (auto simp: Trace_def slow_entry_def redact_parts [OF assms] redact_parts [of qs] split: option.splits)
qed

lemma trace_redacts_statement_witness:
  "Trace (NewGormLogger 200) 500
     (concat (map render_part [SqlText ''SELECT * FROM users WHERE name = '', SqlValue (''O'' @ [quote_char] @ ''Hara'')]), 1) None =
   [SlowSql 500 1 200 (''SELECT * FROM users WHERE name = '' @ [quote_char, CHR ''?'', quote_char])]"
proof -
  let ?ps = "[SqlText ''SELECT * FROM users WHERE name = '', SqlValue (''O'' @ [quote_char] @ ''Hara'')]"
  have "sql_parts_ok ?ps" by (simp add: quote_char_def)
  from conjunct1 [OF trace_redacts_statement [OF this, of "NewGormLogger 200" 500 1 None]] show ?thesis
    by (simp add: NewGormLogger_def slow_entry_def less_eq_log_level_def)
qed

text \<open>A registration with a name that is taken: MySQL's message names it, and so does the log.\<close>

definition duplicate_text :: "string \<Rightarrow> string \<Rightarrow> string" where
  "duplicate_text v key = ''Error 1062 (23000): Duplicate entry '' @ quote_char # v @ quote_char # '' for key '' @ quote_char # key @ [quote_char]"

lemma duplicate_value_logged:
  "Trace (NewGormLogger 200) 5
     (concat (map render_part [SqlText ''INSERT INTO users (name) VALUES ('', SqlValue ''ann'', SqlText '')'']), 0)
     (Some (MySQLError 1062, duplicate_text ''ann'' ''users.name'')) =
   [ErrorSql 5 0 (''INSERT INTO users (name) VALUES ('' @ [quote_char, CHR ''?'', quote_char] @ '')'')
     (duplicate_text ''ann'' ''users.name'') False]"
  by code_simp

end
