(* ===== verification/Config.thy ===== *)
theory Config
  imports GormLogger LabFaults
begin

text \<open>
  Configuration: \<open>common/config/types.go\<close> and each service's \<open>config.go\<close>, with the parsing of durations as
  \<open>time.ParseDuration\<close> does it, and the opening of the database and Redis connections
  (\<open>common/xdb/db.go\<close>, \<open>common/xredis/redis.go\<close>).  Durations are \<open>int\<close> nanoseconds in the range of \<open>int64\<close>.  The
  environment is a function, as in \<open>LabFaults\<close>.  The files and the tags that fill the records are go-zero's.
\<close>

subsection \<open>Durations\<close>

definition is_digit :: "char \<Rightarrow> bool" where
  "is_digit c \<longleftrightarrow> digit_value c \<noteq> None"

text \<open>\<open>leadingInt\<close>: the digits at the start; \<open>None\<close> when their value leaves 2 to the 63rd.\<close>

fun leading_int :: "nat \<Rightarrow> string \<Rightarrow> (nat \<times> string) option" where
  "leading_int x [] = Some (x, [])"
| "leading_int x (c # cs) =
     (case digit_value c of
        None \<Rightarrow> Some (x, c # cs)
      | Some d \<Rightarrow> if 2 ^ 63 div 10 < x \<or> 2 ^ 63 < 10 * x + d then None else leading_int (10 * x + d) cs)"

text \<open>\<open>leadingFraction\<close>: the digits after the point and the power of ten they are over; digits too many are read and ignored.\<close>

fun leading_fraction :: "nat \<Rightarrow> int \<Rightarrow> bool \<Rightarrow> string \<Rightarrow> nat \<times> int \<times> string" where
  "leading_fraction x scale over [] = (x, scale, [])"
| "leading_fraction x scale over (c # cs) =
     (case digit_value c of
        None \<Rightarrow> (x, scale, c # cs)
      | Some d \<Rightarrow>
          if over \<or> (2 ^ 63 - 1) div 10 < x \<or> 2 ^ 63 < 10 * x + d then leading_fraction x scale True cs
          else leading_fraction (10 * x + d) (10 * scale) False cs)"

lemma leading_int_length: "leading_int x s = Some (y, r) \<Longrightarrow> length r \<le> length s"
  by (induction x s rule: leading_int.induct) (auto split: option.splits if_splits)

lemma leading_fraction_length: "leading_fraction x k over s = (y, j, r) \<Longrightarrow> length r \<le> length s"
  by (induction x k over s rule: leading_fraction.induct) (auto split: option.splits if_splits)

text \<open>The units, the two ways to write a micro sign included.\<close>

definition unit_map :: "string \<Rightarrow> nat option" where
  "unit_map u = map_of
     [(''ns'', 1), (''us'', 1000), ([CHR 0xC2, CHR 0xB5, CHR ''s''], 1000), ([CHR 0xCE, CHR 0xBC, CHR ''s''], 1000),
      (''ms'', 1000000), (''s'', 1000000000), (''m'', 60000000000), (''h'', 3600000000000)] u"

text \<open>\<open>uint64(float64(f) * (float64(unit) / scale))\<close>, with both operations rounded to 53 bits.\<close>

definition fraction_of_unit :: "nat \<Rightarrow> int \<Rightarrow> nat \<Rightarrow> nat" where
  "fraction_of_unit f scale u =
     (case f64_div (int u) scale of (m, k) \<Rightarrow>
        case f64_div (f64_of_int (int f) * m) (2 ^ nat k) of (p, j) \<Rightarrow>
          nat (if 0 \<le> j then p div 2 ^ nat j else p * 2 ^ nat (- j)))"

text \<open>One number and its unit: its value in nanoseconds and the text after it.\<close>

definition duration_item :: "string \<Rightarrow> (nat \<times> string) option" where
  "duration_item s =
     (if \<not> (hd s = CHR ''.'' \<or> is_digit (hd s)) then None
      else case leading_int 0 s of
        None \<Rightarrow> None
      | Some (v, s1) \<Rightarrow>
          let pre = (length s1 \<noteq> length s);
              point = (s1 \<noteq> [] \<and> hd s1 = CHR ''.'');
              (f, scale, s2) = (if point then leading_fraction 0 1 False (tl s1) else (0, 1, s1));
              post = (point \<and> length s2 \<noteq> length (tl s1));
              u = takeWhile (\<lambda>c. c \<noteq> CHR ''.'' \<and> \<not> is_digit c) s2;
              s3 = dropWhile (\<lambda>c. c \<noteq> CHR ''.'' \<and> \<not> is_digit c) s2
          in if \<not> pre \<and> \<not> post then None
             else if u = [] then None
             else case unit_map u of
               None \<Rightarrow> None
             | Some unit \<Rightarrow>
                 if 2 ^ 63 div unit < v then None
                 else let w = v * unit + (if 0 < f then fraction_of_unit f scale unit else 0)
                      in if 2 ^ 63 < w then None else Some (w, s3))"

lemma take_drop_shorter: "takeWhile P xs \<noteq> [] \<Longrightarrow> length (dropWhile P xs) < length xs"
  by (metis length_append length_greater_0_conv less_add_same_cancel2 takeWhile_dropWhile_id)

lemma duration_item_shorter: "duration_item s = Some (w, r) \<Longrightarrow> length r < length s"
  by (auto simp: duration_item_def Let_def simp del: takeWhile_eq_Nil_iff split: if_splits option.splits prod.splits
      dest!: leading_int_length leading_fraction_length take_drop_shorter)

text \<open>The loop: one item after the other, the sum in 64 bits, until no text is left.\<close>

function duration_loop :: "nat \<Rightarrow> string \<Rightarrow> nat option" where
  "duration_loop d s =
     (if s = [] then Some d
      else case duration_item s of
        None \<Rightarrow> None
      | Some (w, r) \<Rightarrow>
          let d' = (d + w) mod 2 ^ 64 in if 2 ^ 63 < d' then None else duration_loop d' r)"
  by pat_completeness auto
termination
  by (relation "measure (\<lambda>(d, s). length s)") (auto dest: duration_item_shorter)

declare duration_loop.simps [simp del]

definition ParseDuration :: "string \<Rightarrow> int option" where
  "ParseDuration orig =
     (let (neg, s) = (case orig of [] \<Rightarrow> (False, []) | c # cs \<Rightarrow>
            if c = CHR ''-'' then (True, cs) else if c = CHR ''+'' then (False, cs) else (False, orig))
      in if s = ''0'' then Some 0
         else if s = [] then None
         else case duration_loop 0 s of
           None \<Rightarrow> None
         | Some d \<Rightarrow> if neg then Some (- int d) else if d \<le> 2 ^ 63 - 1 then Some (int d) else None)"

subsection \<open>The common records\<close>

record etcd_conf =
  et_hosts :: "string list"
  et_key :: string

record redis_config =
  rd_host :: string
  rd_port :: int
  rd_password :: string
  rd_db :: int

text \<open>\<open>strconv.Itoa\<close>, as \<open>%d\<close> prints it\<close>

definition int_text :: "int \<Rightarrow> string" where
  "int_text n = (if n < 0 then CHR ''-'' # format_uint (nat (- n)) else format_uint (nat n))"

definition redis_addr :: "redis_config \<Rightarrow> string" where
  "redis_addr r = rd_host r @ '':'' @ int_text (rd_port r)"

record grpc_config =
  gc_listen_on :: string
  gc_etcd :: etcd_conf

record database_config =
  dc_host :: string
  dc_port :: int
  dc_user :: string
  dc_password :: string
  dc_db_name :: string
  dc_max_open_conns :: int
  dc_max_idle_conns :: int
  dc_conn_max_lifetime :: int
  dc_conn_max_idle_time :: int
  dc_slow_threshold :: int

record user_svc_config =
  us_etcd :: etcd_conf
  us_endpoints :: "string list"
  us_timeout :: int

record cache_config =
  ca_ttl :: int
  ca_negative_ttl :: int

record kafka_config =
  kc_bootstrap_servers :: "string list"
  kc_group_id :: string
  kc_topic :: string
  kc_inventory_topic :: string

type_synonym cors_config = "string list"

subsection \<open>Overrides\<close>

text \<open>A string, or a duration, taken from a variable that is set; a duration that does not parse is ignored.\<close>

definition env_string :: "environ \<Rightarrow> string \<Rightarrow> string \<Rightarrow> string" where
  "env_string getenv name old = (if getenv name = '''' then old else getenv name)"

definition env_duration :: "environ \<Rightarrow> string \<Rightarrow> int \<Rightarrow> int" where
  "env_duration getenv name old =
     (if getenv name = '''' then old else case ParseDuration (getenv name) of None \<Rightarrow> old | Some d \<Rightarrow> d)"

definition env_port :: "environ \<Rightarrow> string \<Rightarrow> int \<Rightarrow> int" where
  "env_port getenv name old =
     (if getenv name = '''' then old else case go_atoi (getenv name) of None \<Rightarrow> old | Some p \<Rightarrow> p)"

definition db_apply_env :: "environ \<Rightarrow> database_config \<Rightarrow> database_config" where
  "db_apply_env getenv d = d\<lparr>
     dc_conn_max_lifetime := env_duration getenv ''DATABASE_CONN_MAX_LIFETIME'' (dc_conn_max_lifetime d),
     dc_conn_max_idle_time := env_duration getenv ''DATABASE_CONN_MAX_IDLE_TIME'' (dc_conn_max_idle_time d),
     dc_slow_threshold := env_duration getenv ''DATABASE_SLOW_THRESHOLD'' (dc_slow_threshold d)\<rparr>"

text \<open>\<open>strings.Split(s, ",")\<close> and the list of a variable; an unset variable is the nil list.\<close>

fun split_on :: "char \<Rightarrow> string \<Rightarrow> string list" where
  "split_on c [] = [[]]"
| "split_on c (x # xs) =
     (if x = c then [] # split_on c xs
      else case split_on c xs of [] \<Rightarrow> [[x]] | w # ws \<Rightarrow> (x # w) # ws)"

definition EnvList :: "environ \<Rightarrow> string \<Rightarrow> string list" where
  "EnvList getenv name =
     (if getenv name = '''' then [] else map trim_space (split_on (CHR '','') (getenv name)))"

definition env_list :: "environ \<Rightarrow> string \<Rightarrow> string list \<Rightarrow> string list" where
  "env_list getenv name old = (let l = EnvList getenv name in if 0 < length l then l else old)"

definition kafka_apply_env :: "environ \<Rightarrow> kafka_config \<Rightarrow> kafka_config" where
  "kafka_apply_env getenv k =
     k\<lparr>kc_bootstrap_servers := env_list getenv ''KAFKA_BOOTSTRAP_SERVERS'' (kc_bootstrap_servers k)\<rparr>"

definition cors_apply_env :: "environ \<Rightarrow> cors_config \<Rightarrow> cors_config" where
  "cors_apply_env getenv c = env_list getenv ''CORS_ALLOWED_ORIGINS'' c"

text \<open>The client configuration for zrpc; its middlewares are switched on one by one.\<close>

record rpc_client_conf =
  rp_etcd :: etcd_conf
  rp_endpoints :: "string list"
  rp_timeout :: int
  rp_non_block :: bool
  rp_middlewares :: "string list"

definition RpcClientConf :: "user_svc_config \<Rightarrow> rpc_client_conf" where
  "RpcClientConf c = \<lparr>rp_etcd = us_etcd c, rp_endpoints = us_endpoints c, rp_timeout = us_timeout c, rp_non_block = True,
     rp_middlewares = [''Trace'', ''Duration'', ''Prometheus'', ''Breaker'', ''Timeout'']\<rparr>"

subsection \<open>Secrets\<close>

definition defaultSecrets :: "string list" where
  "defaultSecrets = [''change-me-in-production'', '''']"

text \<open>
  One warning for each match of a secret with a default; the message is in Chinese in the source and shortened here.
  The second result is what is printed.
\<close>

definition secret_warnings :: "string list \<Rightarrow> string list" where
  "secret_warnings secrets =
     concat (map (\<lambda>s. concat (map (\<lambda>d. if s = d then [''JWT secret is a default or empty''] else []) defaultSecrets)) secrets)"

fun join_with :: "string \<Rightarrow> string list \<Rightarrow> string" where
  "join_with sep [] = ''''"
| "join_with sep [w] = w"
| "join_with sep (w # ws) = w @ sep @ join_with sep ws"

definition ValidateSecrets :: "string \<Rightarrow> string list \<Rightarrow> go_error option \<times> string list" where
  "ValidateSecrets mode secrets =
     (let warnings = secret_warnings secrets;
          msg = ''insecure defaults detected: '' @ join_with ''; '' warnings
      in if length warnings = 0 then (None, [])
         else if mode = ''pro'' \<or> mode = ''pre''
         then (Some (PlainError (msg @ '' (set proper values or use dev/test mode)'')), [])
         else (None, [''WARNING: '' @ msg @ '' (acceptable in '' @ mode @ '' mode)'']))"

subsection \<open>The services\<close>

record order_api_config =
  oc_access_secret :: string
  oc_access_expire :: int
  oc_telemetry_endpoint :: string
  oc_database :: database_config
  oc_user_svc :: user_svc_config
  oc_redis :: redis_config
  oc_cors :: cors_config
  oc_kafka :: kafka_config

definition user_svc_apply_env :: "environ \<Rightarrow> string \<Rightarrow> string \<Rightarrow> user_svc_config \<Rightarrow> user_svc_config" where
  "user_svc_apply_env getenv hosts key u =
     u\<lparr>us_etcd := \<lparr>et_hosts = env_list getenv hosts (et_hosts (us_etcd u)), et_key = env_string getenv key (et_key (us_etcd u))\<rparr>\<rparr>"

definition endpoint_apply_env :: "environ \<Rightarrow> database_config \<Rightarrow> database_config" where
  "endpoint_apply_env getenv d =
     db_apply_env getenv (d\<lparr>dc_host := env_string getenv ''DATABASE_HOST'' (dc_host d),
       dc_port := env_port getenv ''DATABASE_PORT'' (dc_port d)\<rparr>)"

definition order_api_apply_env :: "environ \<Rightarrow> order_api_config \<Rightarrow> order_api_config" where
  "order_api_apply_env getenv c = c\<lparr>
     oc_access_secret := env_string getenv ''JWT_SECRET'' (oc_access_secret c),
     oc_telemetry_endpoint := env_string getenv ''OTLP_ENDPOINT'' (oc_telemetry_endpoint c),
     oc_database := endpoint_apply_env getenv (oc_database c),
     oc_user_svc := user_svc_apply_env getenv ''USERSVC_ETCD_HOSTS'' ''USERSVC_ETCD_KEY'' (oc_user_svc c),
     oc_redis := (oc_redis c)\<lparr>rd_host := env_string getenv ''REDIS_HOST'' (rd_host (oc_redis c))\<rparr>,
     oc_cors := cors_apply_env getenv (oc_cors c),
     oc_kafka := kafka_apply_env getenv (oc_kafka c)\<rparr>"

record user_rpc_config =
  uc_telemetry_endpoint :: string
  uc_etcd :: etcd_conf
  uc_database :: database_config
  uc_redis_cache :: redis_config
  uc_cache :: cache_config
  uc_kafka :: kafka_config

definition etcd_apply_env :: "environ \<Rightarrow> etcd_conf \<Rightarrow> etcd_conf" where
  "etcd_apply_env getenv e =
     \<lparr>et_hosts = env_list getenv ''ETCD_HOSTS'' (et_hosts e), et_key = env_string getenv ''ETCD_KEY'' (et_key e)\<rparr>"

definition user_rpc_apply_env :: "environ \<Rightarrow> user_rpc_config \<Rightarrow> user_rpc_config" where
  "user_rpc_apply_env getenv c = c\<lparr>
     uc_telemetry_endpoint := env_string getenv ''OTLP_ENDPOINT'' (uc_telemetry_endpoint c),
     uc_database := endpoint_apply_env getenv (uc_database c),
     uc_etcd := etcd_apply_env getenv (uc_etcd c),
     uc_redis_cache := (uc_redis_cache c)\<lparr>rd_host := env_string getenv ''REDIS_HOST'' (rd_host (uc_redis_cache c))\<rparr>,
     uc_cache := \<lparr>ca_ttl = env_duration getenv ''CACHE_TTL'' (ca_ttl (uc_cache c)),
                  ca_negative_ttl = env_duration getenv ''CACHE_NEGATIVE_TTL'' (ca_negative_ttl (uc_cache c))\<rparr>,
     uc_kafka := kafka_apply_env getenv (uc_kafka c)\<rparr>"

record user_api_config =
  ac_access_secret :: string
  ac_access_expire :: int
  ac_telemetry_endpoint :: string
  ac_user_svc :: user_svc_config
  ac_cors :: cors_config
  ac_redis :: redis_config

definition user_api_apply_env :: "environ \<Rightarrow> user_api_config \<Rightarrow> user_api_config" where
  "user_api_apply_env getenv c = c\<lparr>
     ac_access_secret := env_string getenv ''JWT_SECRET'' (ac_access_secret c),
     ac_telemetry_endpoint := env_string getenv ''OTLP_ENDPOINT'' (ac_telemetry_endpoint c),
     ac_user_svc := user_svc_apply_env getenv ''ETCD_HOSTS'' ''ETCD_KEY'' (ac_user_svc c),
     ac_redis := (ac_redis c)\<lparr>rd_host := env_string getenv ''REDIS_HOST'' (rd_host (ac_redis c))\<rparr>,
     ac_cors := cors_apply_env getenv (ac_cors c)\<rparr>"

record inventory_rpc_config =
  ic_telemetry_endpoint :: string
  ic_etcd :: etcd_conf
  ic_database :: database_config
  ic_kafka :: kafka_config

definition inventory_rpc_apply_env :: "environ \<Rightarrow> inventory_rpc_config \<Rightarrow> inventory_rpc_config" where
  "inventory_rpc_apply_env getenv c = c\<lparr>
     ic_telemetry_endpoint := env_string getenv ''OTLP_ENDPOINT'' (ic_telemetry_endpoint c),
     ic_database := endpoint_apply_env getenv (ic_database c),
     ic_etcd := etcd_apply_env getenv (ic_etcd c),
     ic_kafka := kafka_apply_env getenv (ic_kafka c)\<rparr>"

subsection \<open>Connections\<close>

text \<open>
  \<open>xdb.New\<close>: GORM and \<open>database/sql\<close> are parameters; the result is the pool with its settings, a lifetime only when it
  is positive.
\<close>

record 'p sql_pool =
  sp_pool :: 'p
  sp_logger :: gorm_logger
  sp_max_open :: int
  sp_max_idle :: int
  sp_lifetime :: "int option"
  sp_idle_time :: "int option"
  sp_label :: string

definition dsn :: "database_config \<Rightarrow> string" where
  "dsn cfg = dc_user cfg @ '':'' @ dc_password cfg @ ''@tcp('' @ dc_host cfg @ '':'' @ int_text (dc_port cfg) @ '')/'' @
     dc_db_name cfg @ ''?parseTime=true&charset=utf8mb4&loc=Local''"

definition open_db ::
  "(string \<Rightarrow> gorm_logger \<Rightarrow> go_error + 'g) \<Rightarrow> ('g \<Rightarrow> go_error + 'p) \<Rightarrow> database_config \<Rightarrow> go_error + 'p sql_pool" where
  "open_db gorm_open sql_db cfg =
     (case gorm_open (dsn cfg) (NewGormLogger (dc_slow_threshold cfg)) of
        Inl err \<Rightarrow> Inl (Wrapped ''connect database'' err)
      | Inr g \<Rightarrow>
          (case sql_db g of
             Inl err \<Rightarrow> Inl (Wrapped ''get underlying sql.DB'' err)
           | Inr p \<Rightarrow> Inr \<lparr>sp_pool = p, sp_logger = NewGormLogger (dc_slow_threshold cfg),
               sp_max_open = dc_max_open_conns cfg, sp_max_idle = dc_max_idle_conns cfg,
               sp_lifetime = (if 0 < dc_conn_max_lifetime cfg then Some (dc_conn_max_lifetime cfg) else None),
               sp_idle_time = (if 0 < dc_conn_max_idle_time cfg then Some (dc_conn_max_idle_time cfg) else None),
               sp_label = dc_db_name cfg\<rparr>))"

definition open_redis ::
  "(string \<Rightarrow> string \<Rightarrow> int \<Rightarrow> 'c) \<Rightarrow> ('c \<Rightarrow> go_error option) \<Rightarrow> redis_config \<Rightarrow> go_error + 'c" where
  "open_redis new_client ping cfg =
     (let client = new_client (redis_addr cfg) (rd_password cfg) (rd_db cfg)
      in case ping client of Some err \<Rightarrow> Inl (Wrapped ''connect redis'' err) | None \<Rightarrow> Inr client)"

subsection \<open>Lists\<close>

lemma split_on_word: "c \<notin> set w \<Longrightarrow> split_on c w = [w]"
  by (induction w) auto

lemma split_on_append: "c \<notin> set w \<Longrightarrow> split_on c (w @ c # s) = w # split_on c s"
  by (induction w) auto

lemma split_join: "ws \<noteq> [] \<Longrightarrow> \<forall>w \<in> set ws. c \<notin> set w \<Longrightarrow> split_on c (join_with [c] ws) = ws"
  by (induction "[c]" ws rule: join_with.induct) (auto simp: split_on_word split_on_append)

lemma trim_space_id:
  assumes "w \<noteq> [] \<Longrightarrow> \<not> is_space (hd w) \<and> \<not> is_space (last w)"
  shows "trim_space w = w"
proof (cases w rule: rev_cases)
  case Nil
  then show ?thesis by (simp add: trim_space_def)
next
  case (snoc v c)
  have "w \<noteq> [] \<Longrightarrow> \<not> is_space (hd w) \<Longrightarrow> dropWhile is_space w = w" by (cases w) auto
  with assms snoc have "dropWhile is_space w = w" by simp
  moreover have "dropWhile is_space (rev w) = rev w" using assms snoc by simp
  ultimately show ?thesis by (simp add: trim_space_def)
qed

section \<open>Properties\<close>

text \<open>A configuration of user-rpc, as its file may give it.\<close>

definition sample_user_rpc_config :: user_rpc_config where
  "sample_user_rpc_config = \<lparr>uc_telemetry_endpoint = '''', uc_etcd = \<lparr>et_hosts = [], et_key = ''''\<rparr>,
     uc_database = \<lparr>dc_host = ''db'', dc_port = 3306, dc_user = ''u'', dc_password = ''p'', dc_db_name = ''users_db'',
       dc_max_open_conns = 25, dc_max_idle_conns = 10, dc_conn_max_lifetime = 1800000000000, dc_conn_max_idle_time = 300000000000,
       dc_slow_threshold = 200000000\<rparr>,
     uc_redis_cache = \<lparr>rd_host = ''redis'', rd_port = 6379, rd_password = '''', rd_db = 0\<rparr>,
     uc_cache = \<lparr>ca_ttl = 300000000000, ca_negative_ttl = 30000000000\<rparr>,
     uc_kafka = \<lparr>kc_bootstrap_servers = [], kc_group_id = '''', kc_topic = '''', kc_inventory_topic = ''''\<rparr>\<rparr>"

text \<open>
  A list of names written with commas into a variable is the list the service uses, for names without
  commas and without spaces at the ends.
\<close>
theorem env_list_roundtrip:
  assumes "ws \<noteq> []" "ws \<noteq> ['''']" "getenv name = join_with '','' ws"
    and "\<forall>w \<in> set ws. CHR '','' \<notin> set w \<and> (w \<noteq> [] \<longrightarrow> \<not> is_space (hd w) \<and> \<not> is_space (last w))"
  shows "env_list getenv name old = ws"
proof -
  have "join_with '','' ws \<noteq> ''''" using assms(1,2) by (cases ws; cases "tl ws") auto
  moreover have "split_on (CHR '','') (join_with '','' ws) = ws" using split_join [OF assms(1), of "CHR '',''"] assms(4) by simp
  moreover have "map trim_space ws = ws" using assms(4) by (simp add: map_idI trim_space_id)
  ultimately show ?thesis using assms(1,3) by (simp add: env_list_def EnvList_def)
qed

lemma env_list_roundtrip_witness:
  "kc_bootstrap_servers (kafka_apply_env (\<lambda>n. if n = ''KAFKA_BOOTSTRAP_SERVERS'' then ''k1:9092,k2:9092'' else '''')
     (uc_kafka sample_user_rpc_config)) = [''k1:9092'', ''k2:9092'']"
  using env_list_roundtrip [of "[''k1:9092'', ''k2:9092'']" "\<lambda>n. if n = ''KAFKA_BOOTSTRAP_SERVERS'' then ''k1:9092,k2:9092'' else ''''"
      "''KAFKA_BOOTSTRAP_SERVERS''"]
  by (simp add: kafka_apply_env_def is_space_def Let_def)

text \<open>
  The service refuses to start exactly when its mode is \<open>pro\<close> or \<open>pre\<close> and one of its secrets is a known default;
  in every other mode it starts, and says so when it found one.
\<close>
theorem secrets_checked:
  "fst (ValidateSecrets mode secrets) \<noteq> None \<longleftrightarrow>
     (mode = ''pro'' \<or> mode = ''pre'') \<and> (\<exists>s \<in> set secrets. s \<in> set defaultSecrets)"
  "snd (ValidateSecrets mode secrets) \<noteq> [] \<longleftrightarrow>
     \<not> (mode = ''pro'' \<or> mode = ''pre'') \<and> (\<exists>s \<in> set secrets. s \<in> set defaultSecrets)"
proof -
  have "secret_warnings secrets = [] \<longleftrightarrow> \<not> (\<exists>s \<in> set secrets. s \<in> set defaultSecrets)"
    by (auto simp: secret_warnings_def defaultSecrets_def)
  then show "fst (ValidateSecrets mode secrets) \<noteq> None \<longleftrightarrow>
     (mode = ''pro'' \<or> mode = ''pre'') \<and> (\<exists>s \<in> set secrets. s \<in> set defaultSecrets)"
    and "snd (ValidateSecrets mode secrets) \<noteq> [] \<longleftrightarrow>
     \<not> (mode = ''pro'' \<or> mode = ''pre'') \<and> (\<exists>s \<in> set secrets. s \<in> set defaultSecrets)"
    by (simp_all add: ValidateSecrets_def Let_def)
qed

text \<open>
  The default of \<open>docker-compose.yml\<close> for \<open>JWT_SECRET\<close> is not among the known defaults, so a service in production mode
  accepts it.
\<close>
lemma compose_secret_accepted:
  "ValidateSecrets ''pro'' [''dev-only-secret-do-not-use-in-prod''] = (None, [])"
  by (simp add: ValidateSecrets_def secret_warnings_def defaultSecrets_def)

end
