(* ===== verification/ConfigProps.thy ===== *)
theory ConfigProps
  imports Config
begin

text \<open>
  What the environment can say, the services understand: a configuration that is written into the variables is the one a
  service gets, whatever its file holds, and a variable changes nothing but its own field.  The first part is the round trip of
  the texts: numbers, durations in nanoseconds, and lists with commas.
\<close>

subsection \<open>Texts of durations and ports\<close>

definition duration_text :: "int \<Rightarrow> string" where
  "duration_text d = int_text d @ ''ns''"

lemma digits_value_ge: "digits_value x s = Some n \<Longrightarrow> x \<le> n"
  by (induction x s rule: digits_value.induct) (auto split: option.splits)

lemma leading_int_digits:
  assumes "digits_value x s = Some n" "n \<le> 2 ^ 63" "rest = [] \<or> digit_value (hd rest) = None"
  shows "leading_int x (s @ rest) = Some (n, rest)"
  using assms(1)
proof (induction s arbitrary: x)
  case Nil
  with assms(3) show ?case by (cases rest) auto
next
  case (Cons c cs)
  then obtain d where d: "digit_value c = Some d" "digits_value (10 * x + d) cs = Some n" by (auto split: option.splits)
  from digits_value_ge [OF d(2)] assms(2) have "10 * x + d \<le> 2 ^ 63" by simp
  with d Cons.IH [OF d(2)] show ?case by simp
qed

lemma duration_item_ns:
  assumes "n \<le> 2 ^ 63"
  shows "duration_item (format_uint n @ ''ns'') = Some (n, [])"
proof -
  obtain c cs where c: "format_uint n = c # cs" "digit_value c \<noteq> None" by (rule format_uint_hd)
  have int: "leading_int 0 (format_uint n @ ''ns'') = Some (n, ''ns'')"
    by (rule leading_int_digits [OF digits_value_format assms]) (simp add: digit_value_def)
  have "length ''ns'' \<noteq> length (format_uint n @ ''ns'')" using c(1) by simp
  with int c assms show ?thesis
    by (simp add: duration_item_def Let_def is_digit_def unit_map_def digit_value_def)
qed

lemma ParseDuration_text: "in_int64 d \<Longrightarrow> ParseDuration (duration_text d) = Some d"
proof -
  assume d: "in_int64 d"
  let ?n = "nat \<bar>d\<bar>"
  obtain c cs where c: "format_uint ?n = c # cs" "c \<noteq> CHR ''-''" "c \<noteq> CHR ''+''" by (rule format_uint_hd)
  have n: "?n \<le> 2 ^ 63" using d by (auto simp: in_int64_def)
  from duration_item_ns [OF n] c(1) have "duration_item (c # cs @ ''ns'') = Some (?n, [])" by simp
  with n have "duration_loop 0 (format_uint ?n @ ''ns'') = Some ?n"
    by (subst duration_loop.simps) (simp add: c(1) duration_loop.simps [of _ "[]"])
  moreover have "format_uint ?n @ ''ns'' \<noteq> ''0''" "format_uint ?n @ ''ns'' \<noteq> []" by (auto simp: append_eq_Cons_conv)
  ultimately show ?thesis
    using c d n by (auto simp: duration_text_def int_text_def ParseDuration_def in_int64_def Let_def)
qed

lemma go_atoi_text: "in_int64 p \<Longrightarrow> go_atoi (int_text p) = Some p"
proof -
  assume p: "in_int64 p"
  obtain c cs where c: "format_uint (nat p) = c # cs" "c \<noteq> CHR ''-''" "c \<noteq> CHR ''+''" by (rule format_uint_hd)
  with p parse_format_uint [of "nat p"] show ?thesis
    by (cases "p < 0") (simp_all add: go_atoi_def int_text_def parse_format_uint)
qed

subsection \<open>One variable\<close>

definition names_ok :: "string list \<Rightarrow> bool" where
  "names_ok ws \<longleftrightarrow> ws \<noteq> [] \<and> ws \<noteq> [''''] \<and>
     (\<forall>w \<in> set ws. CHR '','' \<notin> set w \<and> (w \<noteq> [] \<longrightarrow> \<not> is_space (hd w) \<and> \<not> is_space (last w)))"

lemma env_string_set: "getenv name = s \<Longrightarrow> s \<noteq> '''' \<Longrightarrow> env_string getenv name old = s"
  by (simp add: env_string_def)

lemma env_duration_set: "getenv name = duration_text d \<Longrightarrow> in_int64 d \<Longrightarrow> env_duration getenv name old = d"
  by (simp add: env_duration_def ParseDuration_text) (simp add: duration_text_def)

lemma env_port_set: "getenv name = int_text p \<Longrightarrow> in_int64 p \<Longrightarrow> env_port getenv name old = p"
  using go_atoi_text [of p] format_uint_nonempty by (auto simp: env_port_def int_text_def)

lemma env_list_set: "getenv name = join_with '','' ws \<Longrightarrow> names_ok ws \<Longrightarrow> env_list getenv name old = ws"
  unfolding names_ok_def by (rule env_list_roundtrip) simp_all

lemmas env_set = env_string_set env_duration_set env_port_set env_list_set

lemma env_unset:
  "getenv name = '''' \<Longrightarrow> env_string getenv name old = old" "getenv name = '''' \<Longrightarrow> env_duration getenv name d = d"
  "getenv name = '''' \<Longrightarrow> env_port getenv name d = d" "getenv name = '''' \<Longrightarrow> env_list getenv name l = l"
  by (simp_all add: env_string_def env_duration_def env_port_def env_list_def EnvList_def)

subsection \<open>Configurations as environments\<close>

definition env_of :: "(string \<times> string) list \<Rightarrow> environ" where
  "env_of vars = (\<lambda>name. case map_of vars name of None \<Rightarrow> '''' | Some v \<Rightarrow> v)"

text \<open>
  The variables a configuration is written into, when it can be: no empty texts, and lists that commas can separate.
  A part \<open>c0\<close> with what the variables can change taken from \<open>c\<close> is \<open>taken c0 c\<close>.
\<close>

definition database_vars :: "database_config \<Rightarrow> (string \<times> string) list" where
  "database_vars d =
     [(''DATABASE_HOST'', dc_host d), (''DATABASE_PORT'', int_text (dc_port d)),
      (''DATABASE_CONN_MAX_LIFETIME'', duration_text (dc_conn_max_lifetime d)),
      (''DATABASE_CONN_MAX_IDLE_TIME'', duration_text (dc_conn_max_idle_time d)),
      (''DATABASE_SLOW_THRESHOLD'', duration_text (dc_slow_threshold d))]"

definition database_writable :: "database_config \<Rightarrow> bool" where
  "database_writable d \<longleftrightarrow> dc_host d \<noteq> '''' \<and> in_int64 (dc_port d) \<and> in_int64 (dc_conn_max_lifetime d) \<and>
     in_int64 (dc_conn_max_idle_time d) \<and> in_int64 (dc_slow_threshold d)"

definition database_taken :: "database_config \<Rightarrow> database_config \<Rightarrow> database_config" where
  "database_taken d0 d = d0\<lparr>dc_host := dc_host d, dc_port := dc_port d, dc_conn_max_lifetime := dc_conn_max_lifetime d,
     dc_conn_max_idle_time := dc_conn_max_idle_time d, dc_slow_threshold := dc_slow_threshold d\<rparr>"

definition user_rpc_vars :: "user_rpc_config \<Rightarrow> (string \<times> string) list" where
  "user_rpc_vars c = database_vars (uc_database c) @
     [(''OTLP_ENDPOINT'', uc_telemetry_endpoint c), (''ETCD_HOSTS'', join_with '','' (et_hosts (uc_etcd c))),
      (''ETCD_KEY'', et_key (uc_etcd c)), (''REDIS_HOST'', rd_host (uc_redis_cache c)),
      (''CACHE_TTL'', duration_text (ca_ttl (uc_cache c))), (''CACHE_NEGATIVE_TTL'', duration_text (ca_negative_ttl (uc_cache c))),
      (''KAFKA_BOOTSTRAP_SERVERS'', join_with '','' (kc_bootstrap_servers (uc_kafka c)))]"

definition user_rpc_writable :: "user_rpc_config \<Rightarrow> bool" where
  "user_rpc_writable c \<longleftrightarrow> database_writable (uc_database c) \<and> uc_telemetry_endpoint c \<noteq> '''' \<and> names_ok (et_hosts (uc_etcd c)) \<and>
     et_key (uc_etcd c) \<noteq> '''' \<and> rd_host (uc_redis_cache c) \<noteq> '''' \<and> in_int64 (ca_ttl (uc_cache c)) \<and>
     in_int64 (ca_negative_ttl (uc_cache c)) \<and> names_ok (kc_bootstrap_servers (uc_kafka c))"

definition order_api_vars :: "order_api_config \<Rightarrow> (string \<times> string) list" where
  "order_api_vars c = database_vars (oc_database c) @
     [(''JWT_SECRET'', oc_access_secret c), (''OTLP_ENDPOINT'', oc_telemetry_endpoint c),
      (''USERSVC_ETCD_HOSTS'', join_with '','' (et_hosts (us_etcd (oc_user_svc c)))),
      (''USERSVC_ETCD_KEY'', et_key (us_etcd (oc_user_svc c))), (''REDIS_HOST'', rd_host (oc_redis c)),
      (''CORS_ALLOWED_ORIGINS'', join_with '','' (oc_cors c)),
      (''KAFKA_BOOTSTRAP_SERVERS'', join_with '','' (kc_bootstrap_servers (oc_kafka c)))]"

definition order_api_writable :: "order_api_config \<Rightarrow> bool" where
  "order_api_writable c \<longleftrightarrow> database_writable (oc_database c) \<and> oc_access_secret c \<noteq> '''' \<and> oc_telemetry_endpoint c \<noteq> '''' \<and>
     names_ok (et_hosts (us_etcd (oc_user_svc c))) \<and> et_key (us_etcd (oc_user_svc c)) \<noteq> '''' \<and> rd_host (oc_redis c) \<noteq> '''' \<and>
     names_ok (oc_cors c) \<and> names_ok (kc_bootstrap_servers (oc_kafka c))"

definition user_api_vars :: "user_api_config \<Rightarrow> (string \<times> string) list" where
  "user_api_vars c =
     [(''JWT_SECRET'', ac_access_secret c), (''OTLP_ENDPOINT'', ac_telemetry_endpoint c),
      (''ETCD_HOSTS'', join_with '','' (et_hosts (us_etcd (ac_user_svc c)))), (''ETCD_KEY'', et_key (us_etcd (ac_user_svc c))),
      (''REDIS_HOST'', rd_host (ac_redis c)), (''CORS_ALLOWED_ORIGINS'', join_with '','' (ac_cors c))]"

definition user_api_writable :: "user_api_config \<Rightarrow> bool" where
  "user_api_writable c \<longleftrightarrow> ac_access_secret c \<noteq> '''' \<and> ac_telemetry_endpoint c \<noteq> '''' \<and>
     names_ok (et_hosts (us_etcd (ac_user_svc c))) \<and> et_key (us_etcd (ac_user_svc c)) \<noteq> '''' \<and> rd_host (ac_redis c) \<noteq> '''' \<and>
     names_ok (ac_cors c)"

definition inventory_rpc_vars :: "inventory_rpc_config \<Rightarrow> (string \<times> string) list" where
  "inventory_rpc_vars c = database_vars (ic_database c) @
     [(''OTLP_ENDPOINT'', ic_telemetry_endpoint c), (''ETCD_HOSTS'', join_with '','' (et_hosts (ic_etcd c))),
      (''ETCD_KEY'', et_key (ic_etcd c)),
      (''KAFKA_BOOTSTRAP_SERVERS'', join_with '','' (kc_bootstrap_servers (ic_kafka c)))]"

definition inventory_rpc_writable :: "inventory_rpc_config \<Rightarrow> bool" where
  "inventory_rpc_writable c \<longleftrightarrow> database_writable (ic_database c) \<and> ic_telemetry_endpoint c \<noteq> '''' \<and>
     names_ok (et_hosts (ic_etcd c)) \<and> et_key (ic_etcd c) \<noteq> '''' \<and> names_ok (kc_bootstrap_servers (ic_kafka c))"

lemma database_set:
  assumes "database_writable d" "vars = database_vars d @ rest"
  shows "endpoint_apply_env (env_of vars) d0 = database_taken d0 d"
  using assms
  by (simp add: endpoint_apply_env_def db_apply_env_def database_taken_def database_writable_def env_of_def database_vars_def env_set)

lemmas apply_env_defs = user_rpc_apply_env_def order_api_apply_env_def user_api_apply_env_def inventory_rpc_apply_env_def
  endpoint_apply_env_def db_apply_env_def etcd_apply_env_def user_svc_apply_env_def kafka_apply_env_def cors_apply_env_def

section \<open>Properties\<close>

text \<open>
  C30: the services read their environment right.  A configuration of a service that is written into its variables, durations
  in nanoseconds and lists with commas, is what the service has after the overrides, in every field that has a
  variable, whatever the file said there; the other fields are those of the file.  With no variable set the
  configuration of the file stays as it is.
\<close>
theorem overrides_understood:
  assumes "user_rpc_writable u" "order_api_writable q" "user_api_writable a" "inventory_rpc_writable v"
  shows "user_rpc_apply_env (env_of (user_rpc_vars u)) u0 = u0\<lparr>uc_telemetry_endpoint := uc_telemetry_endpoint u, uc_etcd := uc_etcd u,
      uc_database := database_taken (uc_database u0) (uc_database u),
      uc_redis_cache := (uc_redis_cache u0)\<lparr>rd_host := rd_host (uc_redis_cache u)\<rparr>, uc_cache := uc_cache u,
      uc_kafka := (uc_kafka u0)\<lparr>kc_bootstrap_servers := kc_bootstrap_servers (uc_kafka u)\<rparr>\<rparr> \<and>
    order_api_apply_env (env_of (order_api_vars q)) q0 = q0\<lparr>oc_access_secret := oc_access_secret q,
      oc_telemetry_endpoint := oc_telemetry_endpoint q, oc_database := database_taken (oc_database q0) (oc_database q),
      oc_user_svc := (oc_user_svc q0)\<lparr>us_etcd := us_etcd (oc_user_svc q)\<rparr>,
      oc_redis := (oc_redis q0)\<lparr>rd_host := rd_host (oc_redis q)\<rparr>, oc_cors := oc_cors q,
      oc_kafka := (oc_kafka q0)\<lparr>kc_bootstrap_servers := kc_bootstrap_servers (oc_kafka q)\<rparr>\<rparr> \<and>
    user_api_apply_env (env_of (user_api_vars a)) a0 = a0\<lparr>ac_access_secret := ac_access_secret a,
      ac_telemetry_endpoint := ac_telemetry_endpoint a, ac_user_svc := (ac_user_svc a0)\<lparr>us_etcd := us_etcd (ac_user_svc a)\<rparr>,
      ac_redis := (ac_redis a0)\<lparr>rd_host := rd_host (ac_redis a)\<rparr>, ac_cors := ac_cors a\<rparr> \<and>
    inventory_rpc_apply_env (env_of (inventory_rpc_vars v)) v0 = v0\<lparr>ic_telemetry_endpoint := ic_telemetry_endpoint v,
      ic_etcd := ic_etcd v, ic_database := database_taken (ic_database v0) (ic_database v),
      ic_kafka := (ic_kafka v0)\<lparr>kc_bootstrap_servers := kc_bootstrap_servers (ic_kafka v)\<rparr>\<rparr> \<and>
    user_rpc_apply_env (\<lambda>_. '''') u0 = u0 \<and> order_api_apply_env (\<lambda>_. '''') q0 = q0 \<and>
    user_api_apply_env (\<lambda>_. '''') a0 = a0 \<and> inventory_rpc_apply_env (\<lambda>_. '''') v0 = v0"
proof (intro conjI)
  show "user_rpc_apply_env (env_of (user_rpc_vars u)) u0 = u0\<lparr>uc_telemetry_endpoint := uc_telemetry_endpoint u, uc_etcd := uc_etcd u,
      uc_database := database_taken (uc_database u0) (uc_database u),
      uc_redis_cache := (uc_redis_cache u0)\<lparr>rd_host := rd_host (uc_redis_cache u)\<rparr>, uc_cache := uc_cache u,
      uc_kafka := (uc_kafka u0)\<lparr>kc_bootstrap_servers := kc_bootstrap_servers (uc_kafka u)\<rparr>\<rparr>"
    using assms(1) database_set [of "uc_database u" _ _ "uc_database u0", OF _ user_rpc_vars_def]
    by (simp add: user_rpc_writable_def user_rpc_apply_env_def etcd_apply_env_def kafka_apply_env_def)
      (simp add: env_of_def user_rpc_vars_def database_vars_def env_set)
  show "order_api_apply_env (env_of (order_api_vars q)) q0 = q0\<lparr>oc_access_secret := oc_access_secret q,
      oc_telemetry_endpoint := oc_telemetry_endpoint q, oc_database := database_taken (oc_database q0) (oc_database q),
      oc_user_svc := (oc_user_svc q0)\<lparr>us_etcd := us_etcd (oc_user_svc q)\<rparr>,
      oc_redis := (oc_redis q0)\<lparr>rd_host := rd_host (oc_redis q)\<rparr>, oc_cors := oc_cors q,
      oc_kafka := (oc_kafka q0)\<lparr>kc_bootstrap_servers := kc_bootstrap_servers (oc_kafka q)\<rparr>\<rparr>"
    using assms(2) database_set [of "oc_database q" _ _ "oc_database q0", OF _ order_api_vars_def]
    by (simp add: order_api_writable_def order_api_apply_env_def user_svc_apply_env_def cors_apply_env_def kafka_apply_env_def)
      (simp add: env_of_def order_api_vars_def database_vars_def env_set)
  show "user_api_apply_env (env_of (user_api_vars a)) a0 = a0\<lparr>ac_access_secret := ac_access_secret a,
      ac_telemetry_endpoint := ac_telemetry_endpoint a, ac_user_svc := (ac_user_svc a0)\<lparr>us_etcd := us_etcd (ac_user_svc a)\<rparr>,
      ac_redis := (ac_redis a0)\<lparr>rd_host := rd_host (ac_redis a)\<rparr>, ac_cors := ac_cors a\<rparr>"
    using assms(3)
    by (simp add: user_api_writable_def user_api_apply_env_def user_svc_apply_env_def cors_apply_env_def)
      (simp add: env_of_def user_api_vars_def env_set)
  show "inventory_rpc_apply_env (env_of (inventory_rpc_vars v)) v0 = v0\<lparr>ic_telemetry_endpoint := ic_telemetry_endpoint v,
      ic_etcd := ic_etcd v, ic_database := database_taken (ic_database v0) (ic_database v),
      ic_kafka := (ic_kafka v0)\<lparr>kc_bootstrap_servers := kc_bootstrap_servers (ic_kafka v)\<rparr>\<rparr>"
    using assms(4) database_set [of "ic_database v" _ _ "ic_database v0", OF _ inventory_rpc_vars_def]
    by (simp add: inventory_rpc_writable_def inventory_rpc_apply_env_def etcd_apply_env_def kafka_apply_env_def)
      (simp add: env_of_def inventory_rpc_vars_def database_vars_def env_set)
qed (simp_all add: apply_env_defs env_unset)

text \<open>Four configurations, written into the variables of services that have the one of \<open>sample_user_rpc_config\<close> in their file.\<close>

definition written_etcd :: etcd_conf where
  "written_etcd = \<lparr>et_hosts = [''e1:2379'', ''e2:2379''], et_key = ''user.rpc''\<rparr>"

definition written_kafka :: kafka_config where
  "written_kafka = \<lparr>kc_bootstrap_servers = [''k1:9092'', ''k2:9092''], kc_group_id = ''g'', kc_topic = ''t'', kc_inventory_topic = ''i''\<rparr>"

definition written_user_rpc :: user_rpc_config where
  "written_user_rpc = \<lparr>uc_telemetry_endpoint = ''otel:4317'', uc_etcd = written_etcd,
     uc_database = (uc_database sample_user_rpc_config)\<lparr>dc_host := ''mysql'', dc_port := 3307, dc_slow_threshold := 5000000\<rparr>,
     uc_redis_cache = uc_redis_cache sample_user_rpc_config,
     uc_cache = \<lparr>ca_ttl = 60000000000, ca_negative_ttl = - 1\<rparr>, uc_kafka = written_kafka\<rparr>"

definition written_order_api :: order_api_config where
  "written_order_api = \<lparr>oc_access_secret = ''s3cret'', oc_access_expire = 0, oc_telemetry_endpoint = ''otel:4317'',
     oc_database = uc_database written_user_rpc,
     oc_user_svc = \<lparr>us_etcd = written_etcd, us_endpoints = [], us_timeout = 0\<rparr>, oc_redis = uc_redis_cache sample_user_rpc_config,
     oc_cors = [''https://a.io''], oc_kafka = written_kafka\<rparr>"

definition written_user_api :: user_api_config where
  "written_user_api = \<lparr>ac_access_secret = ''s3cret'', ac_access_expire = 0, ac_telemetry_endpoint = ''otel:4317'',
     ac_user_svc = \<lparr>us_etcd = written_etcd, us_endpoints = [], us_timeout = 0\<rparr>, ac_cors = [''https://a.io''],
     ac_redis = uc_redis_cache sample_user_rpc_config\<rparr>"

definition written_inventory_rpc :: inventory_rpc_config where
  "written_inventory_rpc = \<lparr>ic_telemetry_endpoint = ''otel:4317'', ic_etcd = written_etcd, ic_database = uc_database written_user_rpc,
     ic_kafka = written_kafka\<rparr>"

lemma written_ok:
  "user_rpc_writable written_user_rpc" "order_api_writable written_order_api" "user_api_writable written_user_api"
  "inventory_rpc_writable written_inventory_rpc"
  by code_simp+

lemma overrides_understood_witness:
  "let c = user_rpc_apply_env (env_of (user_rpc_vars written_user_rpc)) sample_user_rpc_config in
     uc_cache c = \<lparr>ca_ttl = 60000000000, ca_negative_ttl = - 1\<rparr> \<and> et_hosts (uc_etcd c) = [''e1:2379'', ''e2:2379''] \<and>
     dc_port (uc_database c) = 3307 \<and> dc_password (uc_database c) = ''p'' \<and> kc_group_id (uc_kafka c) = ''''"
proof -
  from conjunct1 [OF overrides_understood [OF written_ok, of sample_user_rpc_config undefined undefined undefined]]
  show ?thesis
    by (simp add: Let_def written_user_rpc_def written_etcd_def written_kafka_def database_taken_def sample_user_rpc_config_def)
qed

end
