(* ===== verification/Middleware.thy ===== *)
theory Middleware
  imports HttpCommon
begin

text \<open>
  \<open>common/middleware\<close>: the identity of a request, the address of its client, and the middlewares for CORS,
  health, logging and the rate limit.  A handler is a function from a request to what it
  does with its \<open>http.ResponseWriter\<close>, in order, and a new state of the service; the limiter
  of go-zero (\<open>limit.PeriodLimit\<close>, counting in Redis) is a parameter.  The services mount the rate limit and the
  health check; for CORS they use go-zero's own, and no service mounts the middleware here or \<open>RequestLogger\<close>.
\<close>

subsection \<open>The user of a request\<close>

text \<open>
  The dynamic types \<open>parseUserID\<close> looks for.  A float is \<open>m * 2 ^ e\<close>; \<open>conv\<close> is what the machine makes of a
  float that no \<open>uint\<close> can hold, which Go leaves open.
\<close>

datatype ctx_value =
  VNumber string
| VFloat int int
| VUint nat
| VInt int
| VString string
| VOther

definition float_trunc :: "int \<Rightarrow> int \<Rightarrow> int" where
  "float_trunc m e = (if 0 \<le> e then m * 2 ^ nat e else m div 2 ^ nat (- e))"

fun parseUserID :: "(int \<Rightarrow> nat) \<Rightarrow> ctx_value \<Rightarrow> nat" where
  "parseUserID conv (VNumber s) =
     (case go_atoi s of None \<Rightarrow> 0 | Some i \<Rightarrow> if i < 0 then 0 else nat i)"
| "parseUserID conv (VFloat m e) =
     (if m < 0 then 0 else if float_trunc m e < 2 ^ 64 then nat (float_trunc m e) else conv (float_trunc m e))"
| "parseUserID conv (VUint n) = n"
| "parseUserID conv (VInt n) = nat (n mod 2 ^ 64)"
| "parseUserID conv (VString s) = (case parse_uint64 s of None \<Rightarrow> 0 | Some i \<Rightarrow> i)"
| "parseUserID conv VOther = 0"

text \<open>A context maps keys to values; the code's own key and go-zero's have the same text and different types.\<close>

datatype ctx_key = CtxKeyUserID | GoZeroKey string

type_synonym go_context = "ctx_key \<Rightarrow> ctx_value option"

definition GetUserIDFromContext :: "(int \<Rightarrow> nat) \<Rightarrow> go_context \<Rightarrow> nat" where
  "GetUserIDFromContext conv ctx =
     (case (case ctx CtxKeyUserID of None \<Rightarrow> ctx (GoZeroKey ''user_id'') | Some v \<Rightarrow> Some v) of
        None \<Rightarrow> 0
      | Some v \<Rightarrow> parseUserID conv v)"

subsection \<open>Requests and responses\<close>

text \<open>
  The headers of a request by their canonical names, as \<open>Header.Get\<close> reads them (the empty string when absent); the
  body with the error that ends reading it, if any.
\<close>

record http_request =
  hr_method :: string
  hr_path :: string
  hr_header :: "string \<Rightarrow> string"
  hr_remote :: string
  hr_ctx :: go_context
  hr_content_length :: int
  hr_body :: "(string \<times> go_error option) option"

definition GetUserID :: "(int \<Rightarrow> nat) \<Rightarrow> http_request \<Rightarrow> nat" where
  "GetUserID conv r = GetUserIDFromContext conv (hr_ctx r)"

datatype write_op = SetHeader string string | WriteHeader nat | WriteBody payload

type_synonym 's http_handler = "http_request \<Rightarrow> 's \<Rightarrow> write_op list \<times> 's"

text \<open>
  The status the client gets: the first \<open>WriteHeader\<close>, unless a body was begun before it; 200 by default.
\<close>

fun client_status :: "write_op list \<Rightarrow> nat" where
  "client_status [] = 200"
| "client_status (SetHeader k v # ops) = client_status ops"
| "client_status (WriteHeader n # ops) = n"
| "client_status (WriteBody b # ops) = 200"

text \<open>The headers the client gets: those set before the status or body.\<close>

fun client_headers :: "(string \<Rightarrow> string option) \<Rightarrow> write_op list \<Rightarrow> string \<Rightarrow> string option" where
  "client_headers m [] = m"
| "client_headers m (SetHeader k v # ops) = client_headers (m(k \<mapsto> v)) ops"
| "client_headers m (WriteHeader n # ops) = m"
| "client_headers m (WriteBody b # ops) = m"

subsection \<open>The client's address\<close>

definition clientIP :: "http_request \<Rightarrow> string" where
  "clientIP r =
     (let xff = hr_header r ''X-Forwarded-For'';
          left = (case cut_first (CHR '','') xff of None \<Rightarrow> xff | Some (a, _) \<Rightarrow> a)
      in if xff \<noteq> '''' \<and> trim_space left \<noteq> '''' then trim_space left
         else case split_host_port (hr_remote r) of Some (host, _) \<Rightarrow> host | None \<Rightarrow> hr_remote r)"

subsection \<open>CORS\<close>

definition isAllowedOrigin :: "string \<Rightarrow> string list \<Rightarrow> bool" where
  "isAllowedOrigin origin allowed \<longleftrightarrow> origin \<in> set allowed"

definition new_cors_middleware :: "string list \<Rightarrow> 's http_handler \<Rightarrow> 's http_handler" where
  "new_cors_middleware allowed_origins next_handler r s =
     (let allow_all = (length allowed_origins = 1 \<and> hd allowed_origins = ''*'');
          origin = hr_header r ''Origin'';
          origin_ops =
            (if allow_all then [SetHeader ''Access-Control-Allow-Origin'' ''*'']
             else if origin \<noteq> '''' \<and> isAllowedOrigin origin allowed_origins
             then [SetHeader ''Access-Control-Allow-Origin'' origin, SetHeader ''Vary'' ''Origin'']
             else []);
          ops = origin_ops @
            [SetHeader ''Access-Control-Allow-Methods'' ''GET, POST, PUT, DELETE, PATCH, OPTIONS'',
             SetHeader ''Access-Control-Allow-Headers'' ''Authorization, Content-Type, X-Requested-With'',
             SetHeader ''Access-Control-Expose-Headers'' ''Content-Length, Content-Type'',
             SetHeader ''Access-Control-Max-Age'' ''86400'']
      in if hr_method r = ''OPTIONS'' then (ops @ [WriteHeader 204], s)
         else case next_handler r s of (written, s1) \<Rightarrow> (ops @ written, s1))"

definition CorsMiddleware :: "'s http_handler \<Rightarrow> 's http_handler" where
  "CorsMiddleware next_handler = new_cors_middleware [''*''] next_handler"

subsection \<open>Health\<close>

fun run_checks :: "('s \<Rightarrow> go_error option \<times> 's) list \<Rightarrow> 's \<Rightarrow> go_error option \<times> 's" where
  "run_checks [] s = (None, s)"
| "run_checks (check # cs) s =
     (case check s of (Some err, s1) \<Rightarrow> (Some err, s1) | (None, s1) \<Rightarrow> run_checks cs s1)"

definition HealthHandler :: "string \<Rightarrow> ('s \<Rightarrow> go_error option \<times> 's) list \<Rightarrow> 's http_handler" where
  "HealthHandler name checks r s =
     (case run_checks checks s of
        (Some err, s1) \<Rightarrow>
          ([SetHeader ''Content-Type'' ''application/json'', WriteHeader 503,
            WriteBody (Doc (JObj [(''error'', JStr (error_text err)), (''service'', JStr name), (''status'', JStr ''unhealthy'')]))], s1)
      | (None, s1) \<Rightarrow>
          ([SetHeader ''Content-Type'' ''application/json'', WriteHeader 200,
            WriteBody (Doc (JObj [(''service'', JStr name), (''status'', JStr ''ok'')]))], s1))"

subsection \<open>Logging\<close>

record access_log =
  al_method :: string
  al_path :: string
  al_status :: nat
  al_ip :: string

text \<open>\<open>responseWriter\<close>: it passes everything on, and remembers the last status code written.\<close>

fun captured_status :: "nat \<Rightarrow> write_op list \<Rightarrow> nat" where
  "captured_status st [] = st"
| "captured_status st (WriteHeader n # ops) = captured_status n ops"
| "captured_status st (SetHeader k v # ops) = captured_status st ops"
| "captured_status st (WriteBody b # ops) = captured_status st ops"

text \<open>A small body is read ahead and put back; the error that ended the reading is dropped.\<close>

definition reread_body :: "http_request \<Rightarrow> http_request" where
  "reread_body r =
     (case hr_body r of
        None \<Rightarrow> r
      | Some (b, err) \<Rightarrow>
          if 0 < hr_content_length r \<and> hr_content_length r < 10240 then r\<lparr>hr_body := Some (b, None)\<rparr> else r)"

definition RequestLogger :: "'s http_handler \<Rightarrow> http_request \<Rightarrow> 's \<Rightarrow> write_op list \<times> access_log \<times> 's" where
  "RequestLogger next_handler r s =
     (let r1 = reread_body r in
      case next_handler r1 s of (ops, s1) \<Rightarrow>
        (ops,
         \<lparr>al_method = hr_method r1, al_path = hr_path r1, al_status = captured_status 200 ops,
          al_ip = (if hr_header r1 ''X-Forwarded-For'' = '''' then hr_remote r1 else hr_header r1 ''X-Forwarded-For'')\<rparr>,
         s1))"

subsection \<open>The rate limit\<close>

text \<open>The answers of \<open>PeriodLimit.TakeCtx\<close> (go-zero \<open>core/limit\<close>).\<close>

datatype take_code = TakeUnknown | TakeAllowed | TakeHitQuota | TakeOverQuota

record 'r rate_limiter =
  rl_period :: int
  rl_window :: int
  rl_take :: "string \<Rightarrow> 'r \<Rightarrow> (go_error + take_code) \<times> 'r"

text \<open>
  \<open>period_limit p rate prefix\<close> stands for \<open>limit.NewPeriodLimit\<close>; the window is in nanoseconds, and below
  2 to the 24th seconds \<open>window.Seconds()\<close> truncates exactly.
\<close>

definition NewRedisRateLimiter ::
  "(int \<Rightarrow> int \<Rightarrow> string \<Rightarrow> string \<Rightarrow> 'r \<Rightarrow> (go_error + take_code) \<times> 'r) \<Rightarrow> int \<Rightarrow> int \<Rightarrow> string \<Rightarrow> 'r rate_limiter" where
  "NewRedisRateLimiter period_limit rate window prefix =
     (let period = max (sgn window * (\<bar>window\<bar> div 1000000000)) 1
      in \<lparr>rl_period = period, rl_window = window, rl_take = period_limit period rate prefix\<rparr>)"

definition error_ops :: "nat \<Rightarrow> string \<Rightarrow> write_op list" where
  "error_ops st m = [SetHeader ''Content-Type'' ''application/json; charset=utf-8'', WriteHeader st,
     WriteBody (Doc (JObj [(''code'', JInt (- 1)), (''message'', JStr m)]))]"

definition rate_limit_middleware :: "'r rate_limiter \<Rightarrow> ('r \<times> 's) http_handler \<Rightarrow> ('r \<times> 's) http_handler" where
  "rate_limit_middleware rl next_handler r st =
     (case rl_take rl (clientIP r) (fst st) of
        (Inl err, l) \<Rightarrow> next_handler r (l, snd st)
      | (Inr code, l) \<Rightarrow>
          if code = TakeOverQuota then (error_ops 429 ''rate limit exceeded'', (l, snd st))
          else next_handler r (l, snd st))"

subsection \<open>Identity\<close>

lemma go_atoi_format_uint: "go_atoi (format_uint n) = (if n < 2 ^ 63 then Some (int n) else None)"
proof -
  have "hd (format_uint n) \<in> set (format_uint n)" by (simp add: format_uint_nonempty)
  then obtain d where d: "d < 10" "hd (format_uint n) = digit_char d" using format_uint_digits by blast
  then have "hd (format_uint n) \<noteq> CHR ''-''" "hd (format_uint n) \<noteq> CHR ''+''"
    using digit_value_char [OF d(1)] by (auto simp: digit_value_def)
  moreover obtain c cs where "format_uint n = c # cs" using format_uint_nonempty by (cases "format_uint n") auto
  moreover have "parse_digits (c # cs) = Some n" using parse_format_uint [of n] calculation by simp
  moreover have "int n < 2 ^ 63 \<longleftrightarrow> n < 2 ^ 63" by (metis of_nat_less_iff of_nat_numeral of_nat_power)
  ultimately show ?thesis by (simp add: go_atoi_def in_int64_def Let_def)
qed

text \<open>A user id in a JSON number comes back while it is in the range of \<open>int64\<close>; a larger one is nobody.\<close>

lemma parseUserID_claim: "parseUserID conv (VNumber (format_uint n)) = (if n < 2 ^ 63 then n else 0)"
  by (simp add: go_atoi_format_uint)

subsection \<open>The rate limit\<close>

text \<open>
  What the limiter is documented to do within one window: it counts the takes of each key and answers
  \<open>TakeOverQuota\<close> beyond the quota.
\<close>

definition limiter_counts :: "'r rate_limiter \<Rightarrow> nat \<Rightarrow> ('r \<Rightarrow> string \<Rightarrow> nat) \<Rightarrow> bool" where
  "limiter_counts rl rate count \<longleftrightarrow> (\<forall>ip l.
     fst (rl_take rl ip l) = Inr (if count l ip < rate - 1 then TakeAllowed
                                  else if count l ip = rate - 1 then TakeHitQuota else TakeOverQuota) \<and>
     count (snd (rl_take rl ip l)) = (count l)(ip := Suc (count l ip)))"

text \<open>Requests one after the other; the handler behind the limiter records those that get through.\<close>

definition record_request :: "('r \<times> http_request list) http_handler" where
  "record_request r st = ([WriteHeader 200], (fst st, snd st @ [r]))"

fun serve_all :: "'s http_handler \<Rightarrow> http_request list \<Rightarrow> 's \<Rightarrow> 's" where
  "serve_all h [] s = s"
| "serve_all h (r # rs) s = serve_all h rs (snd (h r s))"

lemma limited_step:
  assumes "limiter_counts rl rate count" "0 < rate"
  shows "rate_limit_middleware rl record_request r (l, seen) =
    (if count l (clientIP r) < rate then ([WriteHeader 200], (snd (rl_take rl (clientIP r) l), seen @ [r]))
     else (error_ops 429 ''rate limit exceeded'', (snd (rl_take rl (clientIP r) l), seen)))"
proof -
  obtain res l1 where t: "rl_take rl (clientIP r) l = (res, l1)" by (cases "rl_take rl (clientIP r) l")
  have "fst (rl_take rl (clientIP r) l) = Inr (if count l (clientIP r) < rate - 1 then TakeAllowed
      else if count l (clientIP r) = rate - 1 then TakeHitQuota else TakeOverQuota)"
    using assms(1) unfolding limiter_counts_def by blast
  with t assms(2) show ?thesis
    by (auto simp: rate_limit_middleware_def record_request_def)
qed

section \<open>Properties\<close>

text \<open>
  Of the requests of one client address in a window, exactly the first \<open>rate\<close> get through to the handler, however
  requests of other addresses are mixed in.
\<close>
theorem rate_limited:
  assumes "limiter_counts rl rate count" "0 < rate"
  shows "filter (\<lambda>r. clientIP r = ip) (snd (serve_all (rate_limit_middleware rl record_request) rs (l, seen))) =
    filter (\<lambda>r. clientIP r = ip) seen @ take (rate - count l ip) (filter (\<lambda>r. clientIP r = ip) rs)"
proof (induction rs arbitrary: l seen)
  case Nil
  then show ?case by simp
next
  case (Cons r rs)
  have count: "count (snd (rl_take rl (clientIP r) l)) = (count l)(clientIP r := Suc (count l (clientIP r)))"
    using assms(1) unfolding limiter_counts_def by blast
  show ?case
  proof (cases "count l (clientIP r) < rate")
    case True
    then have "rate - count l (clientIP r) = Suc (rate - Suc (count l (clientIP r)))" by simp
    with True Cons show ?thesis by (auto simp: limited_step [OF assms] count)
  next
    case False
    with Cons show ?thesis by (auto simp: limited_step [OF assms] count)
  qed
qed

text \<open>
  The CORS middleware lets the browser read an answer exactly when every origin is allowed or the request's
  own origin is on the list; it answers a preflight itself, with 204, and runs the handler for every other method.
\<close>
theorem cors_outcome:
  "(case new_cors_middleware allowed next_handler r s of (ops, s1) \<Rightarrow>
      s1 = (if hr_method r = ''OPTIONS'' then s else snd (next_handler r s)) \<and>
      (if hr_method r = ''OPTIONS''
       then client_status ops = 204 \<and>
         client_headers Map.empty ops ''Access-Control-Allow-Origin'' =
           (if allowed = [''*''] then Some ''*''
            else if hr_header r ''Origin'' \<noteq> '''' \<and> isAllowedOrigin (hr_header r ''Origin'') allowed
            then Some (hr_header r ''Origin'') else None)
       else \<exists>pre. ops = pre @ fst (next_handler r s) \<and>
         client_headers Map.empty pre ''Access-Control-Allow-Origin'' =
           (if allowed = [''*''] then Some ''*''
            else if hr_header r ''Origin'' \<noteq> '''' \<and> isAllowedOrigin (hr_header r ''Origin'') allowed
            then Some (hr_header r ''Origin'') else None)))"
proof -
  have "length allowed = 1 \<and> hd allowed = ''*'' \<longleftrightarrow> allowed = [''*'']" by (cases allowed) auto
  then show ?thesis
    by (auto simp: new_cors_middleware_def Let_def split: prod.splits)
qed


text \<open>A negative number is nobody in every representation but one.\<close>

lemma negative_user:
  "parseUserID conv (VNumber ''-1'') = 0" "parseUserID conv (VFloat (- 1) 0) = 0" "parseUserID conv (VInt (- 1)) = 18446744073709551615"
proof -
  have "go_atoi ''-1'' = Some (- 1)" by code_simp
  then show "parseUserID conv (VNumber ''-1'') = 0" by simp
qed simp_all

section \<open>Instances\<close>

definition mem_limiter :: "nat \<Rightarrow> (string \<Rightarrow> nat) rate_limiter" where
  "mem_limiter rate = NewRedisRateLimiter (\<lambda>period quota prefix ip l.
     (Inr (if l ip < rate - 1 then TakeAllowed else if l ip = rate - 1 then TakeHitQuota else TakeOverQuota),
      l(ip := Suc (l ip)))) (int rate) 1000000000 ''ratelimit:''"

lemma mem_limiter_counts: "limiter_counts (mem_limiter rate) rate (\<lambda>l. l)"
  by (simp add: limiter_counts_def mem_limiter_def NewRedisRateLimiter_def)

definition request_from :: "string \<Rightarrow> http_request" where
  "request_from addr = \<lparr>hr_method = ''GET'', hr_path = ''/'', hr_header = (\<lambda>_. ''''), hr_remote = addr, hr_ctx = Map.empty,
     hr_content_length = 0, hr_body = None\<rparr>"

lemma rate_limited_witness:
  "filter (\<lambda>r. clientIP r = ''10.0.0.1'')
     (snd (serve_all (rate_limit_middleware (mem_limiter 2) record_request)
       (map request_from [''10.0.0.1:80'', ''10.0.0.2:80'', ''10.0.0.1:81'', ''10.0.0.1:82'']) ((\<lambda>_. 0), []))) =
   map request_from [''10.0.0.1:80'', ''10.0.0.1:81'']"
proof -
  have ip: "clientIP (request_from ''10.0.0.1:80'') = ''10.0.0.1''" "clientIP (request_from ''10.0.0.1:81'') = ''10.0.0.1''"
    "clientIP (request_from ''10.0.0.1:82'') = ''10.0.0.1''" "clientIP (request_from ''10.0.0.2:80'') = ''10.0.0.2''"
    by (simp_all add: clientIP_def request_from_def split_host_port_def)
  show ?thesis
    by (subst rate_limited [OF mem_limiter_counts]) (simp_all add: ip numeral_2_eq_2)
qed

end
