(* ===== verification/HttpServer.thy ===== *)
theory HttpServer
  imports Middleware
begin

text \<open>
  The HTTP server of the two gateways: what a handler writes for a response, the tables of routes
  (\<open>handler/routes.go\<close>) with the JWT option, and the path of a request through the server
  that \<open>order.go\<close> and \<open>user.go\<close> put together.  The server itself is go-zero's \<open>rest.Server\<close> and a
  parameter, \<open>go_zero\<close>: which mounted route serves a request, whether its token is accepted, what is answered for
  CORS, and how a request is parsed into a struct.
\<close>

subsection \<open>Writing a response\<close>

text \<open>\<open>Response\<close> as JSON; \<open>data\<close> is left out when it is nil.\<close>

definition marshal_response :: "('a \<Rightarrow> json) \<Rightarrow> 'a response \<Rightarrow> json" where
  "marshal_response enc resp = JObj
     ([(''code'', JInt (rs_code resp)), (''message'', JStr (rs_message resp))] @
      (case rs_data resp of None \<Rightarrow> [] | Some x \<Rightarrow> [(''data'', enc x)]))"

definition respond :: "('a \<Rightarrow> json) \<Rightarrow> 'a response \<Rightarrow> write_op list" where
  "respond enc resp = [SetHeader ''Content-Type'' ''application/json; charset=utf-8'', WriteHeader (rs_status resp),
     WriteBody (Doc (marshal_response enc resp))]"

definition marshal_page :: "('a \<Rightarrow> json) \<Rightarrow> 'a page_result \<Rightarrow> json" where
  "marshal_page enc p = JObj
     [(''items'', JArr (map enc (pg_items p))), (''total'', JInt (int (pg_total p))), (''page'', JInt (pg_page p)),
      (''page_size'', JInt (pg_page_size p)), (''pages'', JInt (pg_pages p))]"

lemma respond_error: "respond enc (error_json st m) = error_ops st m"
  by (simp add: respond_def marshal_response_def error_ops_def)

definition NotAllowHandler :: "write_op list" where
  "NotAllowHandler = respond (\<lambda>_. JNull) (not_allow_handler :: unit response)"

subsection \<open>Routes\<close>

text \<open>A route with the options it is mounted with: the prefix is part of its path, the secret tells that it asks for a token.\<close>

record 's route =
  rt_method :: string
  rt_path :: string
  rt_handler :: "'s http_handler"
  rt_jwt :: "string option"

definition add_routes ::
  "string option \<Rightarrow> string \<Rightarrow> (string \<times> string \<times> 's http_handler) list \<Rightarrow> 's route list" where
  "add_routes jwt prefix rs = map (\<lambda>(m, p, h). \<lparr>rt_method = m, rt_path = prefix @ p, rt_handler = h, rt_jwt = jwt\<rparr>) rs"

datatype pick = Picked nat | WrongMethod | NoRoute

record go_zero =
  gz_pick :: "(string \<times> string) list \<Rightarrow> http_request \<Rightarrow> pick"
  gz_authorize :: "string \<Rightarrow> http_request \<Rightarrow> http_request option"
  gz_unauthorized :: "write_op list"
  gz_not_found :: "write_op list"
  gz_cors :: "string list \<Rightarrow> http_request \<Rightarrow> write_op list \<times> bool"

text \<open>What the router is documented to do: it picks one of the mounted routes, with the method of the request.\<close>

definition router_ok :: "go_zero \<Rightarrow> bool" where
  "router_ok gz \<longleftrightarrow> (\<forall>ps r i. gz_pick gz ps r = Picked i \<longrightarrow> i < length ps \<and> fst (ps ! i) = hr_method r)"

text \<open>
  A handler that knows nothing of the limiter's state, beside it; and the server: CORS, the router, the token (whose
  claims go into the context of the request), the rate limit mounted with \<open>Use\<close>, the handler.
\<close>

definition beside :: "'s http_handler \<Rightarrow> ('l \<times> 's) http_handler" where
  "beside h r st = (case h r (snd st) of (ops, s) \<Rightarrow> (ops, (fst st, s)))"

definition dispatch :: "go_zero \<Rightarrow> 'l rate_limiter \<Rightarrow> 's route list \<Rightarrow> ('l \<times> 's) http_handler" where
  "dispatch gz rl routes r st =
     (case gz_pick gz (map (\<lambda>t. (rt_method t, rt_path t)) routes) r of
        NoRoute \<Rightarrow> (gz_not_found gz, st)
      | WrongMethod \<Rightarrow> (NotAllowHandler, st)
      | Picked i \<Rightarrow>
          let h = rate_limit_middleware rl (beside (rt_handler (routes ! i))) in
          (case rt_jwt (routes ! i) of
             None \<Rightarrow> h r st
           | Some secret \<Rightarrow>
               (case gz_authorize gz secret r of
                  None \<Rightarrow> (gz_unauthorized gz, st)
                | Some r1 \<Rightarrow> h r1 st)))"

definition serve :: "go_zero \<Rightarrow> string list \<Rightarrow> 'l rate_limiter \<Rightarrow> 's route list \<Rightarrow> ('l \<times> 's) http_handler" where
  "serve gz origins rl routes r st =
     (case gz_cors gz origins r of (ops, answered) \<Rightarrow>
        if answered then (ops, st)
        else case dispatch gz rl routes r st of (ws, st1) \<Rightarrow> (ops @ ws, st1))"

lemma picked_route:
  assumes "router_ok gz" "gz_pick gz (map (\<lambda>t. (rt_method t, rt_path t)) routes) r = Picked i"
  shows "routes ! i \<in> set routes" "rt_method (routes ! i) = hr_method r"
proof -
  have "i < length (map (\<lambda>t. (rt_method t, rt_path t)) routes) \<and>
      fst (map (\<lambda>t. (rt_method t, rt_path t)) routes ! i) = hr_method r"
    using assms unfolding router_ok_def by blast
  then show "routes ! i \<in> set routes" "rt_method (routes ! i) = hr_method r"
    by (cases "i < length routes"; simp)+
qed

text \<open>What a served request comes to: no handler runs, or the handler of one route that was picked.\<close>

lemma serve_cases:
  assumes "router_ok gz" and run: "serve gz origins rl routes r (l, s) = (ops, (l1, s1))"
  obtains (none) "s1 = s"
  | (ran) t r1 ws pre where "t \<in> set routes" "rt_method t = hr_method r" "rt_handler t r1 s = (ws, s1)" "ops = pre @ ws"
      "rt_jwt t = None \<and> r1 = r \<or> (\<exists>secret. rt_jwt t = Some secret \<and> gz_authorize gz secret r = Some r1)"
proof (cases "gz_pick gz (map (\<lambda>t. (rt_method t, rt_path t)) routes) r")
  case (Picked i)
  note i = picked_route [OF assms(1) this]
  have limited: "s2 = s \<or> (\<exists>ws. rt_handler (routes ! i) r1 s = (ws, s2) \<and> o2 = ws)"
    if "rate_limit_middleware rl (beside (rt_handler (routes ! i))) r1 (l, s) = (o2, (l2, s2))" for r1 o2 l2 s2
    using that by (auto simp: rate_limit_middleware_def beside_def split: prod.splits sum.splits if_splits)
  show ?thesis
  proof (cases "rt_jwt (routes ! i)")
    case None
    with Picked run limited [of r] that i show ?thesis
      by (auto simp: serve_def dispatch_def Let_def split: prod.splits if_splits)
  next
    case (Some secret)
    show ?thesis
    proof (cases "gz_authorize gz secret r")
      case None
      with Picked run Some that(1) show ?thesis
        by (auto simp: serve_def dispatch_def Let_def split: prod.splits if_splits)
    next
      case auth: (Some r1)
      with Picked run Some limited [of r1] that i show ?thesis
        by (auto simp: serve_def dispatch_def Let_def split: prod.splits if_splits)
    qed
  qed
qed (use that run in \<open>auto simp: serve_def dispatch_def split: prod.splits if_splits\<close>)

text \<open>
  Two states a handler answers alike are answered alike by the server: its own parts look at the request and at
  the limiter only.
\<close>

lemma serve_cong:
  assumes "router_ok gz" and alike: "\<And>t r1. t \<in> set routes \<Longrightarrow> rt_method t = hr_method r \<Longrightarrow>
      (rt_jwt t = None \<and> r1 = r \<or> (\<exists>secret. rt_jwt t = Some secret \<and> gz_authorize gz secret r = Some r1)) \<Longrightarrow>
      fst (rt_handler t r1 s') = fst (rt_handler t r1 s)"
  shows "fst (serve gz origins rl routes r (l, s')) = fst (serve gz origins rl routes r (l, s))"
proof (cases "gz_pick gz (map (\<lambda>t. (rt_method t, rt_path t)) routes) r")
  case (Picked i)
  note i = picked_route [OF assms(1) this]
  have limited: "fst (rate_limit_middleware rl (beside (rt_handler (routes ! i))) r1 (l, s')) =
      fst (rate_limit_middleware rl (beside (rt_handler (routes ! i))) r1 (l, s))"
    if "fst (rt_handler (routes ! i) r1 s') = fst (rt_handler (routes ! i) r1 s)" for r1
    using that by (simp add: rate_limit_middleware_def beside_def split_beta split: sum.splits)
  show ?thesis
    using Picked alike [OF i] limited
    by (auto simp: serve_def dispatch_def Let_def split_beta split: option.splits)
qed (simp_all add: serve_def dispatch_def split: prod.splits)

subsection \<open>Bodies\<close>

text \<open>How go-zero decides that there is a JSON body to parse: by the length and the type of the content.\<close>

definition has_json_body :: "http_request \<Rightarrow> bool" where
  "has_json_body r \<longleftrightarrow> 0 < hr_content_length r \<and> str_contains ''application/json'' (hr_header r ''Content-Type'')"

end
