(* ===== verification/Relational.thy ===== *)
theory Relational
  imports SqlTx
begin

text \<open>
  Two runs of one database operation side by side.  \<open>agrees V t W\<close>: from data related by \<open>V\<close>, and with the same
  answers of the driver, \<open>t\<close> returns the same result in both runs, takes the same number of answers, and ends
  with data related by \<open>W\<close> of that result.  With a \<open>V\<close> that says what a user may see, this is noninterference: the
  result depends on nothing else.  One rule for each combinator of \<open>SqlTx\<close>.
\<close>

definition agrees ::
  "('db \<Rightarrow> 'db \<Rightarrow> bool) \<Rightarrow> ('db, 'm, 'a) tx \<Rightarrow> (go_error + 'a \<Rightarrow> 'db \<Rightarrow> 'db \<Rightarrow> bool) \<Rightarrow> bool" where
  "agrees V t W \<longleftrightarrow> (\<forall>s s'. V (db s) (db s') \<and> sched s' = sched s \<longrightarrow>
     fst (t s') = fst (t s) \<and> sched (snd (t s')) = sched (snd (t s)) \<and> W (fst (t s)) (db (snd (t s))) (db (snd (t s'))))"

named_theorems rel_intro

lemma agreesD:
  assumes "agrees V t W" "V (db s) (db s')" "sched s' = sched s" "t s = (r, s1)"
  obtains s1' where "t s' = (r, s1')" "sched s1' = sched s1" "W r (db s1) (db s1')"
proof -
  have "fst (t s') = r \<and> sched (snd (t s')) = sched s1 \<and> W r (db s1) (db (snd (t s')))"
    using assms unfolding agrees_def by (metis fst_conv snd_conv)
  then show ?thesis using that [of "snd (t s')"] by (cases "t s'") auto
qed

lemma agreesI:
  assumes "\<And>s s' r s1. V (db s) (db s') \<Longrightarrow> sched s' = sched s \<Longrightarrow> t s = (r, s1) \<Longrightarrow>
    \<exists>s1'. t s' = (r, s1') \<and> sched s1' = sched s1 \<and> W r (db s1) (db s1')"
  shows "agrees V t W"
proof -
  have "fst (t s') = fst (t s) \<and> sched (snd (t s')) = sched (snd (t s)) \<and> W (fst (t s)) (db (snd (t s))) (db (snd (t s')))"
    if "V (db s) (db s')" "sched s' = sched s" for s s'
    using assms [OF that, of "fst (t s)" "snd (t s)"] by auto
  then show ?thesis unfolding agrees_def by blast
qed

lemma agrees_conseq:
  assumes "agrees V t W" "\<And>d d'. V' d d' \<Longrightarrow> V d d'" "\<And>r d d'. W r d d' \<Longrightarrow> W' r d d'"
  shows "agrees V' t W'"
  using assms unfolding agrees_def by blast

lemma agrees_ret [rel_intro]: "(\<And>d d'. V d d' \<Longrightarrow> W (Inr a) d d') \<Longrightarrow> agrees V (ret a) W"
  by (simp add: agrees_def ret_def)

lemma agrees_throw [rel_intro]: "(\<And>d d'. V d d' \<Longrightarrow> W (Inl e) d d') \<Longrightarrow> agrees V (throw e) W"
  by (simp add: agrees_def throw_def)

lemma agrees_lift_err [rel_intro]: "(\<And>d d'. V d d' \<Longrightarrow> W r d d') \<Longrightarrow> agrees V (lift_err r) W"
  by (simp add: agrees_def lift_err_def)

lemma agrees_bind [rel_intro]:
  fixes t :: "('db, 'm, 'a) tx"
  assumes t: "agrees V t (\<lambda>r d d'. case r of Inl e \<Rightarrow> W (Inl e) d d' | Inr a \<Rightarrow> M a d d')"
    and f: "\<And>a. agrees (M a) (f a) W"
  shows "agrees V (bind_tx t f) W"
proof (rule agreesI)
  fix s s' s2 :: "('db, 'm) session" and r
  assume s: "V (db s) (db s')" "sched s' = sched s" and run: "bind_tx t f s = (r, s2)"
  obtain x s1 where x: "t s = (x, s1)" by (cases "t s")
  from agreesD [OF t s x] obtain s1' where s1': "t s' = (x, s1')" "sched s1' = sched s1"
    "case x of Inl e \<Rightarrow> W (Inl e) (db s1) (db s1') | Inr a \<Rightarrow> M a (db s1) (db s1')" .
  show "\<exists>s2'. bind_tx t f s' = (r, s2') \<and> sched s2' = sched s2 \<and> W r (db s2) (db s2')"
  proof (cases x)
    case (Inl e)
    with run x s1' show ?thesis by (auto simp: bind_tx_def)
  next
    case (Inr a)
    with run x have "f a s1 = (r, s2)" by (simp add: bind_tx_def)
    from agreesD [OF f _ s1'(2) this] s1'(3) Inr obtain s2' where
      "f a s1' = (r, s2')" "sched s2' = sched s2" "W r (db s2) (db s2')" by auto
    with s1'(1) Inr show ?thesis by (simp add: bind_tx_def)
  qed
qed

lemma agrees_try [rel_intro]:
  "agrees V t (\<lambda>r. W (Inr r)) \<Longrightarrow> agrees V (try_tx t) W"
  by (simp add: agrees_def try_tx_def split_beta)

lemma agrees_stmt [rel_intro]:
  fixes f :: "'db \<Rightarrow> (go_error + 'a) \<times> 'db"
  assumes "\<And>e d d'. V d d' \<Longrightarrow> W (Inl e) d d'"
    and "\<And>d d'. V d d' \<Longrightarrow> fst (f d') = fst (f d) \<and> W (fst (f d)) (snd (f d)) (snd (f d'))"
  shows "agrees V (stmt f) W"
proof (rule agreesI)
  fix s s' s1 :: "('db, 'm) session" and r
  assume s: "V (db s) (db s')" "sched s' = sched s" and run: "stmt f s = (r, s1)"
  show "\<exists>s1'. stmt f s' = (r, s1') \<and> sched s1' = sched s1 \<and> W r (db s1) (db s1')"
  proof -
    obtain b s0 where b: "next_reply s = (b, s0)" by (cases "next_reply s")
    then obtain s0' where b': "next_reply s' = (b, s0')" "sched s0' = sched s0" "db s0' = db s'" "db s0 = db s"
      using s(2) by (auto simp: next_reply_def split: list.splits)
    show ?thesis
      using assms(1) [OF s(1)] assms(2) [OF s(1)] run b b'
      by (cases b) (auto simp: stmt_def split_beta)
  qed
qed

lemma agrees_query [rel_intro]:
  assumes "\<And>r d d'. V d d' \<Longrightarrow> W r d d'" and "\<And>d d'. V d d' \<Longrightarrow> f d' = f d"
  shows "agrees V (query f) W"
  unfolding query_def by (rule agrees_stmt) (use assms in auto)

lemma agrees_transaction [rel_intro]:
  fixes body :: "('db, 'm, 'a) tx"
  assumes body: "agrees V body W"
    and V: "\<And>e d d'. V d d' \<Longrightarrow> W (Inl e) d d'"
    and lost: "\<And>a e d d'. W (Inr a) d d' \<Longrightarrow> W (Inl e) d d'"
  shows "agrees V (transaction body) W"
proof (rule agreesI)
  fix s s' s3 :: "('db, 'm) session" and r
  assume s: "V (db s) (db s')" "sched s' = sched s" and run: "transaction body s = (r, s3)"
  obtain b s0 where b: "next_reply s = (b, s0)" by (cases "next_reply s")
  then obtain s0' where b': "next_reply s' = (b, s0')" "sched s0' = sched s0" "db s0' = db s'" "db s0 = db s"
    using s(2) by (auto simp: next_reply_def split: list.splits)
  obtain x s1 where x: "body s0 = (x, s1)" by (cases "body s0")
  from agreesD [OF body _ b'(2) x] s(1) b' obtain s1' where
    x': "body s0' = (x, s1')" "sched s1' = sched s1" "W x (db s1) (db s1')" by metis
  obtain c s2 where c: "next_reply s1 = (c, s2)" by (cases "next_reply s1")
  then obtain s2' where c': "next_reply s1' = (c, s2')" "sched s2' = sched s2" "db s2' = db s1'" "db s2 = db s1"
    using x'(2) by (auto simp: next_reply_def split: list.splits)
  show "\<exists>s3'. transaction body s' = (r, s3') \<and> sched s3' = sched s3 \<and> W r (db s3) (db s3')"
    using run V [OF s(1)] lost x'(3) b b' x x' c c'
    by (cases b; cases x; cases c) (auto simp: transaction_def)
qed

lemma agrees_if [rel_intro]:
  "(b \<Longrightarrow> agrees V t W) \<Longrightarrow> (\<not> b \<Longrightarrow> agrees V u W) \<Longrightarrow> agrees V (if b then t else u) W"
  by simp

lemma agrees_case_sum [rel_intro]:
  "(\<And>x. r = Inl x \<Longrightarrow> agrees V (f x) W) \<Longrightarrow> (\<And>y. r = Inr y \<Longrightarrow> agrees V (g y) W) \<Longrightarrow>
   agrees V (case r of Inl x \<Rightarrow> f x | Inr y \<Rightarrow> g y) W"
  by (cases r) auto

end
