(* ===== verification/OrderRoutes.thy ===== *)
theory OrderRoutes
  imports HttpServer OrderLogic Relational
begin

text \<open>
  The order gateway over HTTP: its handlers on a real request (\<open>internal/handler/order\<close>), its table of routes
  (\<open>routes.go\<close>) and the server \<open>order.go\<close> mounts them in.  \<open>httpx.Parse\<close> is a parameter,
  \<open>order_parser\<close>: for each struct a handler parses, what comes out and the request that is left, since parsing
  reads the body.
\<close>

subsection \<open>Handlers\<close>

record order_parser =
  op_create :: "http_request \<Rightarrow> (go_error + create_order_request) \<times> http_request"
  op_list :: "http_request \<Rightarrow> (go_error + list_order_request) \<times> http_request"
  op_id :: "http_request \<Rightarrow> (go_error + nat) \<times> http_request"
  op_status :: "http_request \<Rightarrow> (go_error + string) \<times> http_request"

text \<open>A handler that works on the database only; its operation always has a response.\<close>

definition on_session ::
  "('a \<Rightarrow> json) \<Rightarrow> (order_db, 'm, 'a response) tx \<Rightarrow> ('r, 'm) order_world \<Rightarrow> write_op list \<times> ('r, 'm) order_world" where
  "on_session enc t w =
     (case t (ow_session w) of
        (Inr resp, s) \<Rightarrow> (respond enc resp, w\<lparr>ow_session := s\<rparr>)
      | (Inl e, s) \<Rightarrow> ([], w\<lparr>ow_session := s\<rparr>))"

definition CreateOrderHandler ::
  "(int \<Rightarrow> nat) \<Rightarrow> order_parser \<Rightarrow> order_env \<Rightarrow> 'r redis_client option \<Rightarrow> ('r, 'm) order_world http_handler" where
  "CreateOrderHandler conv hp env rdb r w =
     (case op_create hp r of (parsed, r1) \<Rightarrow>
        (case create_order_handler env rdb (GetUserID conv r) parsed (hr_header r1 ''Idempotency-Key'') w of
           (resp, w1) \<Rightarrow> (respond (marshal_order (en_time_text env)) resp, w1)))"

definition ListOrderHandler ::
  "(int \<Rightarrow> nat) \<Rightarrow> order_parser \<Rightarrow> order_env \<Rightarrow> ('r, 'm) order_world http_handler" where
  "ListOrderHandler conv hp env r w =
     on_session (marshal_page (marshal_order (en_time_text env)))
       (list_order_handler (GetUserID conv r) (fst (op_list hp r))) w"

definition GetOrderHandler ::
  "(int \<Rightarrow> nat) \<Rightarrow> order_parser \<Rightarrow> order_env \<Rightarrow> ('r, 'm) order_world http_handler" where
  "GetOrderHandler conv hp env r w =
     on_session (marshal_order (en_time_text env)) (get_order_handler (GetUserID conv r) (fst (op_id hp r))) w"

text \<open>The request is parsed twice, for its path and for its body.\<close>

definition UpdateOrderStatusHandler ::
  "(int \<Rightarrow> nat) \<Rightarrow> order_parser \<Rightarrow> order_env \<Rightarrow> ('r, 'm) order_world http_handler" where
  "UpdateOrderStatusHandler conv hp env r w =
     (case op_id hp r of (path_req, r1) \<Rightarrow>
        on_session (marshal_order (en_time_text env))
          (update_order_status_handler env (GetUserID conv r) path_req (fst (op_status hp r1))) w)"

subsection \<open>Routes and server\<close>

definition order_routes ::
  "string \<Rightarrow> (int \<Rightarrow> nat) \<Rightarrow> order_parser \<Rightarrow> order_env \<Rightarrow> 'r redis_client option \<Rightarrow> ('r, 'm) order_world route list" where
  "order_routes secret conv hp env rdb = add_routes (Some secret) ''/api/v1''
     [(''POST'', ''/orders'', CreateOrderHandler conv hp env rdb),
      (''GET'', ''/orders'', ListOrderHandler conv hp env),
      (''GET'', ''/orders/:id'', GetOrderHandler conv hp env),
      (''PUT'', ''/orders/:id/status'', UpdateOrderStatusHandler conv hp env)]"

text \<open>
  The health check asks GORM for its connection pool (an error of that is \<open>pool_err\<close>) and pings the database,
  which answers like to a statement that reads nothing.
\<close>

definition order_health :: "go_error option \<Rightarrow> ('r, 'm) order_world \<Rightarrow> go_error option \<times> ('r, 'm) order_world" where
  "order_health pool_err w =
     (case pool_err of
        Some err \<Rightarrow> (Some err, w)
      | None \<Rightarrow>
          (case query (\<lambda>_. Inr ()) (ow_session w) of
             (Inl err, s) \<Rightarrow> (Some err, w\<lparr>ow_session := s\<rparr>)
           | (Inr _, s) \<Rightarrow> (None, w\<lparr>ow_session := s\<rparr>)))"

definition order_mounted ::
  "string \<Rightarrow> (int \<Rightarrow> nat) \<Rightarrow> order_parser \<Rightarrow> order_env \<Rightarrow> 'r redis_client option \<Rightarrow> go_error option \<Rightarrow>
   ('r, 'm) order_world route list" where
  "order_mounted secret conv hp env rdb pool_err =
     \<lparr>rt_method = ''GET'', rt_path = ''/health'', rt_handler = HealthHandler ''order-api'' [order_health pool_err],
      rt_jwt = None\<rparr> # order_routes secret conv hp env rdb"

definition order_server ::
  "go_zero \<Rightarrow> string list \<Rightarrow> 'l rate_limiter \<Rightarrow> string \<Rightarrow> (int \<Rightarrow> nat) \<Rightarrow> order_parser \<Rightarrow> order_env \<Rightarrow>
   'r redis_client option \<Rightarrow> go_error option \<Rightarrow> ('l \<times> ('r, 'm) order_world) http_handler" where
  "order_server gz origins rl secret conv hp env rdb pool_err =
     serve gz origins rl (order_mounted secret conv hp env rdb pool_err)"

lemma order_mounted_cases:
  assumes "t \<in> set (order_mounted secret conv hp env rdb pool_err)"
  obtains "rt_jwt t = None" "rt_method t = ''GET''" "rt_handler t = HealthHandler ''order-api'' [order_health pool_err]"
  | "rt_jwt t = Some secret" "rt_method t = ''POST''" "rt_handler t = CreateOrderHandler conv hp env rdb"
  | "rt_jwt t = Some secret" "rt_method t = ''GET''" "rt_handler t = ListOrderHandler conv hp env"
  | "rt_jwt t = Some secret" "rt_method t = ''GET''" "rt_handler t = GetOrderHandler conv hp env"
  | "rt_jwt t = Some secret" "rt_method t = ''PUT''" "rt_handler t = UpdateOrderStatusHandler conv hp env"
  using assms by (auto simp: order_mounted_def order_routes_def add_routes_def)

lemma on_session_session:
  "on_session enc t w = (ops, w1) \<Longrightarrow> t (ow_session w) = (r, s) \<Longrightarrow> ow_session w1 = s"
  by (auto simp: on_session_def split: sum.splits)

end
