(* ===== verification/OrderProps.thy ===== *)
theory OrderProps
  imports OrderLogic
begin

text \<open>
  The properties of the order API: an order and its event are written together or not at all, a
  repeated request with the same idempotency key is answered from the first, of two status
  updates from one snapshot at most one succeeds, and the pages of the order list cover it.
\<close>

subsection \<open>Pages of a list\<close>

lemma concat_chunks: "concat (map (\<lambda>k. take n (drop (k * n) xs)) [0..<m]) = take (m * n) xs"
proof (induction m)
  case 0
  then show ?case by simp
next
  case (Suc m)
  have "take (m * n) xs @ take n (drop (m * n) xs) = take (Suc m * n) xs"
    by (metis add.commute mult_Suc take_add)
  with Suc show ?case by simp
qed

definition user_orders :: "nat \<Rightarrow> order_db \<Rightarrow> order list" where
  "user_orders u d = by_id_desc (filter (\<lambda>o'. live o' \<and> o_user_id o' = u) (orders (biz d)))"

lemma length_user_orders: "length (user_orders u d) = length (filter (\<lambda>o'. live o' \<and> o_user_id o' = u) (orders (biz d)))"
  by (simp add: user_orders_def by_id_desc_def)

lemma list_page:
  "exec_tx (list_by_user_id u pg ps :: (order_db, 'm, order page_result) tx) [] d =
     (Inr (new_page_result (offset_limit (page_offset pg ps) ps (user_orders u d)) (length (user_orders u d)) pg ps), d)"
  unfolding length_user_orders
  by (simp add: run_simps list_by_user_id_def find_by_user_id_with_page_def find_by_user_id_def user_orders_def)

subsection \<open>The stored answer\<close>

text \<open>What JSON and the text of a timestamp give back: Go's ranges, and times the parser reads back.\<close>

definition json_safe :: "order_env \<Rightarrow> order \<Rightarrow> bool" where
  "json_safe env o' \<longleftrightarrow> o_id o' < 2 ^ 64 \<and> o_user_id o' < 2 ^ 64 \<and> in_int64 (o_amount o') \<and>
     in_int64 (o_version o') \<and> in_int64 (o_quantity o') \<and> o_deleted_at o' = None \<and>
     (\<forall>t \<in> {o_created_at o', o_updated_at o'}.
        rfc3339 (en_time_text env t) \<and> en_time_parse env (en_time_text env t) = t)"

lemma dec_uint_small: "n < 2 ^ 64 \<Longrightarrow> dec_uint (Some (JInt (int n))) = Inr n"
  by simp

lemma dec_int_small: "in_int64 n \<Longrightarrow> dec_int (Some (JInt n)) = Inr n"
  by simp

lemma unmarshal_marshal_order:
  assumes "json_safe env o'"
  shows "unmarshal_order (en_time_parse env) (Doc (marshal_order (en_time_text env) o')) = Inr o'"
proof -
  have j: "dec_uint (Some (JInt (int (o_id o')))) = Inr (o_id o')" "dec_uint (Some (JInt (int (o_user_id o')))) = Inr (o_user_id o')"
    "dec_int (Some (JInt (o_amount o'))) = Inr (o_amount o')" "dec_int (Some (JInt (o_version o'))) = Inr (o_version o')"
    "dec_int (Some (JInt (o_quantity o'))) = Inr (o_quantity o')"
    using assms by (simp_all only: json_safe_def dec_uint_small dec_int_small)
  show ?thesis
    using assms unfolding unmarshal_order_def marshal_order_def json_safe_def
    by (simp add: jfield_Cons j del: dec_uint.simps(3) dec_int.simps(3))
qed

subsection \<open>The gate of a request\<close>

lemma orderIDempotencyKey_nonempty: "orderIDempotencyKey env u key \<noteq> ''''"
  by (simp add: orderIDempotencyKey_def)

text \<open>The lab faults at the start of \<open>Create\<close> touch neither Redis nor the database.\<close>

lemma create_keyed:
  assumes "key \<noteq> ''''"
  obtains wa where "ow_redis wa = ow_redis w" "ow_session wa = ow_session w"
    "create env (Some rc) u q key w =
      (case rc_setnx rc (orderIDempotencyKey env u key) (Garbage '''') idempotencyTTL (ow_redis wa) of
         (Inl e, r) \<Rightarrow> create_gated env (Some rc) '''' u q (wa\<lparr>ow_redis := r\<rparr>)
       | (Inr acquired, r) \<Rightarrow>
           if \<not> acquired
           then replay_order env rc (orderIDempotencyKey env u key) (count_created ''conflict'' (wa\<lparr>ow_redis := r\<rparr>))
           else create_gated env (Some rc) (orderIDempotencyKey env u key) u q (wa\<lparr>ow_redis := r\<rparr>))"
proof -
  define wc where "wc = (if BugEnabled (en_getenv env) ''BUG_CPU''
    then w\<lparr>ow_cpu_sink := fst (compute_risk_score (en_getenv env) (cr_product_name q))\<rparr> else w)"
  define wm where "wm = (if BugEnabled (en_getenv env) ''BUG_MEMLEAK''
    then wc\<lparr>ow_risk := cache_risk_profile (en_getenv env) (en_now env) u (cr_sku q) (cr_product_name q) key (ow_risk wc)\<rparr>
    else wc)"
  have wm: "ow_redis wm = ow_redis w" "ow_session wm = ow_session w"
    by (simp_all add: wm_def wc_def)
  have "create env (Some rc) u q key w =
      (case rc_setnx rc (orderIDempotencyKey env u key) (Garbage '''') idempotencyTTL (ow_redis wm) of
         (Inl e, r) \<Rightarrow> create_gated env (Some rc) '''' u q (wm\<lparr>ow_redis := r\<rparr>)
       | (Inr acquired, r) \<Rightarrow>
           if \<not> acquired
           then replay_order env rc (orderIDempotencyKey env u key) (count_created ''conflict'' (wm\<lparr>ow_redis := r\<rparr>))
           else create_gated env (Some rc) (orderIDempotencyKey env u key) u q (wm\<lparr>ow_redis := r\<rparr>))"
    using assms unfolding create_def Let_def wm_def wc_def by simp
  with wm show thesis by (rule that)
qed

text \<open>What \<open>Create\<close> does with a key: the gate decides between the creation and the stored answer.\<close>

lemma create_with_key:
  assumes "redis_reliable rc view" "key \<noteq> ''''"
  shows "\<exists>w'. ow_session w' = ow_session w \<and>
    (view (ow_redis w) (orderIDempotencyKey env u key) \<noteq> None \<longrightarrow> view (ow_redis w') = view (ow_redis w)) \<and>
    create env (Some rc) u q key w =
      (if view (ow_redis w) (orderIDempotencyKey env u key) = None
       then create_gated env (Some rc) (orderIDempotencyKey env u key) u q w'
       else replay_order env rc (orderIDempotencyKey env u key) (count_created ''conflict'' w'))"
proof -
  let ?gate = "orderIDempotencyKey env u key"
  from create_keyed [OF assms(2), of w env rc u q] obtain wm where wm: "ow_redis wm = ow_redis w" "ow_session wm = ow_session w"
    "create env (Some rc) u q key w =
      (case rc_setnx rc ?gate (Garbage '''') idempotencyTTL (ow_redis wm) of
         (Inl e, r) \<Rightarrow> create_gated env (Some rc) '''' u q (wm\<lparr>ow_redis := r\<rparr>)
       | (Inr acquired, r) \<Rightarrow>
           if \<not> acquired then replay_order env rc ?gate (count_created ''conflict'' (wm\<lparr>ow_redis := r\<rparr>))
           else create_gated env (Some rc) ?gate u q (wm\<lparr>ow_redis := r\<rparr>))" .
  obtain res r where nx: "rc_setnx rc ?gate (Garbage '''') idempotencyTTL (ow_redis w) = (res, r)"
    by (cases "rc_setnx rc ?gate (Garbage '''') idempotencyTTL (ow_redis w)")
  with redis_reliableD(4,5) [OF assms(1), of ?gate "Garbage ''''" idempotencyTTL "ow_redis w"]
  have r: "res = Inr (view (ow_redis w) ?gate = None)"
    "view r = (if view (ow_redis w) ?gate = None then (view (ow_redis w))(?gate \<mapsto> Garbage '''') else view (ow_redis w))"
    by simp_all
  show ?thesis
    by (intro exI [of _ "wm\<lparr>ow_redis := r\<rparr>"]) (simp add: wm nx r)
qed

lemma create_gated_stores:
  assumes "redis_reliable rc view" "gate \<noteq> ''''" "create_gated env (Some rc) gate u q w = (Inr o', w1)"
  shows "view (ow_redis w1) gate = Some (Doc (marshal_order (en_time_text env) o'))"
  using assms(2,3) redis_reliableD(3) [OF assms(1)]
  by (auto simp: create_gated_def count_created_def Let_def split: prod.splits sum.splits)

subsection \<open>Properties\<close>

text \<open>
  C5: the transaction of \<open>createOrder\<close> is atomic.  Whatever the database replies, either nothing
  changed and an error is returned, or the new pending order and its one \<open>order.created\<close> row
  were both added; then the result is that order, or an error when only the reply was lost.
\<close>

theorem create_order_atomic:
  assumes "create_order env u q \<lparr>db = d, sched = rs, wire = w\<rparr> = (r, s)"
  shows "db s = d \<and> (\<exists>e. r = Inl e) \<or>
    (\<exists>o' e. order_created_by env u q d o' e (db s) \<and> orders (biz (db s)) = orders (biz d) @ [o'] \<and>
       ob_rows (outbox (db s)) = ob_rows (outbox d) @ [e\<lparr>ob_id := ob_next_id (outbox d)\<rparr>] \<and>
       o_status o' = StatusPending \<and> ob_event_type e = OrderCreated \<and> (r = Inr o' \<or> (\<exists>x. r = Inl x)))"
proof -
  from holds_sessionD [OF holds_create_order assms, of d w] consider "db s = d" "\<forall>x. r \<noteq> Inr x"
    | o' e where "order_created_by env u q d o' e (db s)" "\<forall>x. r = Inr x \<longrightarrow> x = o'" by auto
  then show ?thesis
  proof cases
    case 1
    then show ?thesis by (cases r) auto
  next
    case (2 o' e)
    from 2(1) have "orders (biz (db s)) = orders (biz d) @ [o']"
      "ob_rows (outbox (db s)) = ob_rows (outbox d) @ [e\<lparr>ob_id := ob_next_id (outbox d)\<rparr>]"
      "o_status o' = StatusPending" "ob_event_type e = OrderCreated"
      by (auto simp: order_created_by_def insert_row_def new_order_def create_defaults_def order_of_request_def
          created_event_def bind_err_Inr outbox_row_def)
    with 2 show ?thesis by (cases r) auto
  qed
qed

definition sample_env :: order_env where
  "sample_env = \<lparr>en_getenv = (\<lambda>_. ''''), en_now = 20, en_now_text = ''2026-01-31T12:30:05Z'', en_uuid = ''u1'',
     en_validate = (\<lambda>_. Inr True), en_sha256_hex = (\<lambda>s. s), en_time_text = (\<lambda>_. ''2026-01-31T12:30:05Z''),
     en_time_parse = length\<rparr>"

definition sample_request :: create_order_request where
  "sample_request = \<lparr>cr_product_name = ''pen'', cr_sku = ''SKU-1'', cr_quantity = 2, cr_amount = 100\<rparr>"

definition empty_order_db :: order_db where
  "empty_order_db = \<lparr>biz = \<lparr>orders = [], next_order_id = 1, known_users = []\<rparr>,
     outbox = \<lparr>ob_rows = [], ob_next_id = 1\<rparr>, processed = []\<rparr>"

lemma create_order_atomic_witness:
  "\<exists>s. create_order sample_env 7 sample_request \<lparr>db = empty_order_db, sched = [Runs, Runs, Fails (MySQLFault 1213)], wire = [] :: nat list\<rparr> =
      (Inl (MySQLError 1213), s) \<and> db s = empty_order_db"
proof -
  let ?c = "create_order sample_env 7 sample_request \<lparr>db = empty_order_db, sched = [Runs, Runs, Fails (MySQLFault 1213)], wire = [] :: nat list\<rparr>"
  have "fst ?c = Inl (MySQLError 1213) \<and> orders (biz (db (snd ?c))) = []" by code_simp
  then obtain s where s: "?c = (Inl (MySQLError 1213), s)" "orders (biz (db s)) = []" by (cases ?c) auto
  from create_order_atomic [OF s(1)] s show ?thesis by auto
qed

text \<open>
  C8: a repeated request creates no second order.  When \<open>Create\<close> with an idempotency key has
  succeeded, every later \<open>Create\<close> of the same user with the same key, whatever it asks for, is answered
  with the first order, and neither the database nor what Redis holds changes.
\<close>

theorem create_replays:
  assumes "redis_reliable rc view" "key \<noteq> ''''" "view (ow_redis w) (orderIDempotencyKey env u key) = None"
    and "create env (Some rc) u q key w = (Inr o', w1)" "json_safe env o'"
    and "en_sha256_hex env2 = en_sha256_hex env" "en_time_parse env2 = en_time_parse env"
  shows "\<exists>w2. create env2 (Some rc) u q2 key w1 = (Inr o', w2) \<and> ow_session w2 = ow_session w1 \<and>
    view (ow_redis w2) = view (ow_redis w1)"
proof -
  let ?gate = "orderIDempotencyKey env u key"
  have gate: "orderIDempotencyKey env2 u key = ?gate"
    using assms(6) by (simp add: orderIDempotencyKey_def)
  from create_with_key [OF assms(1,2), of w env u q] assms(3,4) obtain wa where
    "create_gated env (Some rc) ?gate u q wa = (Inr o', w1)" by metis
  from create_gated_stores [OF assms(1) orderIDempotencyKey_nonempty this]
  have stored: "view (ow_redis w1) ?gate = Some (Doc (marshal_order (en_time_text env) o'))" .
  from create_with_key [OF assms(1,2), of w1 env2 u q2] stored gate obtain wb where
    wb: "ow_session wb = ow_session w1" "view (ow_redis wb) = view (ow_redis w1)"
    "create env2 (Some rc) u q2 key w1 = replay_order env2 rc ?gate (count_created ''conflict'' wb)"
    by auto
  with stored unmarshal_marshal_order [OF assms(5)] assms(7) redis_reliableD(1) [OF assms(1)] show ?thesis
    by (simp add: replay_order_def count_created_def)
qed

definition sample_world :: "((string \<times> payload) list, nat) order_world" where
  "sample_world = \<lparr>ow_redis = [], ow_session = \<lparr>db = empty_order_db, sched = [], wire = []\<rparr>, ow_risk = (\<lambda>_. None),
     ow_cpu_sink = 0, ow_orders_created = []\<rparr>"

lemma create_replays_witness:
  "case create sample_env (Some mem_redis) 7 sample_request ''k1'' sample_world of (r, w1) \<Rightarrow>
     \<exists>o' w2. r = Inr o' \<and> create sample_env (Some mem_redis) 7 (sample_request\<lparr>cr_quantity := 5\<rparr>) ''k1'' w1 = (Inr o', w2) \<and>
       ow_session w2 = ow_session w1"
proof -
  let ?c = "create sample_env (Some mem_redis) 7 sample_request ''k1'' sample_world"
  let ?o = "\<lparr>o_id = 1, o_created_at = 20, o_updated_at = 20, o_deleted_at = None, o_user_id = 7, o_product_name = ''pen'',
     o_amount = 100, o_status = StatusPending, o_version = 0, o_sku = ''SKU-1'', o_quantity = 2, o_cancel_reason = ''''\<rparr>"
  have "fst ?c = Inr ?o" by code_simp
  then obtain w1 where c: "?c = (Inr ?o, w1)" by (cases ?c) simp
  have "rfc3339 ''2026-01-31T12:30:05Z''" by code_simp
  then have safe: "json_safe sample_env ?o" by (simp add: json_safe_def sample_env_def in_int64_def)
  have "map_of (ow_redis sample_world) (orderIDempotencyKey sample_env 7 ''k1'') = None" by (simp add: sample_world_def)
  from create_replays [OF mem_redis_reliable _ this c safe, of sample_env "sample_request\<lparr>cr_quantity := 5\<rparr>"]
  obtain w2 where "create sample_env (Some mem_redis) 7 (sample_request\<lparr>cr_quantity := 5\<rparr>) ''k1'' w1 = (Inr ?o, w2)"
    "ow_session w2 = ow_session w1" by auto
  then show ?thesis unfolding c prod.case by blast
qed

text \<open>
  What \<open>UpdateStatus\<close> promises: its answer and the data after it.  A cancellation writes the event of the cancelled order beside
  the row; it fails when that event cannot be encoded or when its id is taken.
\<close>

definition status_change :: "order_env \<Rightarrow> nat \<Rightarrow> nat \<Rightarrow> string \<Rightarrow> order_db \<Rightarrow> (go_error + order) \<times> order_db" where
  "status_change env u i st d =
     (case order_row d i of
        None \<Rightarrow> (Inl ErrOrderNotFound, d)
      | Some c \<Rightarrow>
          if o_user_id c \<noteq> u then (Inl ErrOrderNotFound, d)
          else if o_status c \<noteq> StatusPending \<or> st \<notin> {StatusPaid, StatusCancelled} then (Inl ErrInvalidStatusTransition, d)
          else if st = StatusPaid
          then (Inr (c\<lparr>o_status := StatusPaid\<rparr>), put_order i (set_status StatusPaid (en_now env)) d)
          else let c' = set_cancelled ReasonUserCancelled (en_now env) c in
            (case cancelled_event env c' ReasonUserCancelled of
               Inl x \<Rightarrow> (Inl x, d)
             | Inr e \<Rightarrow>
                 if event_id_used (ob_event_id e) (outbox d) then (Inl ErrDupEntry, d)
                 else (Inr c', (put_order i (set_cancelled ReasonUserCancelled (en_now env)) d)\<lparr>outbox := insert_row e (outbox d)\<rparr>)))"

definition keeps_promise :: "order_db \<Rightarrow> (go_error + order) \<times> order_db \<Rightarrow> (go_error + order) \<times> order_db \<Rightarrow> bool" where
  "keeps_promise d promised got \<longleftrightarrow>
     got = promised \<or> snd got \<in> {d, snd promised} \<and> (\<exists>e. fst got = Inl e \<and> is_fault e)"

lemma update_status_promise:
  assumes "orders_ok d"
  shows "holds (update_order_status env u i st) d w (\<lambda>r d' _. keeps_promise d (status_change env u i st d) (r, d'))"
    (is "holds _ d w (\<lambda>r d' _. ?Q r d')")
proof -
  have row: "o_id c = i" if "order_row d i = Some c" for c
    using that assms by (simp add: order_row_Some)
  have fault: "?Q (Inl x) d" if "is_fault x" for x using that by (simp add: keeps_promise_def)
  show ?thesis
    unfolding update_order_status_def
  proof (rule holds_bind, rule holds_try, rule holds_find_by_id_and_user_id [OF assms], goal_cases)
    case (1 e)
    then show ?case by (simp add: fault_not_found) (rule holds_throw, rule fault)
  next
    case 2
    then show ?case by simp (rule holds_throw, auto simp: keeps_promise_def status_change_def split: option.splits)
  next
    case (3 c)
    note c = 3
    have id: "o_id c = i" by (rule row) (rule c(1))
    show ?case
    proof (cases "isValidTransition (o_status c) st")
      case False
      then show ?thesis
        using c by (auto simp: update_order_from_def isValidTransition_iff keeps_promise_def status_change_def intro!: holds_throw)
    next
      case True
      then have pend: "o_status c = StatusPending" and st: "st = StatusPaid \<or> st = StatusCancelled"
        by (auto simp: isValidTransition_iff)
      have now: "current d (o_user_id c) (o_id c) StatusPending (o_version c) x \<longleftrightarrow> x = c" for x
        using c id pend by (auto simp: current_def)
      show ?thesis
      proof (cases "st = StatusCancelled")
        case cancel: True
        have short: "\<not> 32 < length ReasonUserCancelled" by simp
        have "holds (cancel_order env c ReasonUserCancelled) d w (\<lambda>r d' _. ?Q r d')"
          by (rule holds_cancel_order_errors [OF assms, where o' = c, unfolded now order_cancelled_by_def])
            (use c pend cancel id fault short in \<open>auto simp: keeps_promise_def status_change_def Let_def
               simp del: ReasonUserCancelled_def split: sum.splits\<close>)
        then show ?thesis using True cancel by (simp add: update_order_from_def)
      next
        case False
        with st have paid: "st = StatusPaid" by blast
        have "holds (paid_order env c) d w (\<lambda>r d' _. ?Q r d')"
          by (rule holds_paid_order [OF assms, where o' = c, unfolded pend now order_paid_by_def])
            (use c pend paid id fault in \<open>auto simp: keeps_promise_def status_change_def\<close>)
        then show ?thesis using \<open>isValidTransition (o_status c) st\<close> False by (simp add: update_order_from_def)
      qed
    qed
  qed
qed

lemma update_status_answered:
  assumes "orders_ok d"
  shows "update_order_status env u i st \<lparr>db = d, sched = [], wire = w\<rparr> =
    (fst (status_change env u i st d), \<lparr>db = snd (status_change env u i st d), sched = [], wire = w\<rparr>)"
proof -
  have read: "try_tx (find_by_id_and_user_id i u) \<lparr>db = d, sched = [], wire = w\<rparr> =
    (Inr (case order_row d i of None \<Rightarrow> Inl ErrRecordNotFound | Some c \<Rightarrow> if o_user_id c = u then Inr c else Inl ErrRecordNotFound),
     \<lparr>db = d, sched = [], wire = w\<rparr>)"
    using find_owned [OF assms, of i u] by (simp add: find_by_id_and_user_id_def run_simps)
  show ?thesis
  proof (cases "\<exists>c. order_row d i = Some c \<and> o_user_id c = u")
    case False
    then show ?thesis
      unfolding update_order_status_def bind_tx_def read by (auto simp: status_change_def throw_def split: option.splits)
  next
    case True
    then obtain c where c: "order_row d i = Some c" "o_user_id c = u" by blast
    then have id: "o_id c = i" using assms by (simp add: order_row_Some)
    have start: "update_order_status env u i st \<lparr>db = d, sched = [], wire = w\<rparr> = update_order_from env c st \<lparr>db = d, sched = [], wire = w\<rparr>"
      unfolding update_order_status_def bind_tx_def read using c by simp
    have now: "current d (o_user_id c) (o_id c) (o_status c) (o_version c) c" using c id by (simp add: current_def)
    show ?thesis
    proof (cases "isValidTransition (o_status c) st")
      case False
      then show ?thesis
        unfolding start using c by (auto simp: update_order_from_def isValidTransition_iff status_change_def throw_def)
    next
      case True
      then have pend: "o_status c = StatusPending" and st: "st = StatusPaid \<or> st = StatusCancelled"
        by (auto simp: isValidTransition_iff)
      show ?thesis
      proof (cases "st = StatusCancelled")
        case cancel: True
        have "length ReasonUserCancelled \<le> 32" by simp
        note run = cancel_order_answered [OF assms now [unfolded pend] this, of env w]
        have step: "update_order_from env c st = cancel_order env c ReasonUserCancelled" using True cancel by (simp add: update_order_from_def)
        show ?thesis
          unfolding start step run by (use c id pend cancel in \<open>simp add: status_change_def Let_def split: sum.split\<close>)
      next
        case False
        with st have paid: "st = StatusPaid" by blast
        have "update_orders (matches (o_user_id c) (o_id c) (o_status c) (o_version c)) (set_status StatusPaid (en_now env)) d =
            (Inr 1, put_order (o_id c) (set_status StatusPaid (en_now env)) d)"
          using now by (subst update_orders_current [OF assms]) auto
        then show ?thesis
          unfolding start using c id pend paid True
          by (simp add: update_order_from_def paid_order_def update_status_alt status_change_def run_simps)
      qed
    qed
  qed
qed

text \<open>
  C9: what \<open>UpdateStatus\<close> does, on every branch.  An order the user does not have is not found; a transition other than
  from pending to paid or cancelled is refused; both change nothing.  Else the order is paid, or it is cancelled and its event
  written, unless the event cannot be.  When the database answers every statement, answer and data are exactly these
  (\<open>status_change\<close>).  Whatever it does not answer, they are these too, or an error of the database is returned, and the data
  are as before or, when only the reply to the commit was lost, changed as promised; nothing in between.
\<close>

theorem update_status_outcome:
  assumes "orders_ok d" and "update_order_status env u i st \<lparr>db = d, sched = rs, wire = w\<rparr> = (r, s)"
  shows "(rs = [] \<longrightarrow> (r, db s) = status_change env u i st d) \<and>
    ((r, db s) = status_change env u i st d \<or>
     db s \<in> {d, snd (status_change env u i st d)} \<and> (\<exists>e. r = Inl e \<and> is_fault e))"
proof
  show "rs = [] \<longrightarrow> (r, db s) = status_change env u i st d"
    using update_status_answered [OF assms(1), of env u i st w] assms(2) by auto
  show "(r, db s) = status_change env u i st d \<or>
      db s \<in> {d, snd (status_change env u i st d)} \<and> (\<exists>e. r = Inl e \<and> is_fault e)"
    using holds_sessionD [OF update_status_promise [OF assms(1)] assms(2)] by (simp add: keeps_promise_def)
qed

definition one_order_db :: order_db where
  "one_order_db = empty_order_db\<lparr>biz := \<lparr>orders = [new_order 10 (order_of_request 7 sample_request) empty_order_db],
     next_order_id = 2, known_users = []\<rparr>\<rparr>"

lemma one_order_db_ok: "orders_ok one_order_db"
  and one_order_row: "order_row one_order_db 1 = Some (new_order 10 (order_of_request 7 sample_request) empty_order_db)"
    "order_row one_order_db (Suc 0) = Some (new_order 10 (order_of_request 7 sample_request) empty_order_db)"
  by (auto simp: one_order_db_def orders_ok_def order_row_def live_def new_order_def create_defaults_def order_of_request_def
      empty_order_db_def)

lemma update_status_outcome_witness:
  "\<exists>s e. update_order_status sample_env 7 1 ''cancelled'' \<lparr>db = one_order_db, sched = [], wire = [] :: nat list\<rparr> =
      (Inr (set_cancelled ReasonUserCancelled 20 (new_order 10 (order_of_request 7 sample_request) empty_order_db)), s) \<and>
    db s = (put_order 1 (set_cancelled ReasonUserCancelled 20) one_order_db)\<lparr>outbox := insert_row e (outbox one_order_db)\<rparr> \<and>
    ob_event_type e = OrderCancelled"
proof -
  let ?c = "update_order_status sample_env 7 1 ''cancelled'' \<lparr>db = one_order_db, sched = [], wire = [] :: nat list\<rparr>"
  let ?o = "new_order 10 (order_of_request 7 sample_request) empty_order_db"
  obtain r s where s: "?c = (r, s)" by (cases ?c)
  have o': "o_status ?o = StatusPending" "o_user_id ?o = 7"
    by (simp_all add: new_order_def create_defaults_def order_of_request_def)
  have "rfc3339 ''2026-01-31T12:30:05Z''" by code_simp
  then obtain e where e: "cancelled_event sample_env (set_cancelled ReasonUserCancelled 20 ?o) ReasonUserCancelled = Inr e"
      "ob_event_type e = OrderCancelled"
    by (simp add: cancelled_event_def marshal_envelope_def outbox_row_def sample_env_def)
  have free: "outbox one_order_db = \<lparr>ob_rows = [], ob_next_id = 1\<rparr>" by (simp add: one_order_db_def empty_order_db_def)
  have "en_now sample_env = 20" by (simp add: sample_env_def)
  then have "status_change sample_env 7 1 ''cancelled'' one_order_db = (Inr (set_cancelled ReasonUserCancelled 20 ?o),
      (put_order 1 (set_cancelled ReasonUserCancelled 20) one_order_db)\<lparr>outbox := insert_row e (outbox one_order_db)\<rparr>)"
    using o' e by (simp add: status_change_def one_order_row Let_def event_id_used_def free del: ReasonUserCancelled_def)
  with conjunct1 [OF update_status_outcome [OF one_order_db_ok s]] s e show ?thesis by auto
qed

text \<open>
  The answer to a payment carries a stale version.  When \<open>UpdateStatus\<close> answers a payment with an order,
  the row in the database has the next version.
\<close>

theorem paid_answer_stale:
  assumes "orders_ok d" and "update_order_status env u i StatusPaid \<lparr>db = d, sched = rs, wire = w\<rparr> = (Inr o', s)"
  shows "\<exists>c. order_row (db s) i = Some c \<and> o_status c = o_status o' \<and> o_version c = o_version o' + 1"
proof -
  from holds_sessionD [OF update_status_promise [OF assms(1)] assms(2)] obtain c where
    c: "order_row d i = Some c" "o' = c\<lparr>o_status := StatusPaid\<rparr>" "db s = put_order i (set_status StatusPaid (en_now env)) d"
    by (auto simp: keeps_promise_def status_change_def split: option.splits if_splits)
  then show ?thesis using order_row_put_order [OF assms(1), of "set_status StatusPaid (en_now env)" i i] by simp
qed

lemma paid_answer_stale_witness:
  "\<exists>s c. update_order_status sample_env 7 1 StatusPaid \<lparr>db = one_order_db, sched = [], wire = [] :: nat list\<rparr> =
      (Inr (new_order 10 (order_of_request 7 sample_request) empty_order_db\<lparr>o_status := StatusPaid\<rparr>), s) \<and>
    order_row (db s) 1 = Some c \<and> o_version c = 1"
proof -
  let ?c = "update_order_status sample_env 7 1 StatusPaid \<lparr>db = one_order_db, sched = [], wire = [] :: nat list\<rparr>"
  let ?o = "new_order 10 (order_of_request 7 sample_request) empty_order_db"
  have "fst ?c = Inr (?o\<lparr>o_status := StatusPaid\<rparr>)" by code_simp
  then obtain s where s: "?c = (Inr (?o\<lparr>o_status := StatusPaid\<rparr>), s)" by (cases ?c) simp
  have "o_version ?o = 0" by (simp add: new_order_def create_defaults_def order_of_request_def)
  with paid_answer_stale [OF one_order_db_ok s] s show ?thesis by auto
qed

text \<open>
  C10: of a payment and a cancellation that start from one read of the order, at most one succeeds,
  whichever comes first; the other changes nothing and affects no row.
\<close>

theorem pay_cancel_race:
  fixes s :: order
  assumes "orders_ok d"
  shows "holds (update_status now1 (o_user_id s) (o_id s) (o_status s) StatusPaid (o_version s)) d w (\<lambda>r d1 w1.
      (\<exists>a. r = Inr a \<and> a \<noteq> 0) \<longrightarrow>
      holds (cancel_order_row now2 (o_user_id s) (o_id s) (o_version s) reason) d1 w1 (\<lambda>r2 d2 _.
        d2 = d1 \<and> (\<forall>a. r2 = Inr a \<longrightarrow> fst a = 0))) \<and>
    holds (cancel_order_row now2 (o_user_id s) (o_id s) (o_version s) reason) d w (\<lambda>r d1 w1.
      (\<exists>a. r = Inr a \<and> fst a \<noteq> 0) \<longrightarrow>
      holds (update_status now1 (o_user_id s) (o_id s) (o_status s) StatusPaid (o_version s)) d1 w1 (\<lambda>r2 d2 _.
        d2 = d1 \<and> (\<forall>a. r2 = Inr a \<longrightarrow> a = 0)))"
  using pay_cancel.one_winner [OF assms, of s s now1 w now2 reason] cancel_pay.one_winner [OF assms, of s s now2 reason w now1]
  by (simp add: pay_cas_def cancel_cas_def)

lemma pay_cancel_race_witness:
  "\<exists>s1 r2 s2. update_status 20 7 1 StatusPending StatusPaid 0 \<lparr>db = one_order_db, sched = [], wire = [] :: nat list\<rparr> = (Inr 1, s1) \<and>
     cancel_order_row 20 7 1 0 ReasonUserCancelled s1 = (r2, s2) \<and> db s2 = db s1 \<and> r2 \<noteq> Inr (1, None)"
proof -
  let ?o = "new_order 10 (order_of_request 7 sample_request) empty_order_db"
  have "o_version ?o = 0" "o_id ?o = 1" "o_user_id ?o = 7" "o_status ?o = StatusPending"
    by (simp_all add: new_order_def create_defaults_def order_of_request_def empty_order_db_def)
  with pay_cancel_race [OF one_order_db_ok, of 20 ?o "[] :: nat list" 20 ReasonUserCancelled]
  have race: "holds (update_status 20 7 1 StatusPending StatusPaid 0 :: (order_db, nat, nat) tx) one_order_db [] (\<lambda>r d1 w1.
      (\<exists>a. r = Inr a \<and> a \<noteq> 0) \<longrightarrow>
      holds (cancel_order_row 20 7 1 0 ReasonUserCancelled) d1 w1 (\<lambda>r2 d2 _. d2 = d1 \<and> (\<forall>a. r2 = Inr a \<longrightarrow> fst a = 0)))"
    by simp
  let ?c = "update_status 20 7 1 StatusPending StatusPaid 0 \<lparr>db = one_order_db, sched = [], wire = [] :: nat list\<rparr>"
  have "fst ?c = Inr 1" by code_simp
  then obtain s1 where s1: "?c = (Inr 1, s1)" by (cases ?c) simp
  obtain r2 s2 where c2: "cancel_order_row 20 7 1 0 ReasonUserCancelled s1 = (r2, s2)"
    by (cases "cancel_order_row 20 7 1 0 ReasonUserCancelled s1")
  from holds_sessionD [OF race s1] have "holds (cancel_order_row 20 7 1 0 ReasonUserCancelled) (db s1) (wire s1)
      (\<lambda>r2 d2 _. d2 = db s1 \<and> (\<forall>a. r2 = Inr a \<longrightarrow> fst a = 0))" by simp
  from holds_sessionD [OF this c2] have "db s2 = db s1" "\<forall>a. r2 = Inr a \<longrightarrow> fst a = 0" by simp_all
  then show ?thesis using s1 c2 by auto
qed

text \<open>
  A lost race is an internal error.  When the order has been changed since it was read,
  \<open>UpdateStatus\<close> changes nothing, and its conflict, or the database's error, reaches the client
  as status 500.
\<close>

theorem stale_update_500:
  assumes "orders_ok d" "\<And>c. order_row d (o_id s) = Some c \<Longrightarrow> o_version c \<noteq> o_version s"
    and "isValidTransition (o_status s) st"
  shows "holds (update_order_from env s st) d w (\<lambda>r d' _. d' = d \<and>
    (r = Inl ErrOptimisticConflict \<or> (\<exists>e. r = Inl e \<and> is_fault e)) \<and> rs_status (update_status_response r) = 500)"
proof -
  have fault: "rs_status (update_status_response (Inl e)) = 500" if "is_fault e" for e
    using that by (auto simp: is_fault_def update_status_response_def elim!: fault_error.elims [OF sym])
  have gone: "\<not> current d u (o_id s) st' (o_version s) c" for u st' c
    using assms(2) by (auto simp: current_def)
  show ?thesis
  proof (cases "st = StatusCancelled")
    case True
    have "holds (cancel_order_row (en_now env) (o_user_id s) (o_id s) (o_version s) ReasonUserCancelled) d w
        (\<lambda>r d' w'. d' = d \<and> w' = w \<and> (r = Inr (0, None) \<or> (\<exists>e. r = Inl e \<and> is_fault e)))"
      by (rule holds_cancel_order_row [OF assms(1)]) (use gone in auto)
    then have "holds (cancel_order env s ReasonUserCancelled) d w (\<lambda>r d' _. d' = d \<and>
        (r = Inl ErrOptimisticConflict \<or> (\<exists>e. r = Inl e \<and> is_fault e)))"
      unfolding cancel_order_def
      by (intro holds_transaction holds_bind, simp) (erule holds_conseq, auto intro!: holds_throw)
    then show ?thesis
      using True assms(3) fault unfolding update_order_from_def
      by (simp del: StatusCancelled_def ErrOptimisticConflict_def)
        (erule holds_conseq, auto simp: update_status_response_def)
  next
    case False
    have "holds (paid_order env s) d w (\<lambda>r d' _. d' = d \<and>
        (r = Inl ErrOptimisticConflict \<or> (\<exists>e. r = Inl e \<and> is_fault e)))"
      by (rule holds_paid_order [OF assms(1)]) (use gone in \<open>auto simp: order_paid_by_def\<close>)
    with False assms(3) fault show ?thesis
      unfolding update_order_from_def
      by (simp del: StatusCancelled_def ErrOptimisticConflict_def)
        (erule holds_conseq, auto simp: update_status_response_def)
  qed
qed

lemma stale_update_500_witness:
  "holds (update_order_from sample_env (new_order 10 (order_of_request 7 sample_request) empty_order_db) ''paid'' :: (order_db, nat, order) tx)
     (put_order 1 (set_status StatusPaid 15) one_order_db) [] (\<lambda>r d' _. rs_status (update_status_response r) = 500)"
proof -
  let ?o = "new_order 10 (order_of_request 7 sample_request) empty_order_db"
  have o': "o_version ?o = 0" "o_id ?o = 1" "o_status ?o = StatusPending"
    by (simp_all add: new_order_def create_defaults_def order_of_request_def empty_order_db_def)
  have row: "order_row (put_order 1 (set_status StatusPaid 15) one_order_db) 1 = Some (set_status StatusPaid 15 ?o)"
    using order_row_put_order [OF one_order_db_ok, of "set_status StatusPaid 15" 1 1] one_order_row by simp
  have "orders_ok (put_order 1 (set_status StatusPaid 15) one_order_db)"
    by (rule orders_ok_put_order [OF one_order_db_ok]) simp
  from stale_update_500 [OF this, of ?o "''paid''" sample_env] show ?thesis
    by (rule holds_conseq) (use o' row in \<open>auto simp: isValidTransition_iff\<close>)
qed

text \<open>
  C21: the pages of the list cover it.  For a page size of 1 to 100, the announced number of pages is the
  number of orders over the size, rounded up, and the pages 1, 2, ... of that many contain, one after the other, the
  orders of the user, newest first, each once.
\<close>

theorem pages_cover:
  assumes "length (user_orders u d) \<le> 2 ^ 45" "1 \<le> ps" "ps \<le> 100"
  shows "\<exists>n. (\<forall>pg. pg_pages (new_page_result (user_orders u d) (length (user_orders u d)) pg ps) = int n) \<and>
    concat (map (\<lambda>k. case fst (exec_tx (list_by_user_id u (int k + 1) ps :: (order_db, 'm, order page_result) tx) [] d) of
        Inr p \<Rightarrow> pg_items p | Inl _ \<Rightarrow> []) [0..<n]) = user_orders u d"
proof -
  let ?xs = "user_orders u d" and ?p = "nat ps"
  define n where "n = nat ((int (length ?xs) + ps - 1) div ps)"
  have n: "int n = (int (length ?xs) + ps - 1) div ps"
    using assms(2) by (simp add: n_def pos_imp_zdiv_nonneg_iff)
  have bound: "int n * ps < 2 ^ 63" "int (length ?xs) \<le> int n * ps"
  proof -
    have l: "int (length ?xs) \<le> 2 ^ 45" using assms(1) by (metis of_nat_le_iff of_nat_numeral of_nat_power)
    have "int n * ps = int (length ?xs) + ps - 1 - (int (length ?xs) + ps - 1) mod ps"
      unfolding n by (simp add: minus_mod_eq_div_mult)
    moreover have "(int (length ?xs) + ps - 1) mod ps < ps" "0 \<le> (int (length ?xs) + ps - 1) mod ps" using assms(2) by simp_all
    ultimately have "int n * ps < 2 ^ 63 \<and> int (length ?xs) \<le> int n * ps" using l assms(3) by auto
    then show "int n * ps < 2 ^ 63" "int (length ?xs) \<le> int n * ps" by blast+
  qed
  have page: "pg_items (new_page_result (offset_limit (page_offset (int k + 1) ps) ps ?xs) m (int k + 1) ps) =
      take ?p (drop (k * ?p) ?xs)" if "k < n" for k m
  proof -
    have "int k * ps \<le> int n * ps" using that assms(2) by (intro mult_right_mono) auto
    moreover have "int k \<le> int k * ps" using assms(2) mult_left_mono [of 1 ps "int k"] by simp
    moreover have "0 \<le> int k * ps" "0 \<le> int k" using assms(2) by simp_all
    ultimately have "in_int64 (int k)" "in_int64 (int k * ps)" using bound(1) unfolding in_int64_def by linarith+
    then have "wrap64 (int k) = int k" "wrap64 (int k * ps) = int k * ps" by (simp_all add: wrap64_id)
    then show ?thesis
      using assms(2) by (simp add: new_page_result_def offset_limit_def page_offset_def nat_mult_distrib)
  qed
  have "concat (map (\<lambda>k. case fst (exec_tx (list_by_user_id u (int k + 1) ps :: (order_db, 'm, order page_result) tx) [] d) of
        Inr p \<Rightarrow> pg_items p | Inl _ \<Rightarrow> []) [0..<n]) = concat (map (\<lambda>k. take ?p (drop (k * ?p) ?xs)) [0..<n])"
    by (intro arg_cong [where f = concat] map_cong refl) (simp add: list_page page)
  also have "\<dots> = take (n * ?p) ?xs" by (rule concat_chunks)
  also have "\<dots> = ?xs"
  proof (rule take_all)
    have "int (length ?xs) \<le> int (n * ?p)" using bound(2) assms(2) by simp
    then show "length ?xs \<le> n * ?p" by linarith
  qed
  finally show ?thesis
    using pages_ceiling [OF assms(1), of ps] assms(2,3) n by (intro exI [of _ n] conjI allI) auto
qed

lemma pages_cover_witness:
  "\<exists>n. (\<forall>pg. pg_pages (new_page_result (user_orders 7 one_order_db) (length (user_orders 7 one_order_db)) pg 20) = int n) \<and>
    concat (map (\<lambda>k. case fst (exec_tx (list_by_user_id 7 (int k + 1) 20 :: (order_db, nat, order page_result) tx) [] one_order_db) of
        Inr p \<Rightarrow> pg_items p | Inl _ \<Rightarrow> []) [0..<n]) = user_orders 7 one_order_db"
proof (rule pages_cover)
  have "length (user_orders 7 one_order_db) \<le> 1" by (simp add: length_user_orders one_order_db_def)
  then show "length (user_orders 7 one_order_db) \<le> 2 ^ 45" by (rule order_trans) simp
qed simp_all

end
