(* ===== verification/OrderPrivacy.thy ===== *)
theory OrderPrivacy
  imports OrderRoutes OrderProps
begin

text \<open>
  Who sees and changes what through the order gateway: a request with the token of a user changes no other user's
  orders (integrity), and its answer depends on no other user's orders (noninterference, by the rules of
  \<open>Relational\<close>).  The last section is about the status route, whose handler parses a request twice.
\<close>

subsection \<open>What belongs to a user\<close>

definition own :: "nat \<Rightarrow> order_db \<Rightarrow> order list" where
  "own u d = filter (\<lambda>o'. o_user_id o' = u) (orders (biz d))"

definition others :: "nat \<Rightarrow> order_db \<Rightarrow> order list" where
  "others u d = filter (\<lambda>o'. o_user_id o' \<noteq> u) (orders (biz d))"

text \<open>
  Two databases that look alike to user \<open>u\<close>: the same rows of that user, and the event id a request may write is
  used in both or in neither.
\<close>

definition alike :: "nat \<Rightarrow> string \<Rightarrow> order_db \<Rightarrow> order_db \<Rightarrow> bool" where
  "alike u ev d d' \<longleftrightarrow> own u d' = own u d \<and> orders_ok d \<and> orders_ok d' \<and>
     (event_id_used ev (outbox d') \<longleftrightarrow> event_id_used ev (outbox d))"

lemma alike_own: "alike u ev d d' \<Longrightarrow> own u d' = own u d"
  by (simp add: alike_def)

lemma find_own: "find (\<lambda>o'. live o' \<and> o_id o' = i \<and> o_user_id o' = u) (orders (biz d)) = find (\<lambda>o'. live o' \<and> o_id o' = i) (own u d)"
proof -
  have "find (\<lambda>o'. live o' \<and> o_id o' = i \<and> o_user_id o' = u) os =
      find (\<lambda>o'. live o' \<and> o_id o' = i) (filter (\<lambda>o'. o_user_id o' = u) os)" for os
    by (induction os) auto
  then show ?thesis by (simp add: own_def)
qed

lemma filter_own: "filter (\<lambda>o'. live o' \<and> o_user_id o' = u) (orders (biz d)) = filter live (own u d)"
  by (simp add: own_def conj_commute)

subsection \<open>Integrity\<close>

lemma others_put_order:
  assumes "orders_ok d" "current d u i st v c" "\<And>o'. o_user_id (f o') = o_user_id o'"
  shows "others u (put_order i f d) = others u d"
proof -
  have "o_user_id o' = u" if "o' \<in> set (orders (biz d))" "o_id o' = i" for o'
  proof -
    from assms(1,2) have "c \<in> set (orders (biz d))" "o_id c = i" "o_user_id c = u"
      by (auto simp: current_def order_row_Some)
    with assms(1) that show ?thesis
      unfolding orders_ok_def by (metis distinct_key_eq)
  qed
  then have "filter (\<lambda>o'. o_user_id o' \<noteq> u) (map (\<lambda>o'. if o_id o' = i then f o' else o') os) =
      filter (\<lambda>o'. o_user_id o' \<noteq> u) os" if "set os \<subseteq> set (orders (biz d))" for os
    using that assms(3) by (induction os) auto
  then show ?thesis by (simp add: others_def orders_put_order)
qed

lemma others_created: "order_created_by env u q d o' e d' \<Longrightarrow> others u d' = others u d"
  by (auto simp: order_created_by_def others_def new_order_def create_defaults_def order_of_request_def)

text \<open>No operation of the logic of user \<open>u\<close> changes another user's rows.\<close>

lemma create_order_others:
  assumes "create_order env u q s = (r, s1)"
  shows "others u (db s1) = others u (db s)"
  using holds_sessionD [OF holds_create_order assms refl refl] others_created by auto

lemma update_order_status_others:
  assumes ok: "orders_ok (db s)" and run: "update_order_status env u i st s = (r, s1)"
  shows "others u (db s1) = others u (db s)"
proof -
  have from_row: "holds (update_order_from env c st) (db s) (wire s) (\<lambda>r d' w'. others u d' = others u (db s))"
    if "order_row (db s) i = Some c" "o_user_id c = u" for c
    by (rule holds_conseq [OF holds_update_order_from [OF ok]])
      (use that others_put_order [OF ok] ok in \<open>auto simp: order_cancelled_by_def current_def order_row_Some others_def\<close>)
  have "holds (update_order_status env u i st) (db s) (wire s) (\<lambda>r d' w'. others u d' = others u (db s))"
    unfolding update_order_status_def
    by (rule holds_bind, rule holds_try, rule holds_find_by_id_and_user_id [OF ok]; simp add: from_row holds_throw)
  from holds_sessionD [OF this run] show ?thesis by simp
qed

subsection \<open>Noninterference\<close>

lemma agrees_find_own [rel_intro]:
  assumes "\<And>r d d'. alike u ev d d' \<Longrightarrow> (\<And>c. r = Inr c \<Longrightarrow> c \<in> set (own u d) \<and> live c \<and> o_id c = i) \<Longrightarrow> W r d d'"
  shows "agrees (alike u ev) (find_by_id_and_user_id i u) W"
  unfolding find_by_id_and_user_id_def query_def
proof (rule agrees_stmt)
  fix d d' assume A: "alike u ev d d'"
  let ?r = "\<lambda>d. first_row (\<lambda>o'. live o' \<and> o_id o' = i \<and> o_user_id o' = u) (orders (biz d))"
  have "?r d' = ?r d"
    by (simp add: first_row_def find_own alike_own [OF A])
  moreover have "c \<in> set (own u d) \<and> live c \<and> o_id c = i" if "?r d = Inr c" for c
    using first_row_member [OF that] by (simp add: own_def)
  then have "W (?r d) d d'" by (rule assms [OF A])
  ultimately show "fst (?r d', d') = fst (?r d, d) \<and> W (fst (?r d, d)) (snd (?r d, d)) (snd (?r d', d'))"
    by simp
qed (rule assms, assumption, simp)

lemma update_orders_own:
  assumes p: "\<And>o'. p o' \<Longrightarrow> o_user_id o' = u" and f: "\<And>o'. o_user_id (f o') = o_user_id o'" "\<And>o'. o_id (f o') = o_id o'"
    and A: "alike u ev d d'"
  shows "fst (update_orders p f d') = fst (update_orders p f d)"
    and "alike u ev (snd (update_orders p f d)) (snd (update_orders p f d'))"
    and "own u (snd (update_orders p f d)) = map (\<lambda>o'. if p o' then f o' else o') (own u d)"
proof -
  have n: "filter (\<lambda>o'. p o' \<and> f o' \<noteq> o') (orders (biz d)) = filter (\<lambda>o'. p o' \<and> f o' \<noteq> o') (own u d)" for d
    unfolding own_def filter_filter using p by (intro filter_cong) blast+
  show "fst (update_orders p f d') = fst (update_orders p f d)"
    using alike_own [OF A] by (simp add: update_orders_def update_rows_def n)
  have own: "own u (snd (update_orders p f d)) = map (\<lambda>o'. if p o' then f o' else o') (own u d)" for d
    by (simp add: own_def update_orders_def update_rows_def filter_map comp_def if_distrib [of o_user_id] f(1) cong: if_cong)
  then show "own u (snd (update_orders p f d)) = map (\<lambda>o'. if p o' then f o' else o') (own u d)" .
  have ok: "orders_ok (snd (update_orders p f d))" if "orders_ok d" for d
  proof -
    have "map o_id (map (\<lambda>o'. if p o' then f o' else o') (orders (biz d))) = map o_id (orders (biz d))"
      using f(2) by simp
    with that show ?thesis
      by (auto simp: orders_ok_def update_orders_def update_rows_def simp del: map_map) (auto simp: f(2))
  qed
  have "outbox (snd (update_orders p f d)) = outbox d" for d :: order_db
    by (simp add: update_orders_def update_rows_def)
  with A own ok show "alike u ev (snd (update_orders p f d)) (snd (update_orders p f d'))"
    by (simp add: alike_def)
qed

lemma matches_user: "matches u i st v o' \<Longrightarrow> o_user_id o' = u"
  by (simp add: matches_def)

lemma agrees_update_status [rel_intro]:
  assumes "\<And>r d d'. alike u ev d d' \<Longrightarrow> W r d d'"
  shows "agrees (alike u ev) (update_status now u i st st' v) W"
proof -
  let ?f = "\<lambda>o'. o'\<lparr>o_status := st', o_version := o_version o' + 1, o_updated_at := now\<rparr>"
  have "agrees (alike u ev) (stmt (update_orders (matches u i st v) ?f)) (\<lambda>r. alike u ev)"
    by (rule agrees_stmt) (simp_all add: update_orders_own(1,2) [OF matches_user])
  then have "agrees (alike u ev) (update_status now u i st st' v) (\<lambda>r. alike u ev)"
    unfolding update_status_def autocommit_def by (rule agrees_transaction)
  then show ?thesis by (rule agrees_conseq) (use assms in auto)
qed

text \<open>\<open>Cancel\<close> reads the row back by its id alone; by then the row is known to be the user's.\<close>

lemma agrees_cancel_row:
  "agrees (alike u ev) (cancel_order_row now u i v reason) (\<lambda>r. alike u ev)"
proof -
  let ?f = "\<lambda>o'. o'\<lparr>o_status := StatusCancelled, o_version := o_version o' + 1, o_cancel_reason := reason, o_updated_at := now\<rparr>"
  let ?p = "matches u i StatusPending v"
  let ?g = "\<lambda>d. if (\<exists>o' \<in> set (orders (biz d)). ?p o') \<and> 32 < length reason
         then (Inl (MySQLError 1406), d) else update_orders ?p ?f d"
  have hit: "\<exists>c \<in> set (own u (snd (update_orders ?p ?f d))). live c \<and> o_id c = i"
    if "fst (update_orders ?p ?f d) = Inr n" "n \<noteq> 0" "alike u ev d d" for d n
  proof -
    from that(1,2) obtain o' where "o' \<in> set (orders (biz d))" "?p o'"
      by (auto simp: update_orders_def update_rows_def filter_empty_conv)
    then have "?f o' \<in> set (own u (snd (update_orders ?p ?f d)))"
      by (force simp: own_def update_orders_def update_rows_def matches_def)
    with \<open>?p o'\<close> show ?thesis by (intro bexI [of _ "?f o'"]) (simp_all add: matches_def live_def)
  qed
  have ex: "(\<exists>o' \<in> set (orders (biz d')). ?p o') \<longleftrightarrow> (\<exists>o' \<in> set (orders (biz d)). ?p o')" if "alike u ev d d'" for d d'
  proof -
    have "(\<exists>o' \<in> set (orders (biz d)). ?p o') \<longleftrightarrow> (\<exists>o' \<in> set (own u d). ?p o')" for d
      by (auto simp: own_def matches_def)
    with alike_own [OF that] show ?thesis by simp
  qed
  show ?thesis
    unfolding cancel_order_row_def
  proof (rule agrees_bind [where M = "\<lambda>n d d'. alike u ev d d' \<and> (n \<noteq> 0 \<longrightarrow> (\<exists>c \<in> set (own u d). live c \<and> o_id c = i))"])
    show "agrees (alike u ev) (stmt ?g) (\<lambda>r d d'. case r of Inl e \<Rightarrow> alike u ev d d'
        | Inr n \<Rightarrow> alike u ev d d' \<and> (n \<noteq> 0 \<longrightarrow> (\<exists>c \<in> set (own u d). live c \<and> o_id c = i)))"
    proof (rule agrees_stmt)
      fix d d' assume A: "alike u ev d d'"
      then have same: "alike u ev d d" by (simp add: alike_def)
      have upd: "fst (update_orders ?p ?f d') = fst (update_orders ?p ?f d)"
        "alike u ev (snd (update_orders ?p ?f d)) (snd (update_orders ?p ?f d'))"
        by (rule update_orders_own(1,2) [OF _ _ _ A]; simp add: matches_def)+
      obtain n where n: "fst (update_orders ?p ?f d) = Inr n" by (simp add: update_orders_def split_beta)
      from A hit [OF n _ same] ex [OF A] upd n show "fst (?g d') = fst (?g d) \<and> (case fst (?g d) of Inl e \<Rightarrow> alike u ev (snd (?g d)) (snd (?g d'))
        | Inr n \<Rightarrow> alike u ev (snd (?g d)) (snd (?g d')) \<and> (n \<noteq> 0 \<longrightarrow> (\<exists>c \<in> set (own u (snd (?g d))). live c \<and> o_id c = i)))"
        by (cases "(\<exists>o' \<in> set (orders (biz d)). ?p o') \<and> 32 < length reason")
          (simp_all del: StatusPending_def StatusCancelled_def)
    qed simp
  next
    fix n :: nat
    show "agrees (\<lambda>d d'. alike u ev d d' \<and> (n \<noteq> 0 \<longrightarrow> (\<exists>c \<in> set (own u d). live c \<and> o_id c = i)))
      (if n = 0 then ret (0, None) else bind_tx (query (\<lambda>d. first_row (\<lambda>o'. live o' \<and> o_id o' = i) (orders (biz d))))
        (\<lambda>o'. ret (n, Some o'))) (\<lambda>r. alike u ev)"
    proof (rule agrees_if, rule agrees_ret, simp, rule agrees_bind [where M = "\<lambda>_. alike u ev"], rule agrees_query)
      fix d d' assume A: "alike u ev d d' \<and> (n \<noteq> 0 \<longrightarrow> (\<exists>c \<in> set (own u d). live c \<and> o_id c = i))" and "n \<noteq> 0"
      then obtain c where c: "c \<in> set (own u d)" "live c" "o_id c = i" by blast
      have "order_row d i = Some c" "order_row d' i = Some c"
        using A c by (auto simp: order_row_Some alike_def) (auto simp: own_def set_eq_iff filter_eq_iff dest!: arg_cong [of _ _ set])
      then show "first_row (\<lambda>o'. live o' \<and> o_id o' = i) (orders (biz d')) = first_row (\<lambda>o'. live o' \<and> o_id o' = i) (orders (biz d))"
        by (simp add: order_row_def first_row_def)
    qed (auto intro!: agrees_ret split: sum.splits)
  qed
qed

text \<open>The outbox row a request writes has an id of its own in each database; nothing returns it.\<close>

lemma agrees_outbox_insert:
  fixes c :: 'c
  assumes "ob_event_id e = ev"
  shows "agrees (alike u ev) (bind_tx (outbox_insert e) (\<lambda>_. ret c) :: (order_db, 'm, 'c) tx) (\<lambda>r. alike u ev)"
proof -
  have "(bind_tx (outbox_insert e) (\<lambda>_. ret c) :: (order_db, 'm, 'c) tx) = bind_tx (stmt (\<lambda>d. if event_id_used ev (outbox d) then (Inl ErrDupEntry, d)
      else (Inr (), d\<lparr>outbox := insert_row e (outbox d)\<rparr>))) (\<lambda>_. ret c)"
    using assms
    by (auto simp: fun_eq_iff bind_tx_def outbox_insert_def stmt_def event_id_used_def insert_row_def Let_def ret_def
        split: prod.splits reply.splits)
  moreover have "agrees (alike u ev) (stmt (\<lambda>d. if event_id_used ev (outbox d) then (Inl ErrDupEntry, d)
      else (Inr (), d\<lparr>outbox := insert_row e (outbox d)\<rparr>)) :: (order_db, 'm, unit) tx) (\<lambda>r. alike u ev)"
    by (rule agrees_stmt)
      (use assms in \<open>auto simp: alike_def own_def orders_ok_def event_id_used_def insert_row_def\<close>)
  then have "agrees (alike u ev) (bind_tx (stmt (\<lambda>d. if event_id_used ev (outbox d) then (Inl ErrDupEntry, d)
      else (Inr (), d\<lparr>outbox := insert_row e (outbox d)\<rparr>))) (\<lambda>_. ret c) :: (order_db, 'm, 'c) tx) (\<lambda>r. alike u ev)"
    by (intro agrees_bind [where M = "\<lambda>_. alike u ev"] agrees_ret) (auto elim!: agrees_conseq split: sum.splits)
  ultimately show ?thesis by simp
qed

lemma agrees_step:
  assumes "agrees V t (\<lambda>r. V)" "\<And>a. agrees V (f a) (\<lambda>r. V)"
  shows "agrees V (bind_tx t f) (\<lambda>r. V)"
  by (rule agrees_bind [where M = "\<lambda>_. V"], rule agrees_conseq [OF assms(1)]) (auto split: sum.splits intro: assms(2))

lemma agrees_update_order_from:
  assumes "o_user_id c = u"
  shows "agrees (alike u (en_uuid env)) (update_order_from env c st :: (order_db, 'm, order) tx) (\<lambda>r. alike u (en_uuid env))"
proof -
  let ?V = "alike u (en_uuid env)"
  have event: "ob_event_id e = en_uuid env" if "cancelled_event env x y = Inr e" for x y e
    using that by (auto simp: cancelled_event_def bind_err_Inr outbox_row_def)
  have writes: "agrees ?V (bind_tx (lift_err (cancelled_event env x y)) (\<lambda>e. bind_tx (outbox_insert e) (\<lambda>_. ret x))
      :: (order_db, 'm, order) tx) (\<lambda>r. ?V)" for x y
  proof (cases "cancelled_event env x y")
    case (Inl e)
    then show ?thesis by (simp add: agrees_def bind_tx_def lift_err_def)
  next
    case (Inr e)
    have "bind_tx (lift_err (cancelled_event env x y)) f = f e" for f :: "outbox_event \<Rightarrow> (order_db, 'm, order) tx"
      using Inr by (simp add: fun_eq_iff bind_tx_def lift_err_def)
    with agrees_outbox_insert [OF event [OF Inr]] show ?thesis by simp
  qed
  have "agrees ?V (cancel_order env c ReasonUserCancelled :: (order_db, 'm, order) tx) (\<lambda>r. ?V)"
    unfolding cancel_order_def
    by (rule agrees_transaction, rule agrees_step)
      (auto simp: assms agrees_cancel_row writes intro!: agrees_throw split: option.splits)
  moreover have "agrees ?V (paid_order env c :: (order_db, 'm, order) tx) (\<lambda>r. ?V)"
    unfolding paid_order_def assms
    by (rule agrees_step, rule agrees_update_status) (auto intro!: agrees_throw agrees_ret)
  ultimately show ?thesis
    unfolding update_order_from_def by (auto intro!: agrees_throw)
qed

lemma agrees_update_order_status:
  "agrees (alike u (en_uuid env)) (update_order_status env u i st) (\<lambda>r. alike u (en_uuid env))"
  unfolding update_order_status_def
proof (rule agrees_bind [where M = "\<lambda>x d d'. alike u (en_uuid env) d d' \<and> (\<forall>c. x = Inr c \<longrightarrow> o_user_id c = u)"])
  show "agrees (alike u (en_uuid env)) (try_tx (find_by_id_and_user_id i u)) (\<lambda>r d d'. case r of
      Inl e \<Rightarrow> alike u (en_uuid env) d d'
    | Inr x \<Rightarrow> alike u (en_uuid env) d d' \<and> (\<forall>c. x = Inr c \<longrightarrow> o_user_id c = u))"
    by (rule agrees_try, rule agrees_find_own) (auto simp: own_def)
next
  fix x
  show "agrees (\<lambda>d d'. alike u (en_uuid env) d d' \<and> (\<forall>c. x = Inr c \<longrightarrow> o_user_id c = u))
    (case x of Inl err \<Rightarrow> if errors_is err ErrRecordNotFound then throw ErrOrderNotFound else throw err
      | Inr c \<Rightarrow> update_order_from env c st) (\<lambda>r. alike u (en_uuid env))"
  proof (cases x)
    case (Inr c)
    show ?thesis
    proof (cases "o_user_id c = u")
      case True
      with Inr agrees_conseq [OF agrees_update_order_from [OF True]] show ?thesis by fastforce
    qed (use Inr in \<open>simp add: agrees_def\<close>)
  qed (auto intro!: agrees_throw)
qed

lemma agrees_get_by_id: "agrees (alike u ev) (get_by_id u i) (\<lambda>r. alike u ev)"
  unfolding get_by_id_def
  by (rule agrees_step, rule agrees_try, rule agrees_find_own)
    (auto intro!: agrees_throw agrees_ret split: sum.splits)

lemma agrees_list: "agrees (alike u ev) (list_by_user_id u pg sz) (\<lambda>r. alike u ev)"
proof -
  have "agrees (alike u ev) (query (\<lambda>d. Inr (f (filter live (own u d))))) (\<lambda>r. alike u ev)" for f :: "order list \<Rightarrow> 'b"
    by (rule agrees_query) (simp_all add: alike_def)
  note own_query = this [of length] this [of by_id_desc]
  show ?thesis
    unfolding list_by_user_id_def find_by_user_id_with_page_def find_by_user_id_def filter_own
    by (intro agrees_step) (auto simp: own_query intro!: agrees_ret agrees_step split: prod.splits)
qed

subsection \<open>The gateway\<close>

lemma agrees_get_handler: "agrees (alike u ev) (get_order_handler u parsed) (\<lambda>r. alike u ev)"
  unfolding get_order_handler_def
  by (auto intro!: agrees_ret agrees_step agrees_try agrees_get_by_id split: sum.splits)

lemma agrees_list_handler: "agrees (alike u ev) (list_order_handler u parsed) (\<lambda>r. alike u ev)"
  unfolding list_order_handler_def
  by (auto intro!: agrees_ret agrees_step agrees_try agrees_list split: sum.splits)

lemma agrees_update_handler:
  "agrees (alike u (en_uuid env)) (update_order_status_handler env u path_req req) (\<lambda>r. alike u (en_uuid env))"
  unfolding update_order_status_handler_def
  by (auto intro!: agrees_ret agrees_step agrees_try agrees_update_order_status split: sum.splits)

text \<open>Two worlds that look alike to a user: the databases do, and the driver will answer alike.\<close>

definition world_alike :: "nat \<Rightarrow> string \<Rightarrow> ('r, 'm) order_world \<Rightarrow> ('r, 'm) order_world \<Rightarrow> bool" where
  "world_alike u ev w w' \<longleftrightarrow> alike u ev (db (ow_session w)) (db (ow_session w')) \<and>
     sched (ow_session w') = sched (ow_session w)"

lemma on_session_alike:
  assumes "agrees (alike u ev) t (\<lambda>r. alike u ev)" "world_alike u ev w w'"
  shows "fst (on_session enc t w') = fst (on_session enc t w)"
proof -
  obtain r s1 where r: "t (ow_session w) = (r, s1)" by (cases "t (ow_session w)")
  from agreesD [OF assms(1) _ _ r] assms(2) obtain s1' where "t (ow_session w') = (r, s1')"
    unfolding world_alike_def by metis
  with r show ?thesis by (simp add: on_session_def split: sum.splits)
qed

lemma handlers_alike:
  assumes "world_alike u (en_uuid env) w w'" "GetUserID conv r = u"
  shows "fst (GetOrderHandler conv hp env r w') = fst (GetOrderHandler conv hp env r w)"
    and "fst (ListOrderHandler conv hp env r w') = fst (ListOrderHandler conv hp env r w)"
    and "fst (UpdateOrderStatusHandler conv hp env r w') = fst (UpdateOrderStatusHandler conv hp env r w)"
  using assms on_session_alike [OF agrees_get_handler assms(1)] on_session_alike [OF agrees_list_handler assms(1)]
    on_session_alike [OF agrees_update_handler assms(1)]
  by (simp_all add: GetOrderHandler_def ListOrderHandler_def UpdateOrderStatusHandler_def split: prod.splits)

lemma health_alike:
  assumes "sched (ow_session w') = sched (ow_session w)"
  shows "fst (HealthHandler name [order_health pool_err] r w') = fst (HealthHandler name [order_health pool_err] r w)"
  using assms
  by (auto simp: HealthHandler_def order_health_def query_def stmt_def next_reply_def
      split: option.splits list.splits reply.splits)

text \<open>Each handler leaves the other users' rows alone.\<close>

lemma reads_keep:
  "get_order_handler u p s = (r, s1) \<Longrightarrow> db s1 = db s"
  "list_order_handler u p2 s = (r2, s1) \<Longrightarrow> db s1 = db s"
  "query f s = (r3, s1) \<Longrightarrow> db s1 = db s"
  by (auto simp: get_order_handler_def list_order_handler_def get_by_id_def list_by_user_id_def find_by_id_and_user_id_def
      find_by_user_id_with_page_def find_by_user_id_def bind_tx_def try_tx_def ret_def throw_def query_def stmt_def
      dest!: next_reply_data split: sum.splits prod.splits reply.splits if_splits)

lemma health_others:
  "HealthHandler name [order_health pool_err] r w = (ops, w1) \<Longrightarrow> db (ow_session w1) = db (ow_session w)"
  by (auto simp: HealthHandler_def order_health_def dest: reads_keep(3) split: option.splits sum.splits prod.splits)

lemma update_handler_others:
  assumes "orders_ok (db s)" "update_order_status_handler env u p q s = (r, s1)"
  shows "others u (db s1) = others u (db s)"
  using assms(2) update_order_status_others [OF assms(1)]
  by (auto simp: update_order_status_handler_def bind_tx_def try_tx_def ret_def split: sum.splits prod.splits)

lemma create_gated_others:
  "create_gated env rdb gate u q w = (r, w1) \<Longrightarrow> others u (db (ow_session w1)) = others u (db (ow_session w))"
  using create_order_others
  by (fastforce simp: create_gated_def count_created_def Let_def split: prod.splits sum.splits option.splits if_splits)

lemma replay_session: "replay_order env rc gate w = (r, w1) \<Longrightarrow> ow_session w1 = ow_session w"
  by (auto simp: replay_order_def split: prod.splits)

lemma create_others:
  assumes "create env rdb u q key w = (r, w1)"
  shows "others u (db (ow_session w1)) = others u (db (ow_session w))"
  using assms unfolding create_def Let_def
  by (auto dest!: create_gated_others replay_session simp: count_created_def
      split: option.splits if_splits prod.splits sum.splits)

text \<open>
  C31: the order gateway keeps users apart.  A request that carries no accepted token or one of user \<open>u\<close>, on whatever
  route, leaves the orders of all other users as they are; and unless it creates an order, its answer is the same for any
  other database that holds the same orders of \<open>u\<close> (and has the fresh event id equally unused): it tells
  nothing about the orders of others.
\<close>

theorem orders_private:
  fixes w :: "('r, 'm) order_world"
  assumes "router_ok gz" and ok: "orders_ok (db (ow_session w))"
    and token: "\<And>r1. gz_authorize gz secret r = Some r1 \<Longrightarrow> GetUserID conv r1 = u"
    and run: "order_server gz origins rl secret conv hp env rdb pool_err r (l, w) = (ops, (l1, w1))"
  shows "others u (db (ow_session w1)) = others u (db (ow_session w)) \<and>
    (\<forall>w'. hr_method r \<noteq> ''POST'' \<and> world_alike u (en_uuid env) w w' \<longrightarrow>
       fst (order_server gz origins rl secret conv hp env rdb pool_err r (l, w')) = ops)"
proof (intro conjI allI impI)
  show "others u (db (ow_session w1)) = others u (db (ow_session w))"
    using assms(1) run [unfolded order_server_def]
  proof (cases rule: serve_cases)
    case (ran t r1 ws pre)
    have u: "GetUserID conv r1 = u" if "rt_jwt t = Some secret"
      using that ran(5) token by auto
    from ran(1) show ?thesis
    proof (cases rule: order_mounted_cases)
      case 1
      with ran(3) health_others show ?thesis by metis
    next
      case 2
      with ran(3) u show ?thesis
        by (auto simp: CreateOrderHandler_def create_order_handler_def dest: create_others split: prod.splits sum.splits)
    next
      case 3
      with ran(3) show ?thesis
        by (auto simp: ListOrderHandler_def on_session_def dest: reads_keep(2) split: prod.splits sum.splits)
    next
      case 4
      with ran(3) show ?thesis
        by (auto simp: GetOrderHandler_def on_session_def dest: reads_keep(1) split: prod.splits sum.splits)
    next
      case 5
      with ran(3) u show ?thesis
        by (auto simp: UpdateOrderStatusHandler_def on_session_def dest: update_handler_others [OF ok] split: prod.splits sum.splits)
    qed
  qed simp
next
  fix w' assume w': "hr_method r \<noteq> ''POST'' \<and> world_alike u (en_uuid env) w w'"
  have "fst (serve gz origins rl (order_mounted secret conv hp env rdb pool_err) r (l, w')) =
      fst (serve gz origins rl (order_mounted secret conv hp env rdb pool_err) r (l, w))"
    using assms(1)
  proof (rule serve_cong)
    fix t :: "('r, 'm) order_world route" and r1
    assume t: "t \<in> set (order_mounted secret conv hp env rdb pool_err)" and m: "rt_method t = hr_method r"
      and r1: "rt_jwt t = None \<and> r1 = r \<or> (\<exists>secret. rt_jwt t = Some secret \<and> gz_authorize gz secret r = Some r1)"
    have u: "GetUserID conv r1 = u" if "rt_jwt t = Some secret"
      using that r1 token by auto
    from t show "fst (rt_handler t r1 w') = fst (rt_handler t r1 w)"
      by (cases rule: order_mounted_cases)
        (use w' m u handlers_alike [OF conjunct2 [OF w']] health_alike [of w' w] in \<open>auto simp: world_alike_def\<close>)
  qed
  then show "fst (order_server gz origins rl secret conv hp env rdb pool_err r (l, w')) = ops"
    using run by (simp add: order_server_def)
qed

text \<open>
  Instances: a router that compares paths, tokens that are user ids, and a parser that reads an order id from a header
  and a status from the body, which it leaves empty.
\<close>

definition sample_pick :: "(string \<times> string) list \<Rightarrow> http_request \<Rightarrow> pick" where
  "sample_pick ps r =
     (case find (\<lambda>i. fst (ps ! i) = hr_method r \<and> snd (ps ! i) = hr_path r) [0..<length ps] of
        Some i \<Rightarrow> Picked i
      | None \<Rightarrow> if \<exists>p \<in> set ps. snd p = hr_path r then WrongMethod else NoRoute)"

definition sample_go_zero :: go_zero where
  "sample_go_zero = \<lparr>gz_pick = sample_pick,
     gz_authorize = (\<lambda>secret r. if hr_header r ''Authorization'' = '''' then None
       else Some (r\<lparr>hr_ctx := [GoZeroKey ''user_id'' \<mapsto> VNumber (hr_header r ''Authorization'')]\<rparr>)),
     gz_unauthorized = [WriteHeader 401], gz_not_found = [WriteHeader 404], gz_cors = (\<lambda>origins r. ([], False))\<rparr>"

lemma sample_router: "router_ok sample_go_zero"
  by (auto simp: router_ok_def sample_go_zero_def sample_pick_def split: option.splits if_splits dest!: find_SomeD)

definition sample_parser :: order_parser where
  "sample_parser = \<lparr>
     op_create = (\<lambda>r. (Inr sample_request, r\<lparr>hr_body := Some ('''', None)\<rparr>)),
     op_list = (\<lambda>r. (Inr \<lparr>lr_page = 1, lr_page_size = 20\<rparr>, r)),
     op_id = (\<lambda>r. (Inr (length (hr_header r ''X-Id'')), r\<lparr>hr_body := map_option (\<lambda>_. ('''', None)) (hr_body r)\<rparr>)),
     op_status = (\<lambda>r. (if has_json_body r then (case hr_body r of
            None \<Rightarrow> Inl (PlainError ''EOF'')
          | Some (b, err) \<Rightarrow> if b = '''' then Inl (PlainError ''EOF'') else Inr b)
        else Inl (PlainError ''field status is not set''),
        r\<lparr>hr_body := map_option (\<lambda>_. ('''', None)) (hr_body r)\<rparr>))\<rparr>"

definition sample_get :: http_request where
  "sample_get = (request_from ''10.0.0.1:80'')\<lparr>hr_path := ''/api/v1/orders'',
     hr_header := (\<lambda>k. if k = ''Authorization'' then ''7'' else '''')\<rparr>"

definition two_orders_db :: order_db where
  "two_orders_db = one_order_db\<lparr>biz := \<lparr>orders = orders (biz one_order_db) @
     [new_order 10 (order_of_request 8 sample_request) one_order_db], next_order_id = 3, known_users = []\<rparr>\<rparr>"

abbreviation sample_server where
  "sample_server \<equiv> order_server sample_go_zero [''*''] (mem_limiter 9) ''secret'' nat sample_parser sample_env (Some mem_redis) None"

lemma orders_private_witness:
  "let w = sample_world\<lparr>ow_session := \<lparr>db = one_order_db, sched = [], wire = []\<rparr>\<rparr>;
       w' = sample_world\<lparr>ow_session := \<lparr>db = two_orders_db, sched = [], wire = []\<rparr>\<rparr>
   in client_status (fst (sample_server sample_get ((\<lambda>_. 0), w))) = 200 \<and>
     fst (sample_server sample_get ((\<lambda>_. 0), w')) = fst (sample_server sample_get ((\<lambda>_. 0), w))"
proof -
  let ?w = "sample_world\<lparr>ow_session := \<lparr>db = one_order_db, sched = [], wire = []\<rparr>\<rparr>"
  let ?w' = "sample_world\<lparr>ow_session := \<lparr>db = two_orders_db, sched = [], wire = []\<rparr>\<rparr>"
  obtain ops l1 w1 where run: "sample_server sample_get ((\<lambda>_. 0), ?w) = (ops, (l1, w1))"
    by (cases "sample_server sample_get ((\<lambda>_. 0), ?w)") auto
  have ok: "client_status (fst (sample_server sample_get ((\<lambda>_. 0), ?w))) = 200" by code_simp
  have "go_atoi ''7'' = Some 7" by code_simp
  then have user: "GetUserID nat r1 = 7" if "gz_authorize sample_go_zero ''secret'' sample_get = Some r1" for r1
    using that by (auto simp: sample_go_zero_def sample_get_def GetUserID_def GetUserIDFromContext_def)
  have "alike 7 ''u1'' one_order_db two_orders_db"
    using one_order_db_ok
    by (auto simp: alike_def own_def two_orders_db_def one_order_db_def orders_ok_def new_order_def create_defaults_def
        order_of_request_def empty_order_db_def)
  then have same: "world_alike 7 (en_uuid sample_env) ?w ?w'" by (simp add: world_alike_def sample_env_def)
  have "orders_ok (db (ow_session ?w))" by (simp add: one_order_db_ok)
  from conjunct2 [OF orders_private [OF sample_router this user run]] same
  have "fst (sample_server sample_get ((\<lambda>_. 0), ?w')) = ops"
    by (simp add: sample_get_def request_from_def)
  with ok run show ?thesis by simp
qed

subsection \<open>The status route\<close>

text \<open>
  What go-zero's \<open>Parse\<close> does with the body of a request: it looks for a JSON body by the length and the type of the
  content; it reads such a body to its end, whatever struct it fills, and does not put it back (a body is taken to be one
  JSON document); where nothing is left there is no JSON document, and without a JSON body the required field
  \<open>status\<close> is missing.
\<close>

definition body_read :: "http_request \<Rightarrow> bool" where
  "body_read r \<longleftrightarrow> has_json_body r \<and> hr_body r = Some ('''', None)"

definition parse_reads_body :: "order_parser \<Rightarrow> http_request \<Rightarrow> bool" where
  "parse_reads_body hp r \<longleftrightarrow>
     (\<forall>i r1. op_id hp r = (Inr i, r1) \<longrightarrow> (if has_json_body r then body_read r1 else \<not> has_json_body r1)) \<and>
     (\<forall>r1. body_read r1 \<or> \<not> has_json_body r1 \<longrightarrow> (\<exists>e. fst (op_status hp r1) = Inl e))"

text \<open>
  The status of an order cannot be changed through the gateway.  The handler of the status route parses the
  request once for the path and once for the body; the first parse has read the body, so the second always
  fails, and every such request is answered with 400 and changes nothing.
\<close>

theorem status_route_rejects:
  assumes "parse_reads_body hp r"
  shows "client_status (fst (UpdateOrderStatusHandler conv hp env r w)) = 400 \<and>
    snd (UpdateOrderStatusHandler conv hp env r w) = w"
proof (cases "op_id hp r")
  case (Pair path r1)
  show ?thesis
  proof (cases path)
    case (Inl e)
    with Pair show ?thesis
      by (simp add: UpdateOrderStatusHandler_def on_session_def update_order_status_handler_def ret_def respond_def)
  next
    case (Inr i)
    with assms Pair obtain e where "fst (op_status hp r1) = Inl e"
      unfolding parse_reads_body_def by (cases "has_json_body r") (simp; blast)+
    with Inr Pair show ?thesis
      by (simp add: UpdateOrderStatusHandler_def on_session_def update_order_status_handler_def ret_def respond_def)
  qed
qed

definition sample_put :: http_request where
  "sample_put = sample_get\<lparr>hr_method := ''PUT'', hr_body := Some (''paid'', None), hr_content_length := 4,
     hr_header := (\<lambda>k. if k = ''Authorization'' then ''7'' else if k = ''Content-Type'' then ''application/json'' else '''')\<rparr>"

lemma status_route_rejects_witness:
  "parse_reads_body sample_parser sample_put \<and>
   fst (op_status sample_parser sample_put) = Inr ''paid'' \<and>
   client_status (fst (UpdateOrderStatusHandler nat sample_parser sample_env sample_put sample_world)) = 400"
proof -
  have json: "str_contains ''application/json'' ''application/json''" by code_simp
  then have "parse_reads_body sample_parser sample_put"
    by (auto simp: parse_reads_body_def sample_parser_def has_json_body_def body_read_def sample_put_def split: option.splits)
  moreover have "fst (op_status sample_parser sample_put) = Inr ''paid''"
    using json by (simp add: sample_parser_def sample_put_def has_json_body_def)
  ultimately show ?thesis
    using status_route_rejects by blast
qed

end
