(* ===== verification/OrderGate.thy ===== *)
theory OrderGate
  imports OrderProps Middleware
begin

text \<open>
  The idempotency gates of \<open>Create\<close> (\<open>createOrderLogic.go\<close>): what they hold, whom their answers reach, and a
  case they do not cover.
\<close>

subsection \<open>Stored answers\<close>

text \<open>The text a gate is the hash of tells the user apart: a number has no colon.\<close>

lemma gate_text_inj:
  assumes "format_uint u @ '':'' @ key = format_uint u2 @ '':'' @ key2"
  shows "u = u2 \<and> key = key2"
proof -
  have no_colon: "takeWhile (\<lambda>c. c \<noteq> CHR '':'') (format_uint n @ '':'' @ k) = format_uint n" for n k
  proof -
    have "c \<noteq> CHR '':''" if "c \<in> set (format_uint n)" for c
      using format_uint_digits [OF that] digit_value_char by (fastforce simp: digit_value_def)
    then show ?thesis by (simp add: takeWhile_append)
  qed
  have "format_uint u = format_uint u2"
    using arg_cong [OF assms, of "takeWhile (\<lambda>c. c \<noteq> CHR '':'')"] by (simp only: no_colon)
  moreover from this have "u = u2" by (metis option.inject parse_format_uint)
  ultimately show ?thesis using assms by simp
qed

lemma unmarshal_marshal_user:
  "unmarshal_order tp (Doc (marshal_order tt o')) = Inr x \<Longrightarrow> o_user_id x = o_user_id o'"
  by (auto simp: unmarshal_order_def marshal_order_def bind_err_Inr jfield_Cons split: if_splits)

lemma create_order_user:
  assumes "create_order env u q s = (Inr o', s1)"
  shows "o_user_id o' = u"
  using holds_sessionD [OF holds_create_order assms refl refl]
  by (auto simp: order_created_by_def new_order_def create_defaults_def order_of_request_def)

lemma create_gated_user: "create_gated env rdb gate u q w = (Inr o', w1) \<Longrightarrow> o_user_id o' = u"
  by (auto simp: create_gated_def Let_def dest: create_order_user split: prod.splits sum.splits)

text \<open>
  What \<open>Create\<close> with a key does to Redis: other keys keep their values; a free gate is afterwards free again or holds
  the order that was created; a taken one stays, and the answer is what it holds.
\<close>

lemma create_gate_view:
  assumes "redis_reliable rc view" "key \<noteq> ''''" "create env (Some rc) u q key w = (r, w1)"
  defines "gate \<equiv> orderIDempotencyKey env u key"
  shows "(\<forall>k. k \<noteq> gate \<longrightarrow> view (ow_redis w1) k = view (ow_redis w) k) \<and>
    (if view (ow_redis w) gate = None
     then (case r of Inl e \<Rightarrow> view (ow_redis w1) gate = None
                   | Inr o' \<Rightarrow> view (ow_redis w1) gate = Some (Doc (marshal_order (en_time_text env) o')) \<and> o_user_id o' = u)
     else view (ow_redis w1) gate = view (ow_redis w) gate \<and>
       (\<forall>o'. r = Inr o' \<longrightarrow> (\<exists>p. view (ow_redis w) gate = Some p \<and> unmarshal_order (en_time_parse env) p = Inr o')))"
proof -
  note red = redis_reliableD [OF assms(1)]
  from create_keyed [OF assms(2), of w env rc u q, folded gate_def] obtain wa where wa: "ow_redis wa = ow_redis w" and run:
    "create env (Some rc) u q key w =
      (case rc_setnx rc gate (Garbage '''') idempotencyTTL (ow_redis wa) of
         (Inl e, r) \<Rightarrow> create_gated env (Some rc) '''' u q (wa\<lparr>ow_redis := r\<rparr>)
       | (Inr acquired, r) \<Rightarrow>
           if \<not> acquired then replay_order env rc gate (count_created ''conflict'' (wa\<lparr>ow_redis := r\<rparr>))
           else create_gated env (Some rc) gate u q (wa\<lparr>ow_redis := r\<rparr>))" .
  obtain res ra where nx: "rc_setnx rc gate (Garbage '''') idempotencyTTL (ow_redis wa) = (res, ra)"
    by (cases "rc_setnx rc gate (Garbage '''') idempotencyTTL (ow_redis wa)")
  with red(4,5) [of gate "Garbage ''''" idempotencyTTL "ow_redis wa"] wa
  have ra: "res = Inr (view (ow_redis w) gate = None)"
    "view ra = (if view (ow_redis w) gate = None then (view (ow_redis w))(gate \<mapsto> Garbage '''') else view (ow_redis w))"
    by simp_all
  show ?thesis
  proof (cases "view (ow_redis w) gate = None")
    case True
    with run nx ra assms(3) have c: "create_gated env (Some rc) gate u q (wa\<lparr>ow_redis := ra\<rparr>) = (r, w1)" by simp
    then have u: "o_user_id o' = u" if "r = Inr o'" for o' using that create_gated_user by blast
    have "gate \<noteq> ''''" by (simp add: gate_def orderIDempotencyKey_nonempty)
    with c True ra u show ?thesis
      by (auto simp: create_gated_def count_created_def Let_def red(3,7) split: prod.splits sum.splits)
  next
    case False
    with run nx ra assms(3) have "replay_order env rc gate (count_created ''conflict'' (wa\<lparr>ow_redis := ra\<rparr>)) = (r, w1)"
      by simp
    with False ra show ?thesis
      by (auto simp: replay_order_def count_created_def red(1) split: prod.splits sum.splits option.splits if_splits)
  qed
qed

text \<open>
  The requests in \<open>K\<close> (users and keys) have their gates to themselves, and what a gate holds, if it can be read
  as an order, is an order of its user.
\<close>

definition gate_text :: "nat \<times> string \<Rightarrow> string" where
  "gate_text uk = format_uint (fst uk) @ '':'' @ snd uk"

definition gates_ok :: "order_env \<Rightarrow> (nat \<times> string) set \<Rightarrow> (string \<Rightarrow> payload option) \<Rightarrow> bool" where
  "gates_ok env K view \<longleftrightarrow> (\<forall>(u, key) \<in> K. \<forall>p o'.
     view (orderIDempotencyKey env u key) = Some p \<and> unmarshal_order (en_time_parse env) p = Inr o' \<longrightarrow> o_user_id o' = u)"

text \<open>
  C32: an idempotency key never leads to another user's order.  As long as the hash does not collide on the requests
  that are made, whatever users choose as keys, the orders stored in Redis under a user's gates are that user's, every
  \<open>Create\<close> keeps it so, and an order it answers with, created or replayed, belongs to the user who asked.
\<close>

theorem replays_private:
  assumes "redis_reliable rc view" "inj_on (en_sha256_hex env) (gate_text ` K)" "(u, key) \<in> K" "key \<noteq> ''''"
    and inv: "gates_ok env K (view (ow_redis w))"
    and run: "create env (Some rc) u q key w = (r, w1)"
  shows "gates_ok env K (view (ow_redis w1)) \<and> (\<forall>o'. r = Inr o' \<longrightarrow> o_user_id o' = u)"
proof -
  let ?gate = "orderIDempotencyKey env u key"
  note v = create_gate_view [OF assms(1,4) run]
  have own_gate: "u2 = u" if "(u2, key2) \<in> K" "orderIDempotencyKey env u2 key2 = ?gate" for u2 key2
  proof -
    have "en_sha256_hex env (gate_text (u2, key2)) = en_sha256_hex env (gate_text (u, key))"
      using that(2) by (simp add: orderIDempotencyKey_def gate_text_def)
    from inj_onD [OF assms(2) this imageI imageI] that(1) assms(3) have "gate_text (u2, key2) = gate_text (u, key)"
      by blast
    then have "format_uint u2 @ '':'' @ key2 = format_uint u @ '':'' @ key" by (simp add: gate_text_def)
    with gate_text_inj show ?thesis by blast
  qed
  have "o_user_id o' = u2"
    if K: "(u2, key2) \<in> K" and p: "view (ow_redis w1) (orderIDempotencyKey env u2 key2) = Some p"
      "unmarshal_order (en_time_parse env) p = Inr o'" for u2 key2 p o'
  proof (cases "orderIDempotencyKey env u2 key2 = ?gate")
    case True
    with own_gate [OF K] have u: "u2 = u" by blast
    show ?thesis
    proof (cases "view (ow_redis w) ?gate")
      case None
      with v p True u show ?thesis by (cases r) (auto dest: unmarshal_marshal_user)
    next
      case (Some p0)
      with v p True have "view (ow_redis w) ?gate = Some p" by auto
      with inv p(2) assms(3) u show ?thesis unfolding gates_ok_def by blast
    qed
  next
    case False
    with v p have "view (ow_redis w) (orderIDempotencyKey env u2 key2) = Some p" by auto
    with inv K p(2) show ?thesis unfolding gates_ok_def by blast
  qed
  moreover have "o_user_id o' = u" if r: "r = Inr o'" for o'
  proof (cases "view (ow_redis w) ?gate")
    case None
    with v r show ?thesis by simp
  next
    case (Some p)
    with v r have "unmarshal_order (en_time_parse env) p = Inr o'" by auto
    with Some inv assms(3) show ?thesis unfolding gates_ok_def by blast
  qed
  ultimately show ?thesis unfolding gates_ok_def by blast
qed

text \<open>A user may even try to pass for another by the choice of a key: 7 with key 1:k is not 71 with key k.\<close>

lemma replays_private_witness:
  "case create sample_env (Some mem_redis) 7 sample_request ''1:k'' sample_world of (r, w1) \<Rightarrow>
     case create (sample_env\<lparr>en_uuid := ''u2''\<rparr>) (Some mem_redis) 71 sample_request '':k'' w1 of (r2, w2) \<Rightarrow>
       gates_ok sample_env {(7, ''1:k''), (71, '':k'')} (map_of (ow_redis w2)) \<and> (\<exists>o'. r2 = Inr o' \<and> o_user_id o' = 71)"
proof -
  let ?K = "{(7, ''1:k''), (71, '':k'')} :: (nat \<times> string) set"
  let ?env = "sample_env\<lparr>en_uuid := ''u2''\<rparr>"
  obtain r w1 where c1: "create sample_env (Some mem_redis) 7 sample_request ''1:k'' sample_world = (r, w1)"
    by (cases "create sample_env (Some mem_redis) 7 sample_request ''1:k'' sample_world")
  obtain r2 w2 where c2: "create ?env (Some mem_redis) 71 sample_request '':k'' w1 = (r2, w2)"
    by (cases "create ?env (Some mem_redis) 71 sample_request '':k'' w1")
  have "(case fst (create ?env (Some mem_redis) 71 sample_request '':k''
      (snd (create sample_env (Some mem_redis) 7 sample_request ''1:k'' sample_world))) of Inl e \<Rightarrow> False | Inr o' \<Rightarrow> True)"
    by code_simp
  with c1 c2 obtain o' where o': "r2 = Inr o'" by (auto split: sum.splits)
  have inj: "inj_on (en_sha256_hex sample_env) (gate_text ` ?K)" "inj_on (en_sha256_hex ?env) (gate_text ` ?K)"
    by (simp_all add: sample_env_def inj_on_def)
  have same: "gates_ok ?env ?K v = gates_ok sample_env ?K v" for v
    by (simp add: gates_ok_def orderIDempotencyKey_def)
  have "gates_ok sample_env ?K (map_of (ow_redis sample_world))" by (simp add: gates_ok_def sample_world_def)
  from replays_private [OF mem_redis_reliable inj(1) _ _ this c1] have "gates_ok ?env ?K (map_of (ow_redis w1))"
    by (simp add: same)
  from replays_private [OF mem_redis_reliable inj(2) _ _ this c2] o' c1 c2 show ?thesis by (simp add: same)
qed

subsection \<open>A commit whose reply is lost\<close>

text \<open>The run of \<open>createOrder\<close> when the database takes everything: the order and its event are written.\<close>

lemma create_order_runs:
  assumes "en_validate env u = Inr True" "check_order (new_order (en_now env) (order_of_request u q) d) = None"
    and "created_event env (new_order (en_now env) (order_of_request u q) d) = Inr e" "\<not> event_id_used (en_uuid env) (outbox d)"
  shows "create_order env u q \<lparr>db = d, sched = [Runs, Runs, Runs, Lost f], wire = w\<rparr> =
      (Inl (fault_error f), \<lparr>db = (insert_order (new_order (en_now env) (order_of_request u q) d) d)\<lparr>outbox := insert_row e (outbox d)\<rparr>,
         sched = [], wire = w\<rparr>)"
    and "create_order env u q \<lparr>db = d, sched = [], wire = w\<rparr> =
      (Inr (new_order (en_now env) (order_of_request u q) d),
       \<lparr>db = (insert_order (new_order (en_now env) (order_of_request u q) d) d)\<lparr>outbox := insert_row e (outbox d)\<rparr>,
         sched = [], wire = w\<rparr>)"
proof -
  let ?o = "new_order (en_now env) (order_of_request u q) d"
  have row: "create_order_row (en_now env) (order_of_request u q) s = (Inr ?o, s\<lparr>db := insert_order ?o d\<rparr>)"
    if "sched s = [] \<and> db s = d" for s :: "(order_db, 'a) session"
    using that assms(2) by (simp add: create_order_row_def stmt_def next_reply_def insert_order_def new_order_def Let_def)
  have row2: "create_order_row (en_now env) (order_of_request u q) s = (Inr ?o, s\<lparr>db := insert_order ?o d, sched := rs\<rparr>)"
    if "sched s = Runs # rs \<and> db s = d" for s :: "(order_db, 'a) session" and rs
    using that assms(2) by (simp add: create_order_row_def stmt_def next_reply_def insert_order_def new_order_def Let_def)
  have ev: "ob_event_id e = en_uuid env" using assms(3) by (auto simp: created_event_def bind_err_Inr outbox_row_def)
  show "create_order env u q \<lparr>db = d, sched = [Runs, Runs, Runs, Lost f], wire = w\<rparr> =
      (Inl (fault_error f), \<lparr>db = (insert_order ?o d)\<lparr>outbox := insert_row e (outbox d)\<rparr>, sched = [], wire = w\<rparr>)"
    using assms ev
    by (simp add: create_order_def create_order_txn_def transaction_def next_reply_def bind_tx_def row2 lift_err_def
        outbox_insert_def stmt_def event_id_used_def insert_row_def ret_def Let_def)
  show "create_order env u q \<lparr>db = d, sched = [], wire = w\<rparr> =
      (Inr ?o, \<lparr>db = (insert_order ?o d)\<lparr>outbox := insert_row e (outbox d)\<rparr>, sched = [], wire = w\<rparr>)"
    using assms ev
    by (simp add: create_order_def create_order_txn_def transaction_def next_reply_def bind_tx_def row lift_err_def
        outbox_insert_def stmt_def event_id_used_def insert_row_def ret_def Let_def)
qed

text \<open>
  C34: an idempotency key does not cover a commit whose reply is lost.  When the database has committed the order but
  the connection is lost before its reply, \<open>Create\<close> answers with an error and frees the gate; the client that repeats the
  request with the same key, as it should, gets a second order for it.
\<close>

theorem lost_commit_duplicates:
  assumes rc: "redis_reliable rc view" and key: "key \<noteq> ''''" "view (ow_redis w) (orderIDempotencyKey env u key) = None"
    and s: "ow_session w = \<lparr>db = d, sched = [Runs, Runs, Runs, Lost f], wire = ws\<rparr>"
    and ok: "en_validate env u = Inr True" "check_order (new_order (en_now env) (order_of_request u q) d) = None"
      "created_event env (new_order (en_now env) (order_of_request u q) d) = Inr e" "\<not> event_id_used (en_uuid env) (outbox d)"
    and first: "create env (Some rc) u q key w = (r1, w1)"
    and again: "en_sha256_hex env2 = en_sha256_hex env" "en_validate env2 u = Inr True" "created_event env2 o2 = Inr e2"
      "\<not> event_id_used (en_uuid env2) (insert_row e (outbox d))"
      "o2 = new_order (en_now env2) (order_of_request u q) (db (ow_session w1))"
    and second: "create env2 (Some rc) u q key w1 = (r2, w2)"
  shows "(\<exists>x. r1 = Inl x) \<and> r2 = Inr o2 \<and>
    orders (biz (db (ow_session w2))) = orders (biz d) @ [new_order (en_now env) (order_of_request u q) d, o2]"
proof -
  let ?gate = "orderIDempotencyKey env u key" and ?o1 = "new_order (en_now env) (order_of_request u q) d"
  let ?d1 = "(insert_order ?o1 d)\<lparr>outbox := insert_row e (outbox d)\<rparr>"
  have gate2: "orderIDempotencyKey env2 u key = ?gate" using again(1) by (simp add: orderIDempotencyKey_def)
  have gated: "create_gated en (Some rc) ?gate u q wa = (r, wb) \<Longrightarrow> create_order en u q (ow_session wa) = (res, sb) \<Longrightarrow>
      r = res \<and> ow_session wb = sb" for en wa wb r res sb
    by (auto simp: create_gated_def count_created_def Let_def split: prod.splits sum.splits if_splits)
  from create_with_key [OF rc key(1), of w env u q] key(2) first obtain wa where
    wa: "ow_session wa = ow_session w" "create_gated env (Some rc) ?gate u q wa = (r1, w1)" by metis
  have "create_order env u q (ow_session wa) = (Inl (fault_error f), \<lparr>db = ?d1, sched = [], wire = ws\<rparr>)"
    unfolding wa(1) s by (rule create_order_runs(1) [OF ok])
  from gated [OF wa(2) this] have r1: "r1 = Inl (fault_error f)" and s1: "ow_session w1 = \<lparr>db = ?d1, sched = [], wire = ws\<rparr>"
    by auto
  from create_gate_view [OF rc key(1) first] key(2) r1 have free: "view (ow_redis w1) ?gate = None" by simp
  from create_with_key [OF rc key(1), of w1 env2 u q] free gate2 second obtain wc where
    wc: "ow_session wc = ow_session w1" "create_gated env2 (Some rc) ?gate u q wc = (r2, w2)" by metis
  have o2: "o2 = new_order (en_now env2) (order_of_request u q) ?d1" using again(5) s1 by simp
  have "check_order o2 = None"
    using ok(2) unfolding o2 by (simp add: new_order_def check_order_def create_defaults_def order_of_request_def split: if_splits)
  with create_order_runs(2) [OF again(2), of q ?d1 e2 ws] again(3,4) o2
  have "create_order env2 u q (ow_session wc) =
      (Inr o2, \<lparr>db = (insert_order o2 ?d1)\<lparr>outbox := insert_row e2 (outbox ?d1)\<rparr>, sched = [], wire = ws\<rparr>)"
    unfolding wc(1) s1 by simp
  from gated [OF wc(2) this] r1 show ?thesis by simp
qed

lemma lost_commit_duplicates_witness:
  "case create sample_env (Some mem_redis) 7 sample_request ''k1''
      (sample_world\<lparr>ow_session := \<lparr>db = empty_order_db, sched = [Runs, Runs, Runs, Lost (ConnFault ''bad connection'')], wire = []\<rparr>\<rparr>) of
     (r1, w1) \<Rightarrow> case create (sample_env\<lparr>en_uuid := ''u2''\<rparr>) (Some mem_redis) 7 sample_request ''k1'' w1 of
       (r2, w2) \<Rightarrow> (\<exists>x. r1 = Inl x) \<and> length (orders (biz (db (ow_session w2)))) = 2"
proof -
  let ?w = "sample_world\<lparr>ow_session := \<lparr>db = empty_order_db, sched = [Runs, Runs, Runs, Lost (ConnFault ''bad connection'')], wire = []\<rparr>\<rparr>"
  let ?env = "sample_env\<lparr>en_uuid := ''u2''\<rparr>"
  obtain r1 w1 where c1: "create sample_env (Some mem_redis) 7 sample_request ''k1'' ?w = (r1, w1)"
    by (cases "create sample_env (Some mem_redis) 7 sample_request ''k1'' ?w")
  obtain r2 w2 where c2: "create ?env (Some mem_redis) 7 sample_request ''k1'' w1 = (r2, w2)"
    by (cases "create ?env (Some mem_redis) 7 sample_request ''k1'' w1")
  let ?o1 = "new_order (en_now sample_env) (order_of_request 7 sample_request) empty_order_db"
  let ?o2 = "new_order (en_now ?env) (order_of_request 7 sample_request) (db (ow_session w1))"
  have time: "rfc3339 ''2026-01-31T12:30:05Z''" by code_simp
  have event: "\<exists>e. created_event en o' = Inr e \<and> ob_event_id e = en_uuid en"
    if "en_now_text en = ''2026-01-31T12:30:05Z''" for en o'
    using that time by (simp add: created_event_def marshal_envelope_def bind_err_def outbox_row_def)
  obtain e where e: "created_event sample_env ?o1 = Inr e" "ob_event_id e = ''u1''"
    using event [of sample_env ?o1] by (auto simp: sample_env_def)
  obtain e2 where e2: "created_event ?env ?o2 = Inr e2"
    using event [of ?env ?o2] by (auto simp: sample_env_def)
  have key: "''k1'' \<noteq> ''''" "map_of (ow_redis ?w) (orderIDempotencyKey sample_env 7 ''k1'') = None"
    by (simp_all add: sample_world_def)
  have s: "ow_session ?w = \<lparr>db = empty_order_db, sched = [Runs, Runs, Runs, Lost (ConnFault ''bad connection'')], wire = []\<rparr>" by simp
  have row: "check_order ?o1 = None"
    by (simp add: check_order_def new_order_def create_defaults_def order_of_request_def sample_request_def in_int32_def)
  have fresh: "\<not> event_id_used (en_uuid sample_env) (outbox empty_order_db)"
    "\<not> event_id_used (en_uuid ?env) (insert_row e (outbox empty_order_db))"
    using e(2) by (simp_all add: event_id_used_def empty_order_db_def insert_row_def sample_env_def)
  have valid: "en_validate sample_env 7 = Inr True" "en_validate ?env 7 = Inr True" "en_sha256_hex ?env = en_sha256_hex sample_env"
    by (simp_all add: sample_env_def)
  from lost_commit_duplicates [OF mem_redis_reliable key s valid(1) row e(1) fresh(1) c1 valid(3,2) e2 fresh(2) refl c2] c1 c2
  show ?thesis by (simp add: empty_order_db_def)
qed

end
