(* ===== verification/Cache.thy ===== *)
theory Cache
  imports RedisClient
begin

text \<open>
  \<open>common/xcache/cache.go\<close>: the cache-aside cache.  The loader is a function of some state (the
  database session of its caller), the Redis server a \<open>redis_client\<close>.  \<open>singleflight\<close> lets the callers of
  one key that are waiting share one load; a call here is the one that loads.

  The interface between the cache and its users is the locale \<open>cached\<close>: what the loader
  must do for the cache to be transparent.  What Redis has to do is little (\<open>redis_sound\<close>): it may
  fail, forget keys or lose writes at any time, but does not make values up.
\<close>

subsection \<open>The cache\<close>

definition negativeMarker :: payload where "negativeMarker = Garbage ''__negative__''"

record 'r cache =
  cc_redis :: "'r redis_client option"
  cc_prefix :: string
  cc_pos_ttl :: int
  cc_neg_ttl :: int

definition new_cache :: "'r redis_client option \<Rightarrow> string \<Rightarrow> int \<Rightarrow> int \<Rightarrow> 'r cache" where
  "new_cache rdb prefix pos_ttl neg_ttl =
     \<lparr>cc_redis = rdb, cc_prefix = prefix, cc_pos_ttl = pos_ttl, cc_neg_ttl = neg_ttl\<rparr>"

definition cache_key :: "'r cache \<Rightarrow> string \<Rightarrow> string" where
  "cache_key c k = cc_prefix c @ k"

text \<open>The function given to \<open>singleflight.Do\<close>: load, and store the value or the negative marker.\<close>

definition load_and_store ::
  "'r redis_client \<Rightarrow> 'r cache \<Rightarrow> string \<Rightarrow> ('v \<Rightarrow> go_error + payload) \<Rightarrow>
   ('s \<Rightarrow> (go_error + 'v) \<times> 's) \<Rightarrow> 'r \<Rightarrow> 's \<Rightarrow> (go_error + 'v) \<times> 'r \<times> 's" where
  "load_and_store rc c full marshal loader r s =
     (case loader s of
        (Inl lerr, s1) \<Rightarrow>
          if errors_is lerr ErrMiss
          then (Inl ErrMiss, snd (rc_set rc full negativeMarker (cc_neg_ttl c) r), s1)
          else (Inl lerr, r, s1)
      | (Inr v, s1) \<Rightarrow>
          (case marshal v of
             Inr b \<Rightarrow> (Inr v, snd (rc_set rc full b (cc_pos_ttl c) r), s1)
           | Inl merr \<Rightarrow> (Inr v, r, s1)))"

definition get_or_load ::
  "'r cache option \<Rightarrow> string \<Rightarrow> ('v \<Rightarrow> go_error + payload) \<Rightarrow> (payload \<Rightarrow> go_error + 'v) \<Rightarrow>
   ('s \<Rightarrow> (go_error + 'v) \<times> 's) \<Rightarrow> 'r \<Rightarrow> 's \<Rightarrow> (go_error + 'v) \<times> 'r \<times> 's" where
  "get_or_load c key marshal unmarshal loader r s =
     (case c of
        None \<Rightarrow> (case loader s of (res, s1) \<Rightarrow> (res, r, s1))
      | Some cc \<Rightarrow>
          (case cc_redis cc of
             None \<Rightarrow> (case loader s of (res, s1) \<Rightarrow> (res, r, s1))
           | Some rc \<Rightarrow>
               let full = cache_key cc key in
               (case rc_get rc full r of
                  (Inl err, r1) \<Rightarrow> load_and_store rc cc full marshal loader r1 s
                | (Inr val, r1) \<Rightarrow>
                    if val = negativeMarker then (Inl ErrMiss, r1, s)
                    else (case unmarshal val of
                            Inr v \<Rightarrow> (Inr v, r1, s)
                          | Inl uerr \<Rightarrow>
                              load_and_store rc cc full marshal loader (snd (rc_del rc [full] r1)) s))))"

definition invalidate :: "'r cache option \<Rightarrow> string list \<Rightarrow> 'r \<Rightarrow> 'r" where
  "invalidate c keys r =
     (case c of
        None \<Rightarrow> r
      | Some cc \<Rightarrow>
          (case cc_redis cc of
             None \<Rightarrow> r
           | Some rc \<Rightarrow> if keys = [] then r else snd (rc_del rc (map (cache_key cc) keys) r)))"

subsection \<open>What is asked of Redis\<close>

text \<open>
  A read returns what is stored or fails; a write stores the value or fails; a deletion removes the keys or
  fails; and between any two commands keys may expire or be evicted.
\<close>

definition redis_sound :: "'r redis_client \<Rightarrow> ('r \<Rightarrow> string \<Rightarrow> payload option) \<Rightarrow> bool" where
  "redis_sound rc view \<longleftrightarrow>
     (\<forall>k r. view (snd (rc_get rc k r)) \<subseteq>\<^sub>m view r \<and> (\<forall>v. fst (rc_get rc k r) = Inr v \<longrightarrow> view r k = Some v)) \<and>
     (\<forall>k v t r x y. view (snd (rc_set rc k v t r)) x = Some y \<longrightarrow> view r x = Some y \<or> x = k \<and> y = v) \<and>
     (\<forall>ks r. view (snd (rc_del rc ks r)) \<subseteq>\<^sub>m view r)"

lemma redis_sound_get: "redis_sound rc view \<Longrightarrow> rc_get rc k r = (res, r1) \<Longrightarrow>
    view r1 \<subseteq>\<^sub>m view r \<and> (\<forall>v. res = Inr v \<longrightarrow> view r k = Some v)"
  unfolding redis_sound_def by (metis fst_conv snd_conv)

lemma redis_sound_set: "redis_sound rc view \<Longrightarrow> view (snd (rc_set rc k v t r)) x = Some y \<Longrightarrow>
    view r x = Some y \<or> x = k \<and> y = v"
  unfolding redis_sound_def by blast

lemma redis_sound_del: "redis_sound rc view \<Longrightarrow> view (snd (rc_del rc ks r)) \<subseteq>\<^sub>m view r"
  unfolding redis_sound_def by blast

lemma redis_reliable_sound: "redis_reliable rc view \<Longrightarrow> redis_sound rc view"
  unfolding redis_sound_def
  by (auto simp: redis_reliableD map_le_def split: option.splits if_splits)

subsection \<open>Transparency\<close>

text \<open>What the cache holds under the keys of the data is what the data say.\<close>

definition coherent ::
  "('d \<Rightarrow> 'i \<Rightarrow> 'v option) \<Rightarrow> ('v \<Rightarrow> go_error + payload) \<Rightarrow> ('i \<Rightarrow> string) \<Rightarrow>
   (string \<Rightarrow> payload option) \<Rightarrow> 'r cache \<Rightarrow> 'd \<Rightarrow> bool" where
  "coherent truth marshal key m c d \<longleftrightarrow> (\<forall>i b. m (cache_key c (key i)) = Some b \<longrightarrow>
     (case truth d i of None \<Rightarrow> b = negativeMarker | Some v \<Rightarrow> marshal v = Inr b))"

definition values_true ::
  "('d \<Rightarrow> 'i \<Rightarrow> 'v option) \<Rightarrow> (payload \<Rightarrow> go_error + 'v) \<Rightarrow> ('i \<Rightarrow> string) \<Rightarrow>
   (string \<Rightarrow> payload option) \<Rightarrow> 'r cache \<Rightarrow> 'd \<Rightarrow> bool" where
  "values_true truth unmarshal key m c d \<longleftrightarrow> (\<forall>i b v. m (cache_key c (key i)) = Some b \<and> b \<noteq> negativeMarker \<and> unmarshal b = Inr v \<longrightarrow>
     truth d i = Some v)"

text \<open>
  \<open>truth s i\<close> is what the data say about key \<open>i\<close>: a value, or \<open>None\<close> for "does not exist".  The
  loader reports it without changing the data, or, in a \<open>troubled\<close> state, fails with another error
  than \<open>ErrMiss\<close>; the codec reads back what it wrote and never writes the negative marker; \<open>key\<close>
  names keys apart.
\<close>

locale cached =
  fixes truth :: "'d \<Rightarrow> 'i \<Rightarrow> 'v option"
    and data :: "'s \<Rightarrow> 'd"
    and troubled :: "'s \<Rightarrow> bool"
    and load :: "'i \<Rightarrow> 's \<Rightarrow> (go_error + 'v) \<times> 's"
    and marshal :: "'v \<Rightarrow> go_error + payload"
    and unmarshal :: "payload \<Rightarrow> go_error + 'v"
    and key :: "'i \<Rightarrow> string"
  assumes load_truth: "load i s = (res, s1) \<Longrightarrow> data s1 = data s \<and>
      (case truth (data s) i of
         Some v \<Rightarrow> res = Inr v \<or> troubled s \<and> (\<exists>e. res = Inl e \<and> \<not> errors_is e ErrMiss)
       | None \<Rightarrow> res = Inl ErrMiss \<or> troubled s \<and> (\<exists>e. res = Inl e \<and> \<not> errors_is e ErrMiss))"
    and codec: "marshal v = Inr b \<Longrightarrow> unmarshal b = Inr v \<and> b \<noteq> negativeMarker"
    and key_inj: "key i = key j \<Longrightarrow> i = j"
begin

lemma coherent_le: "coherent truth marshal key m c d \<Longrightarrow> m' \<subseteq>\<^sub>m m \<Longrightarrow> coherent truth marshal key m' c d"
  unfolding coherent_def map_le_def by (metis domI)

lemma coherent_set:
  assumes "coherent truth marshal key m c d" "\<And>x y. m' x = Some y \<Longrightarrow> m x = Some y \<or> x = cache_key c (key i) \<and> y = b"
    and "case truth d i of None \<Rightarrow> b = negativeMarker | Some v \<Rightarrow> marshal v = Inr b"
  shows "coherent truth marshal key m' c d"
  unfolding coherent_def
proof (intro allI impI)
  fix j y assume "m' (cache_key c (key j)) = Some y"
  with assms(2) consider "m (cache_key c (key j)) = Some y" | "cache_key c (key j) = cache_key c (key i)" "y = b"
    by blast
  then show "case truth d j of None \<Rightarrow> y = negativeMarker | Some v \<Rightarrow> marshal v = Inr y"
  proof cases
    case 1
    with assms(1) show ?thesis unfolding coherent_def by blast
  next
    case 2
    then have "key j = key i" by (simp add: cache_key_def)
    with key_inj have "j = i" by blast
    with 2 assms(3) show ?thesis by (auto split: option.splits)
  qed
qed

lemma load_and_store_coherent:
  assumes rs: "redis_sound rc view" and co: "coherent truth marshal key (view r) c (data s)"
    and run: "load_and_store rc c (cache_key c (key i)) marshal (load i) r s = (res, r1, s1)"
  shows "coherent truth marshal key (view r1) c (data s) \<and> data s1 = data s \<and>
    (res = (case truth (data s) i of Some v \<Rightarrow> Inr v | None \<Rightarrow> Inl ErrMiss) \<or> troubled s \<and> (\<exists>e. res = Inl e \<and> \<not> errors_is e ErrMiss))"
proof -
  obtain l s2 where l: "load i s = (l, s2)" by (cases "load i s")
  note tr = load_truth [OF l]
  show ?thesis
  proof (cases l)
    case (Inl e)
    show ?thesis
    proof (cases "errors_is e ErrMiss")
      case True
      with tr Inl have "truth (data s) i = None" by (auto split: option.splits)
      moreover have "coherent truth marshal key (view (snd (rc_set rc (cache_key c (key i)) negativeMarker (cc_neg_ttl c) r))) c (data s)"
        by (rule coherent_set [OF co redis_sound_set [OF rs], where i = i]) (use calculation in auto)
      ultimately show ?thesis using run l Inl True tr by (auto simp: load_and_store_def)
    next
      case False
      moreover from this Inl tr have "troubled s" by (auto split: option.splits)
      ultimately show ?thesis using run l Inl tr co by (auto simp: load_and_store_def)
    qed
  next
    case (Inr v)
    with tr have t: "truth (data s) i = Some v" by (auto split: option.splits)
    show ?thesis
    proof (cases "marshal v")
      case (Inl m)
      with run l Inr tr co t show ?thesis by (auto simp: load_and_store_def)
    next
      case b: (Inr b)
      have "coherent truth marshal key (view (snd (rc_set rc (cache_key c (key i)) b (cc_pos_ttl c) r))) c (data s)"
        by (rule coherent_set [OF co redis_sound_set [OF rs], where i = i]) (use t b in auto)
      with run l Inr tr t b show ?thesis by (auto simp: load_and_store_def)
    qed
  qed
qed

text \<open>
  While the cache is coherent with the data, a read through it answers as the data do, or with
  an error that is not "does not exist", and leaves the cache coherent.
\<close>

lemma transparent:
  assumes rs: "redis_sound rc view" and c: "cc_redis c = Some rc" and co: "coherent truth marshal key (view r) c (data s)"
    and run: "get_or_load (Some c) (key i) marshal unmarshal (load i) r s = (res, r1, s1)"
  shows "coherent truth marshal key (view r1) c (data s) \<and> data s1 = data s \<and>
    (res = (case truth (data s) i of Some v \<Rightarrow> Inr v | None \<Rightarrow> Inl ErrMiss) \<or> troubled s \<and> (\<exists>e. res = Inl e \<and> \<not> errors_is e ErrMiss))"
proof -
  let ?full = "cache_key c (key i)"
  obtain g r2 where g: "rc_get rc ?full r = (g, r2)" by (cases "rc_get rc ?full r")
  note got = redis_sound_get [OF rs g]
  then have co2: "coherent truth marshal key (view r2) c (data s)" using coherent_le [OF co] by blast
  show ?thesis
  proof (cases g)
    case (Inl e)
    with run c g have "load_and_store rc c ?full marshal (load i) r2 s = (res, r1, s1)"
      by (simp add: get_or_load_def Let_def)
    from load_and_store_coherent [OF rs co2 this] show ?thesis .
  next
    case (Inr b)
    with got co have b: "case truth (data s) i of None \<Rightarrow> b = negativeMarker | Some v \<Rightarrow> marshal v = Inr b"
      unfolding coherent_def by blast
    show ?thesis
    proof (cases "truth (data s) i")
      case None
      with b run c g Inr co2 show ?thesis by (auto simp: get_or_load_def Let_def)
    next
      case (Some v)
      with b codec have "unmarshal b = Inr v" "b \<noteq> negativeMarker" by auto
      with Some run c g Inr co2 show ?thesis by (auto simp: get_or_load_def Let_def)
    qed
  qed
qed

text \<open>
  The weaker contract: the values in the cache are those of the data, while a negative entry may be out of date.
  Reads keep it, adding data keeps it, and a value that is answered is the one of the data.
\<close>

lemma values_true_le: "values_true truth unmarshal key m c d \<Longrightarrow> m' \<subseteq>\<^sub>m m \<Longrightarrow> values_true truth unmarshal key m' c d"
  unfolding values_true_def map_le_def by (metis domI)

lemma values_true_grow:
  "values_true truth unmarshal key m c d \<Longrightarrow> (\<And>i v. truth d i = Some v \<Longrightarrow> truth d' i = Some v) \<Longrightarrow>
   values_true truth unmarshal key m c d'"
  unfolding values_true_def by blast

lemma values_true_set:
  assumes "values_true truth unmarshal key m c d" "\<And>x y. m' x = Some y \<Longrightarrow> m x = Some y \<or> x = cache_key c (key i) \<and> y = b"
    and "b = negativeMarker \<or> (\<exists>v. truth d i = Some v \<and> marshal v = Inr b)"
  shows "values_true truth unmarshal key m' c d"
  unfolding values_true_def
proof (intro allI impI)
  fix j y v assume a: "m' (cache_key c (key j)) = Some y \<and> y \<noteq> negativeMarker \<and> unmarshal y = Inr v"
  with assms(2) consider "m (cache_key c (key j)) = Some y" | "cache_key c (key j) = cache_key c (key i)" "y = b"
    by blast
  then show "truth d j = Some v"
  proof cases
    case 1
    with a assms(1) show ?thesis unfolding values_true_def by blast
  next
    case 2
    then have "j = i" using key_inj by (simp add: cache_key_def)
    moreover from a 2 assms(3) obtain v' where "truth d i = Some v'" "marshal v' = Inr y" by blast
    ultimately show ?thesis using a codec by fastforce
  qed
qed

lemma load_and_store_true:
  assumes rs: "redis_sound rc view" and inv: "values_true truth unmarshal key (view r) c (data s)"
    and run: "load_and_store rc c (cache_key c (key i)) marshal (load i) r s = (res, r1, s1)"
  shows "values_true truth unmarshal key (view r1) c (data s) \<and> data s1 = data s \<and> (\<forall>v. res = Inr v \<longrightarrow> truth (data s) i = Some v)"
proof -
  obtain l s2 where l: "load i s = (l, s2)" by (cases "load i s")
  note tr = load_truth [OF l]
  show ?thesis
  proof (cases l)
    case (Inl e)
    have "values_true truth unmarshal key (view (snd (rc_set rc (cache_key c (key i)) negativeMarker (cc_neg_ttl c) r))) c (data s)"
      by (rule values_true_set [OF inv redis_sound_set [OF rs], where i = i]) auto
    with run l Inl tr inv show ?thesis by (auto simp: load_and_store_def split: if_splits)
  next
    case (Inr v)
    with tr have t: "truth (data s) i = Some v" by (auto split: option.splits)
    have "values_true truth unmarshal key (view (snd (rc_set rc (cache_key c (key i)) b (cc_pos_ttl c) r))) c (data s)"
      if "marshal v = Inr b" for b
      by (rule values_true_set [OF inv redis_sound_set [OF rs], where i = i]) (use t that in auto)
    with run l Inr tr t inv show ?thesis by (auto simp: load_and_store_def split: sum.splits)
  qed
qed

lemma get_or_load_true:
  assumes rs: "redis_sound rc view" and c: "cc_redis c = Some rc" and inv: "values_true truth unmarshal key (view r) c (data s)"
    and run: "get_or_load (Some c) (key i) marshal unmarshal (load i) r s = (res, r1, s1)"
  shows "values_true truth unmarshal key (view r1) c (data s) \<and> data s1 = data s \<and> (\<forall>v. res = Inr v \<longrightarrow> truth (data s) i = Some v)"
proof -
  let ?full = "cache_key c (key i)"
  obtain g r2 where g: "rc_get rc ?full r = (g, r2)" by (cases "rc_get rc ?full r")
  note got = redis_sound_get [OF rs g]
  then have inv2: "values_true truth unmarshal key (view r2) c (data s)" using values_true_le [OF inv] by blast
  show ?thesis
  proof (cases g)
    case (Inl e)
    with run c g have "load_and_store rc c ?full marshal (load i) r2 s = (res, r1, s1)"
      by (simp add: get_or_load_def Let_def)
    from load_and_store_true [OF rs inv2 this] show ?thesis .
  next
    case (Inr b)
    show ?thesis
    proof (cases "b \<noteq> negativeMarker \<and> (\<exists>e. unmarshal b = Inl e)")
      case True
      with run c g Inr have "load_and_store rc c ?full marshal (load i) (snd (rc_del rc [?full] r2)) s = (res, r1, s1)"
        by (auto simp: get_or_load_def Let_def)
      from load_and_store_true [OF rs values_true_le [OF inv2 redis_sound_del [OF rs]] this] show ?thesis .
    next
      case False
      have "view r ?full = Some b" using got Inr by blast
      with inv have "truth (data s) i = Some v" if "b \<noteq> negativeMarker" "unmarshal b = Inr v" for v
        using that unfolding values_true_def by blast
      with False run c g Inr inv2 show ?thesis by (cases "unmarshal b") (auto simp: get_or_load_def Let_def split: if_splits)
    qed
  qed
qed

text \<open>A change of the data of some keys keeps the cache coherent when these keys are not in it.\<close>

lemma coherent_change:
  assumes "coherent truth marshal key m c d" "\<And>i. truth d' i \<noteq> truth d i \<Longrightarrow> m (cache_key c (key i)) = None"
  shows "coherent truth marshal key m c d'"
  using assms unfolding coherent_def by (metis option.distinct(1))

end

lemma invalidate_removes:
  assumes "redis_reliable rc view" "cc_redis c = Some rc" "k \<in> set keys"
  shows "view (invalidate (Some c) keys r) (cache_key c k) = None"
  using assms by (auto simp: invalidate_def redis_reliableD(7) split: if_splits)

end
