(* ===== verification/UserRpc.thy ===== *)
theory UserRpc
  imports Outbox Cache HttpCommon
begin

text \<open>
  The user service (\<open>service/user/rpc\<close>): its repository and the four gRPC methods.  \<open>CreateUser\<close> writes
  the user and the \<open>user.registered\<close> event in one transaction; \<open>ValidateUser\<close> reads through the cache;
  bcrypt is a parameter.
\<close>

subsection \<open>Tables\<close>

record user =
  u_id :: nat
  u_created_at :: nat
  u_updated_at :: nat
  u_deleted_at :: "nat option"
  u_username :: string
  u_password :: string
  u_email :: string

record user_tables =
  users :: "user list"
  next_user_id :: nat

type_synonym user_db = "user_tables svc_db"

text \<open>
  What a request takes from outside: the clock, a fresh UUID, the collation of the columns, and bcrypt:
  the hash of a password (it rejects passwords over 72 bytes) and the comparison.
\<close>

record user_env =
  ue_now :: nat
  ue_now_text :: string
  ue_uuid :: string
  ue_collation :: "string \<Rightarrow> string"
  ue_hash :: "string \<Rightarrow> go_error + string"
  ue_hash_ok :: "string \<Rightarrow> string \<Rightarrow> bool"

definition user_live :: "user \<Rightarrow> bool" where
  "user_live u \<longleftrightarrow> u_deleted_at u = None"

subsection \<open>Repository\<close>

definition find_by_id :: "nat \<Rightarrow> (user_db, 'm, user) tx" where
  "find_by_id i = query (\<lambda>d. first_row (\<lambda>u. user_live u \<and> u_id u = i) (users (biz d)))"

definition find_by_username :: "(string \<Rightarrow> string) \<Rightarrow> string \<Rightarrow> (user_db, 'm, user) tx" where
  "find_by_username ck name = query (\<lambda>d. first_row (\<lambda>u. user_live u \<and> ck (u_username u) = ck name) (users (biz d)))"

definition find_by_email :: "(string \<Rightarrow> string) \<Rightarrow> string \<Rightarrow> (user_db, 'm, user) tx" where
  "find_by_email ck mail = query (\<lambda>d. first_row (\<lambda>u. user_live u \<and> ck (u_email u) = ck mail) (users (biz d)))"

text \<open>
  \<open>tx.Create(user)\<close>: the columns are \<open>VARCHAR(64)\<close>, \<open>VARCHAR(256)\<close> and \<open>VARCHAR(128)\<close>, with unique
  indexes on username and email that also count deleted rows.
\<close>

definition create_user_row :: "nat \<Rightarrow> (string \<Rightarrow> string) \<Rightarrow> user \<Rightarrow> (user_db, 'm, user) tx" where
  "create_user_row now ck u = stmt (\<lambda>d.
     let row = u\<lparr>u_id := next_user_id (biz d), u_created_at := now, u_updated_at := now\<rparr>
     in if 64 < length (u_username u) \<or> 256 < length (u_password u) \<or> 128 < length (u_email u)
        then (Inl (MySQLError 1406), d)
        else if \<exists>x \<in> set (users (biz d)). ck (u_username x) = ck (u_username u) \<or> ck (u_email x) = ck (u_email u)
        then (Inl ErrDupEntry, d)
        else (Inr row, d\<lparr>biz := \<lparr>users = users (biz d) @ [row], next_user_id = Suc (next_user_id (biz d))\<rparr>\<rparr>))"

subsection \<open>CreateUser\<close>

record create_user_request =
  cu_username :: string
  cu_password :: string
  cu_email :: string

record user_response =
  ur_id :: nat
  ur_name :: string
  ur_email :: string

definition user_of_request :: "create_user_request \<Rightarrow> string \<Rightarrow> user" where
  "user_of_request q hashed = \<lparr>u_id = 0, u_created_at = 0, u_updated_at = 0, u_deleted_at = None,
     u_username = cu_username q, u_password = hashed, u_email = cu_email q\<rparr>"

definition registered_event :: "user_env \<Rightarrow> user \<Rightarrow> go_error + outbox_event" where
  "registered_event env u = bind_err
     (marshal_envelope \<lparr>env_event = UserRegistered, env_version = 1, env_occurred_at = ue_now_text env,
        env_data = marshal_user_registered \<lparr>ur_user_id = u_id u, ur_username = u_username u\<rparr>\<rparr>)
     (\<lambda>p. Inr \<lparr>ob_id = 0, ob_event_id = ue_uuid env, ob_topic = TopicUserEvents,
        ob_event_key = format_uint (u_id u), ob_event_type = UserRegistered, ob_version = 1, ob_payload = p,
        ob_status = OutboxStatusPending, ob_retry_count = 0, ob_last_error = '''',
        ob_created_at = ue_now env, ob_sent_at = None\<rparr>)"

text \<open>A uniqueness check before the insert: \<open>found\<close> is the result of the lookup.\<close>

definition taken_check :: "string \<Rightarrow> string \<Rightarrow> go_error + user \<Rightarrow> (user_db, 'm, unit) tx" where
  "taken_check what failed found = (case found of
       Inr _ \<Rightarrow> throw (GrpcStatus CodeAlreadyExists (what @ '' already exists''))
     | Inl err \<Rightarrow>
         if errors_is err ErrRecordNotFound then ret ()
         else throw (GrpcStatus CodeInternal (failed @ '' failed: '' @ error_text err)))"

text \<open>
  The transaction.  The error of \<open>json.Marshal\<close> is dropped, and MySQL rejects the empty payload that is then
  written, since the column is \<open>JSON\<close>.
\<close>

definition create_user_txn :: "user_env \<Rightarrow> create_user_request \<Rightarrow> string \<Rightarrow> (user_db, 'm, user) tx" where
  "create_user_txn env q hashed =
     transaction_as (\<lambda>_. GrpcStatus CodeInternal ''begin tx failed'') (\<lambda>_. GrpcStatus CodeInternal ''commit tx failed'')
       (bind_tx (try_tx (create_user_row (ue_now env) (ue_collation env) (user_of_request q hashed))) (\<lambda>created.
          case created of
            Inl err \<Rightarrow>
              if errors_as_mysql err \<noteq> None
              then throw (GrpcStatus CodeAlreadyExists ''username or email already exists'')
              else throw (GrpcStatus CodeInternal (''create user failed: '' @ error_text err))
          | Inr u \<Rightarrow>
              (case registered_event env u of
                 Inl _ \<Rightarrow> throw (GrpcStatus CodeInternal ''write outbox failed'')
               | Inr e \<Rightarrow>
                   bind_tx (try_tx (outbox_insert e)) (\<lambda>inserted.
                     case inserted of
                       Inl _ \<Rightarrow> throw (GrpcStatus CodeInternal ''write outbox failed'')
                     | Inr _ \<Rightarrow> ret u))))"

definition create_user :: "user_env \<Rightarrow> create_user_request \<Rightarrow> (user_db, 'm, user_response) tx" where
  "create_user env q =
     bind_tx (try_tx (find_by_username (ue_collation env) (cu_username q))) (\<lambda>r1.
     bind_tx (taken_check ''username'' ''query username'' r1) (\<lambda>_.
     bind_tx (try_tx (find_by_email (ue_collation env) (cu_email q))) (\<lambda>r2.
     bind_tx (taken_check ''email'' ''query email'' r2) (\<lambda>_.
       case ue_hash env (cu_password q) of
         Inl err \<Rightarrow> throw (GrpcStatus CodeInternal (''hash password failed: '' @ error_text err))
       | Inr hashed \<Rightarrow>
           bind_tx (create_user_txn env q hashed) (\<lambda>u.
             ret \<lparr>ur_id = u_id u, ur_name = u_username u, ur_email = u_email u\<rparr>)))))"

subsection \<open>GetUser and Authenticate\<close>

definition get_user :: "nat \<Rightarrow> (user_db, 'm, user_response) tx" where
  "get_user i =
     bind_tx (try_tx (find_by_id i)) (\<lambda>found.
       case found of
         Inl err \<Rightarrow>
           if errors_is err ErrRecordNotFound then throw (GrpcStatus CodeNotFound ''user not found'')
           else throw (GrpcStatus CodeInternal (''get user failed: '' @ error_text err))
       | Inr u \<Rightarrow> ret \<lparr>ur_id = u_id u, ur_name = u_username u, ur_email = u_email u\<rparr>)"

record auth_response =
  ar_exists :: bool
  ar_id :: nat
  ar_username :: string

definition no_auth :: auth_response where
  "no_auth = \<lparr>ar_exists = False, ar_id = 0, ar_username = ''''\<rparr>"

definition authenticate :: "user_env \<Rightarrow> string \<Rightarrow> string \<Rightarrow> (user_db, 'm, auth_response) tx" where
  "authenticate env name password =
     bind_tx (try_tx (find_by_username (ue_collation env) name)) (\<lambda>found.
       case found of
         Inl err \<Rightarrow>
           if errors_is err ErrRecordNotFound then ret no_auth
           else throw (GrpcStatus CodeInternal (''query user failed: '' @ error_text err))
       | Inr u \<Rightarrow>
           if \<not> ue_hash_ok env (u_password u) password then ret no_auth
           else ret \<lparr>ar_exists = True, ar_id = u_id u, ar_username = u_username u\<rparr>)"

subsection \<open>ValidateUser\<close>

record user_summary =
  us_exists :: bool
  us_username :: string

definition marshal_summary :: "user_summary \<Rightarrow> go_error + payload" where
  "marshal_summary s = Inr (Doc (JObj ((''exists'', JBool (us_exists s)) #
     (if us_username s = '''' then [] else [(''username'', JStr (us_username s))]))))"

fun dec_bool :: "json option \<Rightarrow> go_error + bool" where
  "dec_bool None = Inr False"
| "dec_bool (Some JNull) = Inr False"
| "dec_bool (Some (JBool b)) = Inr b"
| "dec_bool _ = Inl (JsonError ''cannot unmarshal into bool'')"

definition unmarshal_summary :: "payload \<Rightarrow> go_error + user_summary" where
  "unmarshal_summary p = (case p of
       Garbage b \<Rightarrow> Inl (JsonError ''invalid character'')
     | Doc j \<Rightarrow>
         bind_err (dec_object j) (\<lambda>fs.
         bind_err (dec_bool (jfield fs ''exists'')) (\<lambda>e.
         bind_err (dec_string (jfield fs ''username'')) (\<lambda>u.
           Inr \<lparr>us_exists = e, us_username = u\<rparr>))))"

definition load_summary :: "nat \<Rightarrow> (user_db, 'm, user_summary) tx" where
  "load_summary i =
     bind_tx (try_tx (find_by_id i)) (\<lambda>found.
       case found of
         Inl err \<Rightarrow>
           if errors_is err ErrRecordNotFound then throw ErrMiss
           else throw (GrpcStatus CodeInternal (''validate user failed: '' @ error_text err))
       | Inr u \<Rightarrow> ret \<lparr>us_exists = True, us_username = u_username u\<rparr>)"

definition validate_user ::
  "'r cache option \<Rightarrow> nat \<Rightarrow> 'r \<Rightarrow> (user_db, 'm) session \<Rightarrow>
   (go_error + user_summary) \<times> 'r \<times> (user_db, 'm) session" where
  "validate_user c i r s =
     (case get_or_load c (format_uint i) marshal_summary unmarshal_summary (load_summary i) r s of
        (Inl err, r1, s1) \<Rightarrow>
          if errors_is err ErrMiss then (Inr \<lparr>us_exists = False, us_username = ''''\<rparr>, r1, s1)
          else (Inl err, r1, s1)
      | (Inr v, r1, s1) \<Rightarrow> (Inr v, r1, s1))"

end
