(* ===== verification/UserProps.thy ===== *)
theory UserProps
  imports UserRpc
begin

text \<open>
  The properties of the user service: a user and its event are created together, names and mails
  stay unique, a registered user can log in, the answers of \<open>Authenticate\<close> do not tell an unknown
  name from a wrong password, and \<open>ValidateUser\<close> answers as the table does while its cache is coherent.
\<close>

subsection \<open>What CreateUser does\<close>

definition user_created_by ::
  "user_env \<Rightarrow> create_user_request \<Rightarrow> user_db \<Rightarrow> user \<Rightarrow> outbox_event \<Rightarrow> user_db \<Rightarrow> bool" where
  "user_created_by env q d u e d' \<longleftrightarrow>
     (\<exists>hashed. ue_hash env (cu_password q) = Inr hashed \<and>
        u = (user_of_request q hashed)\<lparr>u_id := next_user_id (biz d), u_created_at := ue_now env, u_updated_at := ue_now env\<rparr>) \<and>
     (\<forall>x \<in> set (users (biz d)). ue_collation env (u_username x) \<noteq> ue_collation env (u_username u) \<and>
        ue_collation env (u_email x) \<noteq> ue_collation env (u_email u)) \<and>
     registered_event env u = Inr e \<and> \<not> event_id_used (ob_event_id e) (outbox d) \<and>
     d' = d\<lparr>biz := \<lparr>users = users (biz d) @ [u], next_user_id = Suc (next_user_id (biz d))\<rparr>,
            outbox := insert_row e (outbox d)\<rparr>"

definition commit_lost :: "go_error" where "commit_lost = GrpcStatus CodeInternal ''commit tx failed''"

lemma holds_create_user_txn:
  assumes other: "\<And>g m. g = CodeAlreadyExists \<or> g = CodeInternal \<Longrightarrow> Q (Inl (GrpcStatus g m)) d w"
    and hashed: "ue_hash env (cu_password q) = Inr hashed"
    and did: "\<And>u e d'. user_created_by env q d u e d' \<Longrightarrow> Q (Inr u) d' w \<and> Q (Inl commit_lost) d' w"
  shows "holds (create_user_txn env q hashed) d w Q"
proof -
  have did': "Q (Inr u) d' w" "Q (Inl (GrpcStatus CodeInternal ''commit tx failed'')) d' w"
    if "user_created_by env q d u e d'" for u e d'
    using did [OF that] by (simp_all add: commit_lost_def)
  show ?thesis
    unfolding create_user_txn_def create_user_row_def Let_def
    apply (rule holds_transaction_as, simp add: other)
    apply (rule holds_bind, rule holds_try, rule holds_stmt)
     apply (auto intro!: holds_throw simp: other)[1]
    apply (auto simp: other intro!: holds_throw split: sum.splits)
    apply (rule holds_bind, rule holds_try, rule holds_outbox_insert)
      apply (auto simp: other intro!: holds_throw)
     apply (rule holds_ret)
     apply (auto simp: other intro!: did' hashed)
     apply (auto simp: user_created_by_def hashed user_of_request_def)
    done
qed

definition response_of :: "user \<Rightarrow> user_response" where
  "response_of u = \<lparr>ur_id = u_id u, ur_name = u_username u, ur_email = u_email u\<rparr>"

lemma holds_create_user:
  assumes "\<And>g m. g = CodeAlreadyExists \<or> g = CodeInternal \<Longrightarrow> Q (Inl (GrpcStatus g m)) d w"
    and "\<And>u e d'. user_created_by env q d u e d' \<Longrightarrow> Q (Inr (response_of u)) d' w \<and> Q (Inl commit_lost) d' w"
  shows "holds (create_user env q) d w Q"
proof -
  have check: "holds (taken_check what failed r) d w (\<lambda>r d' w'. case r of Inl e \<Rightarrow> Q (Inl e) d' w' | Inr _ \<Rightarrow> P d' w')"
    if "P d w" for what failed r P
    unfolding taken_check_def using that assms(1) by (auto intro!: holds_throw holds_ret split: sum.splits)
  have find: "holds (query f) d w (\<lambda>r d' w'. d' = d \<and> w' = w)" for f :: "user_db \<Rightarrow> go_error + user"
    by (rule holds_query) auto
  show ?thesis
    unfolding create_user_def find_by_username_def find_by_email_def
    apply (rule holds_bind, rule holds_try, rule holds_conseq [OF find], clarsimp)
    apply (rule holds_bind, rule check)
    apply (rule holds_bind, rule holds_try, rule holds_conseq [OF find], clarsimp)
    apply (rule holds_bind, rule check)
    apply (cases "ue_hash env (cu_password q)"; simp)
     apply (rule holds_throw, rule assms(1), simp)
    apply (rule holds_bind, rule holds_create_user_txn)
      apply (auto simp: assms response_of_def [symmetric] intro!: holds_ret)
    done
qed

text \<open>Without faults: the schedule stays empty, and what \<open>CreateUser\<close> answers.\<close>

lemma create_user_calm:
  "sched s = [] \<Longrightarrow> create_user env q s = (r, s1) \<Longrightarrow> sched s1 = []"
  by (auto simp: create_user_def create_user_txn_def transaction_as_def taken_check_def create_user_row_def outbox_insert_def
      find_by_username_def find_by_email_def run_simps Let_def split: sum.splits if_splits prod.splits)

lemma create_user_result:
  assumes "create_user env q s = (r, s1)"
  shows "case r of
      Inl e \<Rightarrow> \<exists>g m. e = GrpcStatus g m \<and> (g = CodeAlreadyExists \<or> g = CodeInternal)
    | Inr resp \<Rightarrow> \<exists>u ev. user_created_by env q (db s) u ev (db s1) \<and> resp = response_of u"
proof -
  have "holds (create_user env q) (db s) (wire s) (\<lambda>r d' w. case r of
      Inl e \<Rightarrow> \<exists>g m. e = GrpcStatus g m \<and> (g = CodeAlreadyExists \<or> g = CodeInternal)
    | Inr resp \<Rightarrow> \<exists>u ev. user_created_by env q (db s) u ev d' \<and> resp = response_of u)"
    by (rule holds_create_user) (auto simp: commit_lost_def)
  from holds_sessionD [OF this assms] show ?thesis by simp
qed

subsection \<open>The table invariant\<close>

definition users_ok :: "(string \<Rightarrow> string) \<Rightarrow> user_db \<Rightarrow> bool" where
  "users_ok ck d \<longleftrightarrow>
     distinct (map u_id (users (biz d))) \<and> (\<forall>u \<in> set (users (biz d)). u_id u < next_user_id (biz d)) \<and>
     distinct (map (\<lambda>u. ck (u_username u)) (users (biz d))) \<and> distinct (map (\<lambda>u. ck (u_email u)) (users (biz d)))"

lemma users_ok_created:
  assumes "users_ok (ue_collation env) d" "user_created_by env q d u e d'"
  shows "users_ok (ue_collation env) d'"
proof -
  from assms(2) have u: "u_id u = next_user_id (biz d)" and
    fresh: "\<forall>x \<in> set (users (biz d)). ue_collation env (u_username x) \<noteq> ue_collation env (u_username u) \<and>
        ue_collation env (u_email x) \<noteq> ue_collation env (u_email u)" and
    d': "biz d' = \<lparr>users = users (biz d) @ [u], next_user_id = Suc (next_user_id (biz d))\<rparr>"
    by (auto simp: user_created_by_def)
  have names: "ue_collation env (u_username u) \<notin> (\<lambda>u. ue_collation env (u_username u)) ` set (users (biz d))"
    "ue_collation env (u_email u) \<notin> (\<lambda>u. ue_collation env (u_email u)) ` set (users (biz d))"
    using fresh by auto
  have "next_user_id (biz d) \<notin> u_id ` set (users (biz d))"
    using assms(1) unfolding users_ok_def by auto
  with names u assms(1) show ?thesis
    unfolding users_ok_def d' by (auto intro: less_SucI)
qed

text \<open>The live row of a key, for the three unique columns.\<close>

lemma user_row_by_id:
  "users_ok ck d \<Longrightarrow> u \<in> set (users (biz d)) \<Longrightarrow> user_live u \<Longrightarrow>
   find (\<lambda>x. user_live x \<and> u_id x = u_id u) (users (biz d)) = Some u"
  unfolding users_ok_def
  by (rule find_unique) (simp, simp, elim conjE, rule distinct_key_eq [where f = u_id], auto)

lemma user_row_by_name:
  "users_ok ck d \<Longrightarrow> u \<in> set (users (biz d)) \<Longrightarrow> user_live u \<Longrightarrow> ck name = ck (u_username u) \<Longrightarrow>
   find (\<lambda>x. user_live x \<and> ck (u_username x) = ck name) (users (biz d)) = Some u"
  unfolding users_ok_def
  by (rule find_unique) (simp, simp, elim conjE, rule distinct_key_eq [where f = "\<lambda>u. ck (u_username u)"], auto)

subsection \<open>The cache of ValidateUser\<close>

definition summary_truth :: "user_db \<Rightarrow> nat \<Rightarrow> user_summary option" where
  "summary_truth d i = map_option (\<lambda>u. \<lparr>us_exists = True, us_username = u_username u\<rparr>)
     (find (\<lambda>u. user_live u \<and> u_id u = i) (users (biz d)))"

lemma load_summary_truth:
  assumes "load_summary i s = (res, s1)"
  shows "db s1 = db s \<and>
    (case summary_truth (db s) i of
       Some v \<Rightarrow> res = Inr v \<or> sched s \<noteq> [] \<and> (\<exists>e. res = Inl e \<and> \<not> errors_is e ErrMiss)
     | None \<Rightarrow> res = Inl ErrMiss \<or> sched s \<noteq> [] \<and> (\<exists>e. res = Inl e \<and> \<not> errors_is e ErrMiss))"
proof -
  have calm: "res = (case summary_truth (db s) i of Some v \<Rightarrow> Inr v | None \<Rightarrow> Inl ErrMiss)" if "sched s = []"
    using assms that
    by (auto simp: load_summary_def find_by_id_def run_simps first_row_def summary_truth_def split: option.splits)
  have "holds (load_summary i) (db s) (wire s) (\<lambda>r d _. d = db s \<and>
      (case summary_truth (db s) i of
         Some v \<Rightarrow> r = Inr v \<or> (\<exists>e. r = Inl e \<and> \<not> errors_is e ErrMiss)
       | None \<Rightarrow> r = Inl ErrMiss \<or> (\<exists>e. r = Inl e \<and> \<not> errors_is e ErrMiss)))"
    unfolding load_summary_def find_by_id_def
    apply (rule holds_bind, rule holds_try, rule holds_query)
     apply (auto simp: fault_not_found intro!: holds_throw split: option.splits)[1]
    apply (cases "find (\<lambda>u. user_live u \<and> u_id u = i) (users (biz (db s)))")
     apply (auto simp: first_row_def summary_truth_def intro!: holds_throw holds_ret)
    done
  from holds_sessionD [OF this assms] calm show ?thesis by (auto split: option.splits)
qed

lemma summary_codec: "marshal_summary v = Inr b \<Longrightarrow> unmarshal_summary b = Inr v \<and> b \<noteq> negativeMarker"
  by (auto simp: marshal_summary_def unmarshal_summary_def negativeMarker_def jfield_Cons)

interpretation user_cache: cached summary_truth db "\<lambda>s. sched s \<noteq> []" load_summary marshal_summary unmarshal_summary format_uint
  by unfold_locales (auto simp: load_summary_truth summary_codec format_uint_inj)

lemma validate_user_misses:
  assumes rc: "redis_reliable rc view" and c: "cc_redis c = Some rc" and cold: "view r (cache_key c (format_uint i)) = None"
    and absent: "find (\<lambda>u. user_live u \<and> u_id u = i) (users (biz (db s))) = None" and calm: "sched s = []"
  shows "\<exists>r1. validate_user (Some c) i r s = (Inr \<lparr>us_exists = False, us_username = ''''\<rparr>, r1, s) \<and>
    view r1 (cache_key c (format_uint i)) = Some negativeMarker"
  using c absent calm cold
  by (simp add: validate_user_def get_or_load_def load_and_store_def Let_def redis_reliableD [OF rc]
      load_summary_def find_by_id_def run_simps first_row_def)

lemma validate_user_denies:
  assumes rc: "redis_reliable rc view" and c: "cc_redis c = Some rc"
    and hit: "view r (cache_key c (format_uint i)) = Some negativeMarker"
  shows "validate_user (Some c) i r s = (Inr \<lparr>us_exists = False, us_username = ''''\<rparr>, r, s)"
  using c hit by (simp add: validate_user_def get_or_load_def Let_def redis_reliableD [OF rc])

section \<open>Properties\<close>

text \<open>
  C22: Whatever the database answers, \<open>CreateUser\<close> either changes nothing and fails, or adds exactly
  one user, with the hash of the password, the next id and a name and mail nobody has, together with exactly one
  pending \<open>user.registered\<close> event for it.  An error answer after the user was written is the lost reply to the commit.
\<close>
theorem create_user_atomic:
  assumes "exec_tx (create_user env q) rs d = (r, d')"
  shows "case r of
      Inl e \<Rightarrow> d' = d \<or> e = commit_lost \<and> (\<exists>u ev. user_created_by env q d u ev d')
    | Inr resp \<Rightarrow> \<exists>u ev. user_created_by env q d u ev d' \<and> resp = response_of u"
proof -
  have "holds (create_user env q) d [] (\<lambda>r d' w. case r of
      Inl e \<Rightarrow> d' = d \<or> e = commit_lost \<and> (\<exists>u ev. user_created_by env q d u ev d')
    | Inr resp \<Rightarrow> \<exists>u ev. user_created_by env q d u ev d' \<and> resp = response_of u)"
    by (rule holds_create_user) auto
  from holds_exec [OF this assms] show ?thesis by simp
qed

text \<open>
  Ids, user names and mail addresses stay unique under \<open>CreateUser\<close>, whatever the database answers.
\<close>
theorem users_stay_unique:
  assumes "users_ok (ue_collation env) d" "exec_tx (create_user env q) rs d = (r, d')"
  shows "users_ok (ue_collation env) d'"
proof -
  have "holds (create_user env q) d [] (\<lambda>r d' w. users_ok (ue_collation env) d')"
    by (rule holds_create_user) (auto intro: assms(1) users_ok_created [OF assms(1)])
  from holds_exec [OF this assms(2)] show ?thesis by simp
qed

text \<open>
  A user who was created can log in with the password of the request and gets their own id, provided that
  bcrypt accepts a password against its own hash.
\<close>
theorem register_then_login:
  assumes "users_ok (ue_collation env) d" "exec_tx (create_user env q) rs d = (Inr resp, d')"
    and bcrypt: "\<And>pw h. ue_hash env pw = Inr h \<Longrightarrow> ue_hash_ok env h pw"
  shows "exec_tx (authenticate env (cu_username q) (cu_password q)) [] d' =
    (Inr \<lparr>ar_exists = True, ar_id = ur_id resp, ar_username = cu_username q\<rparr>, d')"
proof -
  have "holds (create_user env q) d [] (\<lambda>r d' w. case r of Inl e \<Rightarrow> True
    | Inr resp \<Rightarrow> \<exists>u ev. user_created_by env q d u ev d' \<and> resp = response_of u)"
    by (rule holds_create_user) auto
  from holds_exec [OF this assms(2)] obtain u ev where
    c: "user_created_by env q d u ev d'" and resp: "resp = response_of u" by auto
  from c have u: "u \<in> set (users (biz d'))" "user_live u" "u_username u = cu_username q" "ue_hash_ok env (u_password u) (cu_password q)"
    by (auto simp: user_created_by_def user_of_request_def user_live_def intro!: bcrypt)
  from user_row_by_name [OF users_ok_created [OF assms(1) c] u(1,2), of "cu_username q"] u resp show ?thesis
    by (simp add: authenticate_def find_by_username_def run_simps first_row_def response_of_def)
qed

text \<open>
  \<open>Authenticate\<close> never changes the data.  It accepts exactly a live user of that name whose hash
  accepts the password, and answers a wrong password and an unknown name alike; only a failing database gives an error.
\<close>
theorem authenticate_outcome:
  assumes "users_ok (ue_collation env) d" "exec_tx (authenticate env name pw) rs d = (r, d')"
  shows "d' = d \<and> ((\<exists>m. r = Inl (GrpcStatus CodeInternal m)) \<and> rs \<noteq> [] \<or>
    r = Inr (case filter (\<lambda>u. user_live u \<and> ue_collation env (u_username u) = ue_collation env name \<and>
                ue_hash_ok env (u_password u) pw) (users (biz d)) of
        [] \<Rightarrow> no_auth
      | u # us \<Rightarrow> \<lparr>ar_exists = True, ar_id = u_id u, ar_username = u_username u\<rparr>))"
proof -
  let ?named = "\<lambda>u. user_live u \<and> ue_collation env (u_username u) = ue_collation env name"
  have found: "filter (\<lambda>u. ?named u \<and> P u) (users (biz d)) =
      (case find ?named (users (biz d)) of None \<Rightarrow> [] | Some u \<Rightarrow> if P u then [u] else [])" for P
    by (rule filter_find_key [where k = "\<lambda>u. ue_collation env (u_username u)"])
      (use assms(1) in \<open>auto simp: users_ok_def\<close>)
  show ?thesis
    using assms(2) unfolding conj_assoc [symmetric] found
    by (cases rs; cases "hd rs")
      (auto simp: authenticate_def find_by_username_def run_simps first_row_def fault_not_found
        split: option.splits)
qed

text \<open>
  C23: While the cache agrees with the user table, \<open>ValidateUser\<close> answers as the table does, and the cache still
  agrees afterwards, even when Redis fails or forgets; an error is returned only when the database fails, and is
  never "does not exist".
\<close>
theorem validate_transparent:
  assumes "redis_sound rc view" "cc_redis c = Some rc"
    and "coherent summary_truth marshal_summary format_uint (view r) c (db s)"
    and "validate_user (Some c) i r s = (res, r1, s1)"
  shows "coherent summary_truth marshal_summary format_uint (view r1) c (db s1) \<and> db s1 = db s \<and>
    (res = Inr (case summary_truth (db s) i of Some v \<Rightarrow> v | None \<Rightarrow> \<lparr>us_exists = False, us_username = ''''\<rparr>) \<or>
     sched s \<noteq> [] \<and> (\<exists>e. res = Inl e \<and> \<not> errors_is e ErrMiss))"
proof -
  obtain g r2 s2 where run: "get_or_load (Some c) (format_uint i) marshal_summary unmarshal_summary (load_summary i) r s = (g, r2, s2)"
    by (metis prod_cases3)
  from user_cache.transparent [OF assms(1-3) this] assms(4) run show ?thesis
    by (auto simp: validate_user_def split: if_splits option.splits sum.splits)
qed

text \<open>
  C24: The cache does not stay in agreement when a user is created: if \<open>ValidateUser\<close> was asked for an id before
  the user with that id was created, it still denies the user afterwards, because \<open>CreateUser\<close> does not invalidate the
  negative entry.
\<close>
theorem created_user_denied:
  assumes "redis_reliable rc view" "cc_redis c = Some rc" "view r (cache_key c (format_uint i)) = None"
    and "sched s = []" "users_ok (ue_collation env) (db s)" "next_user_id (biz (db s)) = i"
    and "validate_user (Some c) i r s = (v1, r1, s1)"
    and "create_user env q s1 = (Inr resp, s2)"
    and "validate_user (Some c) i r1 s2 = (v2, r2, s3)"
  shows "ur_id resp = i \<and> summary_truth (db s2) i = Some \<lparr>us_exists = True, us_username = cu_username q\<rparr> \<and>
    v2 = Inr \<lparr>us_exists = False, us_username = ''''\<rparr>"
proof -
  have "find (\<lambda>u. user_live u \<and> u_id u = i) (users (biz (db s))) = None"
    using assms(5,6) by (auto simp: users_ok_def find_None_iff)
  from validate_user_misses [OF assms(1-3) this assms(4)] assms(7) have
    "s1 = s" "view r1 (cache_key c (format_uint i)) = Some negativeMarker" by auto
  with validate_user_denies [OF assms(1,2)] assms(9) have v2: "v2 = Inr \<lparr>us_exists = False, us_username = ''''\<rparr>"
    by (metis fst_conv)
  from create_user_result [OF assms(8)] obtain u ev where
    c: "user_created_by env q (db s) u ev (db s2)" and resp: "resp = response_of u"
    using \<open>s1 = s\<close> by auto
  then have u: "u \<in> set (users (biz (db s2)))" "user_live u" "u_id u = i" "u_username u = cu_username q"
    using assms(6) by (auto simp: user_created_by_def user_of_request_def user_live_def)
  from user_row_by_id [OF users_ok_created [OF assms(5) c] u(1,2)] u v2 resp show ?thesis
    by (simp add: summary_truth_def response_of_def)
qed

text \<open>
  When MySQL fails the insert of a new user with any error of its own, a deadlock or a lock
  timeout included, \<open>CreateUser\<close> reports that the name or mail is taken although both are free.
\<close>
theorem deadlock_reported_exists:
  assumes "first_row (\<lambda>u. user_live u \<and> ue_collation env (u_username u) = ue_collation env (cu_username q)) (users (biz d)) = Inl ErrRecordNotFound"
    and "first_row (\<lambda>u. user_live u \<and> ue_collation env (u_email u) = ue_collation env (cu_email q)) (users (biz d)) = Inl ErrRecordNotFound"
    and "ue_hash env (cu_password q) = Inr h"
  shows "exec_tx (create_user env q) [Runs, Runs, Runs, Fails (MySQLFault n)] d =
    (Inl (GrpcStatus CodeAlreadyExists ''username or email already exists''), d)"
  using assms
  by (simp add: create_user_def find_by_username_def find_by_email_def taken_check_def create_user_txn_def
      transaction_as_def create_user_row_def run_simps)

section \<open>Instances\<close>

definition sample_user_env :: user_env where
  "sample_user_env = \<lparr>ue_now = 20, ue_now_text = ''2026-01-31T12:30:05Z'', ue_uuid = ''uuid-9'', ue_collation = (\<lambda>s. s),
     ue_hash = (\<lambda>pw. if 72 < length pw then Inl (PlainError ''bcrypt: password length exceeds 72 bytes'') else Inr (CHR ''$'' # pw)),
     ue_hash_ok = (\<lambda>h pw. h = CHR ''$'' # pw)\<rparr>"

definition sample_user_request :: create_user_request where
  "sample_user_request = \<lparr>cu_username = ''ann'', cu_password = ''secret'', cu_email = ''ann@a.io''\<rparr>"

definition sample_user :: user where
  "sample_user = \<lparr>u_id = 1, u_created_at = 20, u_updated_at = 20, u_deleted_at = None, u_username = ''ann'',
     u_password = ''$secret'', u_email = ''ann@a.io''\<rparr>"

definition empty_user_db :: user_db where
  "empty_user_db = \<lparr>biz = \<lparr>users = [], next_user_id = 1\<rparr>, outbox = \<lparr>ob_rows = [], ob_next_id = 1\<rparr>, processed = []\<rparr>"

abbreviation run_user :: "(user_db, nat, 'a) tx \<Rightarrow> reply list \<Rightarrow> user_db \<Rightarrow> (go_error + 'a) \<times> user_db" where
  "run_user \<equiv> exec_tx"

lemma empty_user_db_ok: "users_ok ck empty_user_db"
  by (simp add: users_ok_def empty_user_db_def)

lemma sample_bcrypt: "ue_hash sample_user_env pw = Inr h \<Longrightarrow> ue_hash_ok sample_user_env h pw"
  by (auto simp: sample_user_env_def split: if_splits)

lemma sample_created:
  "\<exists>d'. run_user (create_user sample_user_env sample_user_request) [] empty_user_db =
    (Inr \<lparr>ur_id = 1, ur_name = ''ann'', ur_email = ''ann@a.io''\<rparr>, d') \<and> users (biz d') = [sample_user]"
proof -
  let ?c = "run_user (create_user sample_user_env sample_user_request) [] empty_user_db"
  have "fst ?c = Inr \<lparr>ur_id = 1, ur_name = ''ann'', ur_email = ''ann@a.io''\<rparr> \<and> users (biz (snd ?c)) = [sample_user]"
    by code_simp
  then show ?thesis by (cases ?c) auto
qed

lemma create_user_atomic_witness:
  "\<exists>d'. run_user (create_user sample_user_env sample_user_request) [Runs, Runs, Runs, Runs, Fails (ConnFault ''gone'')] empty_user_db =
    (Inl (GrpcStatus CodeInternal ''write outbox failed''), d') \<and> d' = empty_user_db"
proof -
  let ?c = "run_user (create_user sample_user_env sample_user_request) [Runs, Runs, Runs, Runs, Fails (ConnFault ''gone'')] empty_user_db"
  have "fst ?c = Inl (GrpcStatus CodeInternal ''write outbox failed'')" by code_simp
  then obtain d' where d': "?c = (Inl (GrpcStatus CodeInternal ''write outbox failed''), d')" by (cases ?c) simp
  from create_user_atomic [OF d'] d' show ?thesis by (simp add: commit_lost_def)
qed

lemma users_stay_unique_witness:
  "\<exists>d'. run_user (create_user sample_user_env sample_user_request) [] empty_user_db =
      (Inr \<lparr>ur_id = 1, ur_name = ''ann'', ur_email = ''ann@a.io''\<rparr>, d') \<and> users_ok (\<lambda>s. s) d'"
proof -
  obtain d' where d': "run_user (create_user sample_user_env sample_user_request) [] empty_user_db =
    (Inr \<lparr>ur_id = 1, ur_name = ''ann'', ur_email = ''ann@a.io''\<rparr>, d')" using sample_created by blast
  have "users_ok (ue_collation sample_user_env) d'" by (rule users_stay_unique [OF empty_user_db_ok d'])
  with d' show ?thesis by (simp add: sample_user_env_def)
qed

lemma register_then_login_witness:
  "\<exists>d'. run_user (create_user sample_user_env sample_user_request) [] empty_user_db =
      (Inr \<lparr>ur_id = 1, ur_name = ''ann'', ur_email = ''ann@a.io''\<rparr>, d') \<and>
    run_user (authenticate sample_user_env ''ann'' ''secret'') [] d' =
      (Inr \<lparr>ar_exists = True, ar_id = 1, ar_username = ''ann''\<rparr>, d')"
proof -
  obtain d' where d': "run_user (create_user sample_user_env sample_user_request) [] empty_user_db =
    (Inr \<lparr>ur_id = 1, ur_name = ''ann'', ur_email = ''ann@a.io''\<rparr>, d')" using sample_created by blast
  from register_then_login [OF empty_user_db_ok d' sample_bcrypt] d' show ?thesis
    by (simp add: sample_user_request_def)
qed

lemma authenticate_outcome_witness:
  "\<exists>d'. run_user (authenticate sample_user_env ''bob'' ''x'') [] empty_user_db = (Inr no_auth, d') \<and> d' = empty_user_db"
proof -
  obtain r d' where d': "run_user (authenticate sample_user_env ''bob'' ''x'') [] empty_user_db = (r, d')"
    by (cases "run_user (authenticate sample_user_env ''bob'' ''x'') [] empty_user_db")
  from authenticate_outcome [OF empty_user_db_ok d'] d' show ?thesis by (simp add: empty_user_db_def)
qed

definition sample_cache :: "((string \<times> payload) list) cache" where
  "sample_cache = new_cache (Some mem_redis) ''user:summary:'' 300 30"

lemma validate_transparent_witness:
  "case validate_user (Some sample_cache) 4 [] \<lparr>db = empty_user_db, sched = [], wire = [] :: nat list\<rparr> of
     (res, r1, s1) \<Rightarrow> res = Inr \<lparr>us_exists = False, us_username = ''''\<rparr> \<and> db s1 = empty_user_db"
proof -
  let ?v = "validate_user (Some sample_cache) 4 [] \<lparr>db = empty_user_db, sched = [], wire = [] :: nat list\<rparr>"
  obtain res r1 s1 where v: "?v = (res, r1, s1)" by (metis prod_cases3)
  from validate_transparent [OF redis_reliable_sound [OF mem_redis_reliable] _ _ v] v show ?thesis
    by (simp add: sample_cache_def new_cache_def coherent_def summary_truth_def empty_user_db_def)
qed

lemma created_user_denied_witness:
  "\<exists>r1 s1 resp s2 r2 s3.
     validate_user (Some sample_cache) 1 [] \<lparr>db = empty_user_db, sched = [], wire = [] :: nat list\<rparr> =
       (Inr \<lparr>us_exists = False, us_username = ''''\<rparr>, r1, s1) \<and>
     create_user sample_user_env sample_user_request s1 = (Inr resp, s2) \<and> ur_id resp = 1 \<and>
     validate_user (Some sample_cache) 1 r1 s2 = (Inr \<lparr>us_exists = False, us_username = ''''\<rparr>, r2, s3)"
proof -
  let ?s = "\<lparr>db = empty_user_db, sched = [], wire = [] :: nat list\<rparr>"
  let ?none = "\<lparr>us_exists = False, us_username = ''''\<rparr>"
  have rc: "cc_redis sample_cache = Some mem_redis" by (simp add: sample_cache_def new_cache_def)
  have "find (\<lambda>u. user_live u \<and> u_id u = 1) (users (biz (db ?s))) = None" by (simp add: empty_user_db_def)
  from validate_user_misses [OF mem_redis_reliable rc _ this, of "[]"] obtain r1 where
    v1: "validate_user (Some sample_cache) 1 [] ?s = (Inr ?none, r1, ?s)" by auto
  have "fst (create_user sample_user_env sample_user_request ?s) = Inr \<lparr>ur_id = 1, ur_name = ''ann'', ur_email = ''ann@a.io''\<rparr>"
    by code_simp
  then obtain resp s2 where c: "create_user sample_user_env sample_user_request ?s = (Inr resp, s2)"
    by (cases "create_user sample_user_env sample_user_request ?s") simp
  obtain v2 r2 s3 where v2: "validate_user (Some sample_cache) 1 r1 s2 = (v2, r2, s3)" by (metis prod_cases3)
  have "ur_id resp = 1 \<and> v2 = Inr ?none"
    using created_user_denied [OF mem_redis_reliable rc _ _ _ _ v1 c v2]
    by (simp add: users_ok_def empty_user_db_def)
  with v1 c v2 show ?thesis by blast
qed

lemma deadlock_reported_exists_witness:
  "run_user (create_user sample_user_env sample_user_request) [Runs, Runs, Runs, Fails (MySQLFault 1213)] empty_user_db =
    (Inl (GrpcStatus CodeAlreadyExists ''username or email already exists''), empty_user_db)"
  by (rule deadlock_reported_exists [where h = "''$secret''"])
    (simp_all add: empty_user_db_def first_row_def sample_user_env_def sample_user_request_def)

end
