(* ===== verification/UserApi.thy ===== *)
theory UserApi
  imports UserProps Middleware Retry
begin

text \<open>
  The user gateway (\<open>service/user/api\<close>): register, login and profile, from the parsed request to the
  response.  The gateway keeps no data; it calls the user service through a gRPC client, which
  is a parameter (\<open>user_client\<close>) of the logic.  \<open>wired_client\<close> is the client the gateway really
  has: the methods of \<open>UserRpc\<close> behind a network that may lose a request or a reply and behind the retry interceptor.
  Signing tokens (golang-jwt) is a parameter too.
\<close>

subsection \<open>Types\<close>

record login_request =
  lr_username :: string
  lr_password :: string

record login_response =
  lo_token :: string

record register_request =
  rg_username :: string
  rg_password :: string
  rg_email :: string

record api_user =
  au_id :: nat
  au_username :: string
  au_email :: string

text \<open>The \<open>validate\<close> tags; the syntax of a mail address is the validator's.\<close>

definition login_valid :: "login_request \<Rightarrow> bool" where
  "login_valid q \<longleftrightarrow> required_str (lr_username q) \<and> required_str (lr_password q)"

definition register_valid :: "(string \<Rightarrow> bool) \<Rightarrow> register_request \<Rightarrow> bool" where
  "register_valid is_email q \<longleftrightarrow>
     required_str (rg_username q) \<and> len_between 3 64 (rg_username q) \<and>
     required_str (rg_password q) \<and> len_between 6 128 (rg_password q) \<and>
     required_str (rg_email q) \<and> is_email (rg_email q)"

subsection \<open>The client of the user service\<close>

record 's user_client =
  uc_create_user :: "create_user_request \<Rightarrow> 's \<Rightarrow> (go_error + user_response) \<times> 's"
  uc_authenticate :: "string \<Rightarrow> string \<Rightarrow> 's \<Rightarrow> (go_error + auth_response) \<times> 's"
  uc_get_user :: "nat \<Rightarrow> 's \<Rightarrow> (go_error + user_response) \<times> 's"

subsection \<open>Logic\<close>

record jwt_claims =
  cl_user_id :: nat
  cl_username :: string
  cl_exp :: int

record api_env =
  ae_now :: int
  ae_access_expire :: int
  ae_access_secret :: string
  ae_sign :: "string \<Rightarrow> jwt_claims \<Rightarrow> go_error + string"

text \<open>\<open>time.Duration(expire) * time.Second\<close> is a 64-bit product of nanoseconds.\<close>

definition login_claims :: "api_env \<Rightarrow> auth_response \<Rightarrow> jwt_claims" where
  "login_claims env resp =
     (let expire = (if ae_access_expire env \<le> 0 then 24 * 3600 else ae_access_expire env)
      in \<lparr>cl_user_id = ar_id resp, cl_username = ar_username resp,
          cl_exp = (ae_now env + wrap64 (expire * 1000000000)) div 1000000000\<rparr>)"

definition login_logic ::
  "'s user_client \<Rightarrow> api_env \<Rightarrow> login_request \<Rightarrow> 's \<Rightarrow> (go_error + login_response) \<times> 's" where
  "login_logic cli env q s =
     (case uc_authenticate cli (lr_username q) (lr_password q) s of
        (Inl err, s1) \<Rightarrow> (Inl err, s1)
      | (Inr resp, s1) \<Rightarrow>
          if \<not> ar_exists resp then (Inl ErrInvalidCredentials, s1)
          else (case ae_sign env (ae_access_secret env) (login_claims env resp) of
                  Inl err \<Rightarrow> (Inl err, s1)
                | Inr signed \<Rightarrow> (Inr \<lparr>lo_token = signed\<rparr>, s1)))"

definition register_logic :: "'s user_client \<Rightarrow> register_request \<Rightarrow> 's \<Rightarrow> (go_error + api_user) \<times> 's" where
  "register_logic cli q s =
     (case uc_create_user cli \<lparr>cu_username = rg_username q, cu_password = rg_password q, cu_email = rg_email q\<rparr> s of
        (Inl err, s1) \<Rightarrow>
          (if status_from_error err = Some CodeAlreadyExists then Inl ErrUserExists else Inl err, s1)
      | (Inr resp, s1) \<Rightarrow> (Inr \<lparr>au_id = ur_id resp, au_username = ur_name resp, au_email = ur_email resp\<rparr>, s1))"

definition profile_logic :: "'s user_client \<Rightarrow> (int \<Rightarrow> nat) \<Rightarrow> go_context \<Rightarrow> 's \<Rightarrow> (go_error + api_user) \<times> 's" where
  "profile_logic cli conv ctx s =
     (case uc_get_user cli (GetUserIDFromContext conv ctx) s of
        (Inl err, s1) \<Rightarrow> (if errors_is err ErrUserNotFound then Inl ErrUserNotFound else Inl err, s1)
      | (Inr resp, s1) \<Rightarrow> (Inr \<lparr>au_id = ur_id resp, au_username = ur_name resp, au_email = ur_email resp\<rparr>, s1))"

subsection \<open>Handlers\<close>

text \<open>What \<open>httpx.Parse\<close> makes of the request, its validation included, is an input of a handler.\<close>

definition login_handler ::
  "'s user_client \<Rightarrow> api_env \<Rightarrow> go_error + login_request \<Rightarrow> 's \<Rightarrow> login_response response \<times> 's" where
  "login_handler cli env parsed s =
     (case parsed of
        Inl err \<Rightarrow> (bad_request (error_text err), s)
      | Inr q \<Rightarrow>
          (case login_logic cli env q s of
             (Inl err, s1) \<Rightarrow>
               (if errors_is err ErrInvalidCredentials then unauthorized (error_text err)
                else internal_error ''login failed'', s1)
           | (Inr resp, s1) \<Rightarrow> (ok_json resp, s1)))"

definition register_handler ::
  "'s user_client \<Rightarrow> go_error + register_request \<Rightarrow> 's \<Rightarrow> api_user response \<times> 's" where
  "register_handler cli parsed s =
     (case parsed of
        Inl err \<Rightarrow> (bad_request (error_text err), s)
      | Inr q \<Rightarrow>
          (case register_logic cli q s of
             (Inl err, s1) \<Rightarrow>
               (if errors_is err ErrUserExists then error_json 409 (error_text err)
                else internal_error ''registration failed'', s1)
           | (Inr resp, s1) \<Rightarrow> (created_json resp, s1)))"

definition profile_handler ::
  "'s user_client \<Rightarrow> (int \<Rightarrow> nat) \<Rightarrow> go_context \<Rightarrow> 's \<Rightarrow> api_user response \<times> 's" where
  "profile_handler cli conv ctx s =
     (case profile_logic cli conv ctx s of
        (Inl err, s1) \<Rightarrow> (not_found ''user not found'', s1)
      | (Inr resp, s1) \<Rightarrow> (ok_json resp, s1))"

subsection \<open>The client the gateway has\<close>

text \<open>
  One call over the network: it may arrive and be answered, not arrive, or be carried out with the reply lost.  What
  the network will do is an input; when it is used up, calls go through.
\<close>

datatype delivery = Delivered | NotDelivered go_error | ReplyLost go_error

definition over_net ::
  "('s \<Rightarrow> (go_error + 'a) \<times> 's) \<Rightarrow> delivery list \<times> 's \<Rightarrow> (go_error + 'a) \<times> delivery list \<times> 's" where
  "over_net f st = (case st of (net, s) \<Rightarrow>
     (case net of
        [] \<Rightarrow> (case f s of (r, s1) \<Rightarrow> (r, [], s1))
      | Delivered # net1 \<Rightarrow> (case f s of (r, s1) \<Rightarrow> (r, net1, s1))
      | NotDelivered e # net1 \<Rightarrow> (Inl e, net1, s)
      | ReplyLost e # net1 \<Rightarrow> (case f s of (r, s1) \<Rightarrow> (Inl e, net1, s1))))"

text \<open>A call through \<open>RetryUnaryInterceptor\<close>: the state is paired with the reply the call fills in.\<close>

definition retried ::
  "string \<Rightarrow> ('s \<Rightarrow> (go_error + 'a) \<times> 's) \<Rightarrow> 's \<Rightarrow> (go_error + 'a) \<times> 's" where
  "retried m f s =
     (case RetryUnaryInterceptor m (\<lambda>_. None)
         (\<lambda>(s, reply). case f s of (Inl e, s1) \<Rightarrow> (Some e, (s1, reply)) | (Inr a, s1) \<Rightarrow> (None, (s1, Some a)))
         (s, None) of
        (Some e, (s1, _), _, _) \<Rightarrow> (Inl e, s1)
      | (None, (s1, Some a), _, _) \<Rightarrow> (Inr a, s1)
      | (None, (s1, None), _, _) \<Rightarrow> (Inl (PlainError ''no reply''), s1))"

definition wired_client :: "user_env \<Rightarrow> (delivery list \<times> (user_db, 'm) session) user_client" where
  "wired_client env =
     \<lparr>uc_create_user = (\<lambda>q. retried ''/user.v1.UserService/CreateUser'' (over_net (create_user env q))),
      uc_authenticate = (\<lambda>u p. retried ''/user.v1.UserService/Authenticate'' (over_net (authenticate env u p))),
      uc_get_user = (\<lambda>i. retried ''/user.v1.UserService/GetUser'' (over_net (get_user i)))\<rparr>"

text \<open>A call that is delivered and does not fail with a retryable error is made once.\<close>

lemma retried_delivered:
  assumes "f s = (r, s1)" "\<And>e. r = Inl e \<Longrightarrow> \<not> isRetryable e"
  shows "retried m (over_net f) ([], s) = (r, [], s1)"
  using assms by (cases r) (simp_all add: retried_def RetryUnaryInterceptor_def maxRetryAttempts_def over_net_def numeral_3_eq_3 Let_def)

section \<open>Properties\<close>

text \<open>A registered user as the data have it.\<close>

lemma registered_row:
  assumes "users_ok (ue_collation env) (db s)" "create_user env q s = (Inr resp, s1)"
  obtains u where "u \<in> set (users (biz (db s1)))" "user_live u" "resp = response_of u" "users_ok (ue_collation env) (db s1)"
    "ue_hash env (cu_password q) = Inr (u_password u)" "u_username u = cu_username q"
proof -
  from create_user_result [OF assms(2)] obtain u ev where
    c: "user_created_by env q (db s) u ev (db s1)" and resp: "resp = response_of u" by auto
  from c have "u \<in> set (users (biz (db s1)))" "user_live u" "ue_hash env (cu_password q) = Inr (u_password u)"
    "u_username u = cu_username q"
    by (auto simp: user_created_by_def user_of_request_def user_live_def)
  with that resp users_ok_created [OF assms(1) c] show ?thesis by blast
qed

lemma register_created:
  assumes "register_handler (wired_client env) (Inr q) ([], s) = (created_json u, st1)"
  shows "\<exists>resp s1. create_user env \<lparr>cu_username = rg_username q, cu_password = rg_password q, cu_email = rg_email q\<rparr> s = (Inr resp, s1) \<and>
    st1 = ([], s1) \<and> u = \<lparr>au_id = ur_id resp, au_username = ur_name resp, au_email = ur_email resp\<rparr>"
proof -
  let ?q = "\<lparr>cu_username = rg_username q, cu_password = rg_password q, cu_email = rg_email q\<rparr>"
  obtain r s1 where c: "create_user env ?q s = (r, s1)" by (cases "create_user env ?q s")
  from create_user_result [OF this] have "\<And>e. r = Inl e \<Longrightarrow> \<not> isRetryable e"
    by (auto simp: isRetryable_def)
  from retried_delivered [where f = "create_user env ?q", OF c this] assms c show ?thesis
    by (cases r) (auto simp: register_handler_def register_logic_def wired_client_def split: if_splits)
qed

text \<open>
  C25: Through the gateway, a user who registered can log in with the same name and password, and the identity in the
  signed token leads the profile handler back to the registered user: provided that bcrypt accepts a password against its
  own hash, the token can be signed, and the middleware puts the claims of the token into the context as go-zero does.
\<close>
theorem register_login_profile:
  assumes "users_ok (ue_collation env) (db s)" "sched s = []"
    and reg: "register_handler (wired_client env) (Inr q) ([], s) = (created_json u, st1)" and id: "au_id u < 2 ^ 63"
    and bcrypt: "\<And>pw h. ue_hash env pw = Inr h \<Longrightarrow> ue_hash_ok env h pw"
    and claims: "claims = login_claims aenv \<lparr>ar_exists = True, ar_id = au_id u, ar_username = rg_username q\<rparr>"
    and signs: "ae_sign aenv (ae_access_secret aenv) claims = Inr token"
    and ctx: "ctx CtxKeyUserID = None" "ctx (GoZeroKey ''user_id'') = Some (VNumber (format_uint (cl_user_id claims)))"
  shows "login_handler (wired_client env) aenv (Inr \<lparr>lr_username = rg_username q, lr_password = rg_password q\<rparr>) st1 =
      (ok_json \<lparr>lo_token = token\<rparr>, st1) \<and>
    profile_handler (wired_client env) conv ctx st1 = (ok_json u, st1)"
proof -
  let ?q = "\<lparr>cu_username = rg_username q, cu_password = rg_password q, cu_email = rg_email q\<rparr>"
  from register_created [OF reg] obtain resp s1 where c: "create_user env ?q s = (Inr resp, s1)" and st1: "st1 = ([], s1)"
    and u: "u = \<lparr>au_id = ur_id resp, au_username = ur_name resp, au_email = ur_email resp\<rparr>" by blast
  from registered_row [OF assms(1) c] obtain row where row: "row \<in> set (users (biz (db s1)))" "user_live row"
    "resp = response_of row" "users_ok (ue_collation env) (db s1)" "ue_hash env (rg_password q) = Inr (u_password row)"
    "u_username row = rg_username q" by auto
  have calm: "sched s1 = []" by (rule create_user_calm [OF assms(2) c])
  have "authenticate env (rg_username q) (rg_password q) s1 =
      (Inr \<lparr>ar_exists = True, ar_id = u_id row, ar_username = rg_username q\<rparr>, s1)"
    using user_row_by_name [OF row(4,1,2), of "rg_username q"] bcrypt [OF row(5)] row(6) calm
    by (simp add: authenticate_def find_by_username_def run_simps first_row_def)
  from retried_delivered [where f = "authenticate env (rg_username q) (rg_password q)", OF this] have login:
    "login_handler (wired_client env) aenv (Inr \<lparr>lr_username = rg_username q, lr_password = rg_password q\<rparr>) st1 =
      (ok_json \<lparr>lo_token = token\<rparr>, st1)"
    using signs u row(3) st1 by (simp add: login_handler_def login_logic_def wired_client_def claims response_of_def)
  have "get_user (u_id row) s1 = (Inr resp, s1)"
    using user_row_by_id [OF row(4,1,2)] row(3) calm
    by (simp add: get_user_def find_by_id_def run_simps first_row_def response_of_def)
  moreover have "GetUserIDFromContext conv ctx = u_id row"
    using ctx id u row(3)
    by (simp add: GetUserIDFromContext_def parseUserID_claim claims login_claims_def response_of_def Let_def del: parseUserID.simps)
  ultimately have "profile_handler (wired_client env) conv ctx st1 = (ok_json u, st1)"
    using retried_delivered [of "get_user (u_id row)" s1 "Inr resp" s1] st1 u
    by (simp add: profile_handler_def profile_logic_def wired_client_def)
  with login show ?thesis by blast
qed

text \<open>
  C28: When the reply to \<open>CreateUser\<close> is lost and the interceptor repeats the call, the user is told that the name
  or mail is taken although the registration succeeded: the interceptor also repeats calls that are not idempotent.
\<close>
theorem register_retry_conflict:
  assumes "users_ok (ue_collation env) (db s)" "sched s = []"
    and "create_user env \<lparr>cu_username = rg_username q, cu_password = rg_password q, cu_email = rg_email q\<rparr> s = (Inr resp, s1)"
    and "isRetryable lost"
  shows "register_handler (wired_client env) (Inr q) ([ReplyLost lost], s) =
      (error_json 409 ''username or email already exists'', ([], s1)) \<and>
    find (\<lambda>x. user_live x \<and> u_id x = ur_id resp) (users (biz (db s1))) \<noteq> None"
proof -
  let ?q = "\<lparr>cu_username = rg_username q, cu_password = rg_password q, cu_email = rg_email q\<rparr>"
  from registered_row [OF assms(1,3)] obtain u where u: "u \<in> set (users (biz (db s1)))" "user_live u"
    "resp = response_of u" "users_ok (ue_collation env) (db s1)" "u_username u = rg_username q" by auto
  have "create_user env ?q s1 = (Inl (GrpcStatus CodeAlreadyExists ''username already exists''), s1)"
    using user_row_by_name [OF u(4,1,2), of "rg_username q"] u(5) create_user_calm [OF assms(2,3)]
    by (simp add: create_user_def find_by_username_def taken_check_def run_simps first_row_def)
  then have "retried m (over_net (create_user env ?q)) ([ReplyLost lost], s) =
      (Inl (GrpcStatus CodeAlreadyExists ''username already exists''), [], s1)" for m
    using assms(3,4)
    by (simp add: retried_def RetryUnaryInterceptor_def maxRetryAttempts_def over_net_def numeral_3_eq_3 Let_def isRetryable_def)
  with user_row_by_id [OF u(4,1,2)] u(3) show ?thesis
    by (simp add: register_handler_def register_logic_def wired_client_def response_of_def)
qed

text \<open>The profile handler answers every error with 404, a user service that cannot be reached included.\<close>

lemma profile_error_404:
  "uc_get_user cli (GetUserIDFromContext conv ctx) s = (Inl err, s1) \<Longrightarrow>
   profile_handler cli conv ctx s = (not_found ''user not found'', s1)"
  by (simp add: profile_handler_def profile_logic_def)

section \<open>Instances\<close>

definition sample_api_env :: api_env where
  "sample_api_env = \<lparr>ae_now = 5000000000, ae_access_expire = 3600, ae_access_secret = ''key'',
     ae_sign = (\<lambda>secret c. Inr (secret @ format_uint (cl_user_id c)))\<rparr>"

definition sample_register :: register_request where
  "sample_register = \<lparr>rg_username = ''ann'', rg_password = ''secret'', rg_email = ''ann@a.io''\<rparr>"

abbreviation fresh_session :: "(user_db, nat) session" where
  "fresh_session \<equiv> \<lparr>db = empty_user_db, sched = [], wire = []\<rparr>"

lemma sample_create:
  "\<exists>s1. create_user sample_user_env \<lparr>cu_username = rg_username sample_register, cu_password = rg_password sample_register,
      cu_email = rg_email sample_register\<rparr> fresh_session = (Inr \<lparr>ur_id = 1, ur_name = ''ann'', ur_email = ''ann@a.io''\<rparr>, s1)"
proof -
  let ?c = "create_user sample_user_env sample_user_request fresh_session"
  have "fst ?c = Inr \<lparr>ur_id = 1, ur_name = ''ann'', ur_email = ''ann@a.io''\<rparr>" by code_simp
  then show ?thesis by (cases ?c) (simp add: sample_register_def sample_user_request_def)
qed

lemma register_login_profile_witness:
  "\<exists>st1. register_handler (wired_client sample_user_env) (Inr sample_register) ([], fresh_session) =
      (created_json \<lparr>au_id = 1, au_username = ''ann'', au_email = ''ann@a.io''\<rparr>, st1) \<and>
    login_handler (wired_client sample_user_env) sample_api_env (Inr \<lparr>lr_username = ''ann'', lr_password = ''secret''\<rparr>) st1 =
      (ok_json \<lparr>lo_token = ''key1''\<rparr>, st1) \<and>
    profile_handler (wired_client sample_user_env) nat [GoZeroKey ''user_id'' \<mapsto> VNumber ''1''] st1 =
      (ok_json \<lparr>au_id = 1, au_username = ''ann'', au_email = ''ann@a.io''\<rparr>, st1)"
proof -
  let ?u = "\<lparr>au_id = 1, au_username = ''ann'', au_email = ''ann@a.io''\<rparr>"
  have one: "format_uint (Suc 0) = ''1''" by code_simp
  obtain s1 where c: "create_user sample_user_env \<lparr>cu_username = rg_username sample_register,
      cu_password = rg_password sample_register, cu_email = rg_email sample_register\<rparr> fresh_session =
    (Inr \<lparr>ur_id = 1, ur_name = ''ann'', ur_email = ''ann@a.io''\<rparr>, s1)" using sample_create by blast
  from retried_delivered [where f = "create_user sample_user_env \<lparr>cu_username = rg_username sample_register,
      cu_password = rg_password sample_register, cu_email = rg_email sample_register\<rparr>", OF c]
  have reg: "register_handler (wired_client sample_user_env) (Inr sample_register) ([], fresh_session) = (created_json ?u, ([], s1))"
    by (simp add: register_handler_def register_logic_def wired_client_def)
  have "login_handler (wired_client sample_user_env) sample_api_env
      (Inr \<lparr>lr_username = rg_username sample_register, lr_password = rg_password sample_register\<rparr>) ([], s1) =
      (ok_json \<lparr>lo_token = ''key1''\<rparr>, ([], s1)) \<and>
    profile_handler (wired_client sample_user_env) nat [GoZeroKey ''user_id'' \<mapsto> VNumber ''1''] ([], s1) = (ok_json ?u, ([], s1))"
    by (rule register_login_profile [OF _ _ reg _ sample_bcrypt refl])
      (simp_all add: empty_user_db_ok sample_api_env_def login_claims_def Let_def one)
  with reg show ?thesis by (auto simp: sample_register_def)
qed

lemma register_retry_conflict_witness:
  "fst (register_handler (wired_client sample_user_env) (Inr sample_register)
      ([ReplyLost (GrpcStatus CodeUnavailable ''connection reset'')], fresh_session)) =
    error_json 409 ''username or email already exists''"
proof -
  obtain s1 where c: "create_user sample_user_env \<lparr>cu_username = rg_username sample_register,
      cu_password = rg_password sample_register, cu_email = rg_email sample_register\<rparr> fresh_session =
    (Inr \<lparr>ur_id = 1, ur_name = ''ann'', ur_email = ''ann@a.io''\<rparr>, s1)" using sample_create by blast
  from register_retry_conflict [OF _ _ c, of "GrpcStatus CodeUnavailable ''connection reset''"] show ?thesis
    by (simp add: empty_user_db_ok isRetryable_def)
qed

end
