(* ===== verification/UserGrpc.thy ===== *)
theory UserGrpc
  imports UserApi
begin

text \<open>
  User-rpc as its callers reach it: the server that hands each method to its logic
  (\<open>internal/server/userserviceserver.go\<close>), and the client (\<open>userservice/userservice.go\<close>), whose calls go through
  the retry interceptor and over a network that may lose them.  The generated stubs in between (\<open>pb\<close>) only carry
  messages.
\<close>

record 's user_service_api =
  sv_validate_user :: "nat \<Rightarrow> 's \<Rightarrow> (go_error + user_summary) \<times> 's"
  sv_get_user :: "nat \<Rightarrow> 's \<Rightarrow> (go_error + user_response) \<times> 's"
  sv_create_user :: "create_user_request \<Rightarrow> 's \<Rightarrow> (go_error + user_response) \<times> 's"
  sv_authenticate :: "string \<Rightarrow> string \<Rightarrow> 's \<Rightarrow> (go_error + auth_response) \<times> 's"

text \<open>The state of the service: what Redis holds and the session of the database.\<close>

definition on_users :: "('s \<Rightarrow> (go_error + 'a) \<times> 's) \<Rightarrow> 'r \<times> 's \<Rightarrow> (go_error + 'a) \<times> 'r \<times> 's" where
  "on_users f st = (case f (snd st) of (res, s) \<Rightarrow> (res, (fst st, s)))"

definition NewUserServiceServer ::
  "user_env \<Rightarrow> 'r cache option \<Rightarrow> ('r \<times> (user_db, 'm) session) user_service_api" where
  "NewUserServiceServer env c =
     \<lparr>sv_validate_user = (\<lambda>i st. validate_user c i (fst st) (snd st)),
      sv_get_user = (\<lambda>i. on_users (get_user i)),
      sv_create_user = (\<lambda>q. on_users (create_user env q)),
      sv_authenticate = (\<lambda>name pw. on_users (authenticate env name pw))\<rparr>"

definition NewUserService :: "'s user_service_api \<Rightarrow> (delivery list \<times> 's) user_service_api" where
  "NewUserService server =
     \<lparr>sv_validate_user = (\<lambda>i. retried ''/user.v1.UserService/ValidateUser'' (over_net (sv_validate_user server i))),
      sv_get_user = (\<lambda>i. retried ''/user.v1.UserService/GetUser'' (over_net (sv_get_user server i))),
      sv_create_user = (\<lambda>q. retried ''/user.v1.UserService/CreateUser'' (over_net (sv_create_user server q))),
      sv_authenticate = (\<lambda>name pw. retried ''/user.v1.UserService/Authenticate'' (over_net (sv_authenticate server name pw)))\<rparr>"

subsection \<open>What a call can do\<close>

text \<open>
  Calls that may be lost, answered without being noticed, or repeated: what every execution keeps is kept, and a result
  that arrives is the result of an execution.
\<close>

lemma over_net_keeps:
  assumes f: "\<And>s r s1. I s \<Longrightarrow> f s = (r, s1) \<Longrightarrow> I s1 \<and> (\<forall>a. r = Inr a \<longrightarrow> P a)"
    and "I s" "over_net f (net, s) = (r, net1, s1)"
  shows "I s1 \<and> (\<forall>a. r = Inr a \<longrightarrow> P a)"
proof -
  obtain r0 s0 where r0: "f s = (r0, s0)" by (cases "f s")
  from f [OF assms(2) r0] assms(2,3) r0 show ?thesis
    by (cases net) (auto simp: over_net_def split: delivery.splits)
qed

lemma rpc_loop_keeps:
  assumes step: "\<And>s e s1. J s \<Longrightarrow> g s = (e, s1) \<Longrightarrow> J s1 \<and> (e = None \<longrightarrow> G s1)"
  shows "J s \<Longrightarrow> lastErr \<noteq> None \<or> 0 < left \<Longrightarrow> rpc_loop m ctx g left i lastErr s = (e, s1, rs, ws) \<Longrightarrow> J s1 \<and> (e = None \<longrightarrow> G s1)"
proof (induction left arbitrary: i lastErr s e s1 rs ws)
  case (Suc left)
  obtain e0 s0 where g: "g s = (e0, s0)" by (cases "g s")
  note s0 = step [OF Suc.prems(1) g]
  show ?case
  proof (cases e0)
    case None
    with Suc.prems(3) g s0 show ?thesis by simp
  next
    case (Some x)
    obtain e2 s2 rs2 ws2 where rest: "rpc_loop m ctx g left (Suc i) (Some x) s0 = (e2, s2, rs2, ws2)"
      by (cases "rpc_loop m ctx g left (Suc i) (Some x) s0") auto
    from Suc.IH [OF _ _ rest] s0 have "J s2 \<and> (e2 = None \<longrightarrow> G s2)" by blast
    with Suc.prems(3) g s0 Some rest show ?thesis
      by (auto simp: Let_def split: if_splits option.splits)
  qed
qed auto

lemma retried_keeps:
  assumes f: "\<And>s r s1. I s \<Longrightarrow> f s = (r, s1) \<Longrightarrow> I s1 \<and> (\<forall>a. r = Inr a \<longrightarrow> P a)"
    and "I s" and run: "retried m f s = (r, s1)"
  shows "I s1 \<and> (\<forall>a. r = Inr a \<longrightarrow> P a)"
proof -
  let ?g = "\<lambda>(s, reply). case f s of (Inl e, s1) \<Rightarrow> (Some e, (s1, reply)) | (Inr a, s1) \<Rightarrow> (None, (s1, Some a))"
  obtain e s2 reply rs ws where loop: "RetryUnaryInterceptor m (\<lambda>_. None) ?g (s, None) = (e, (s2, reply), rs, ws)"
    by (cases "RetryUnaryInterceptor m (\<lambda>_. None) ?g (s, None)") auto
  have "I (fst (s2, reply)) \<and> (e = None \<longrightarrow> (\<exists>a. snd (s2, reply) = Some a \<and> P a))"
    by (rule rpc_loop_keeps [where J = "\<lambda>st. I (fst st)" and G = "\<lambda>st. \<exists>a. snd st = Some a \<and> P a",
          OF _ _ _ loop [unfolded RetryUnaryInterceptor_def]])
      (use f assms(2) in \<open>auto simp: maxRetryAttempts_def split: prod.splits sum.splits\<close>)
  with run loop show ?thesis
    by (auto simp: retried_def split: option.splits)
qed

end
