(* ===== verification/Registered.thy ===== *)
theory Registered
  imports UserGrpc OrderPrivacy
begin

text \<open>
  The order gateway and user-rpc together.  The answer of \<open>ValidateUser\<close> that \<open>Create\<close> asks for is
  no longer an input: it comes through the client, the network, the server and the cache of user-rpc.  The cache may
  be out of date, entries may expire, calls may get lost and be repeated, the drivers may fail; still no order exists for a user who
  does not.
\<close>

subsection \<open>The system\<close>

definition ask_user ::
  "user_env \<Rightarrow> 'u cache option \<Rightarrow> nat \<Rightarrow> delivery list \<times> 'u \<times> (user_db, 'm) session \<Rightarrow>
   (go_error + bool) \<times> delivery list \<times> 'u \<times> (user_db, 'm) session" where
  "ask_user uenv c i st =
     (case sv_validate_user (NewUserService (NewUserServiceServer uenv c)) i st of
        (Inl err, st1) \<Rightarrow> (Inl err, st1)
      | (Inr summary, st1) \<Rightarrow> (Inr (us_exists summary), st1))"

record ('u, 'm, 'r, 'n) shop =
  sh_cache :: 'u
  sh_users :: "(user_db, 'm) session"
  sh_orders :: "('r, 'n) order_world"

text \<open>
  The steps: a registration; a \<open>Create\<close> of an order, with the call of \<open>ValidateUser\<close> it makes (a request answered
  from its idempotency gate makes none, and then user-rpc stays as it was); a change of an order's status; new
  faults of the drivers to come; and the loss of cache entries.
\<close>

inductive shop_step ::
  "('u \<Rightarrow> string \<Rightarrow> payload option) \<Rightarrow> 'u cache \<Rightarrow> (string \<Rightarrow> string) \<Rightarrow> 'r redis_client option \<Rightarrow>
   ('u, 'm, 'r, 'n) shop \<Rightarrow> ('u, 'm, 'r, 'n) shop \<Rightarrow> bool"
  for view :: "'u \<Rightarrow> string \<Rightarrow> payload option" and c :: "'u cache" and ck :: "string \<Rightarrow> string"
    and rdb :: "'r redis_client option" where
  registers: "ue_collation uenv = ck \<Longrightarrow> create_user uenv q (sh_users S) = (res, s1) \<Longrightarrow>
    shop_step view c ck rdb S (S\<lparr>sh_users := s1\<rparr>)"
| orders_one: "ask_user uenv (Some c) u (net, sh_cache S, sh_users S) = (v, net1, r1, s1) \<Longrightarrow>
    create (env\<lparr>en_validate := (\<lambda>_. v)\<rparr>) rdb u q key (sh_orders S) = (res, w1) \<Longrightarrow>
    shop_step view c ck rdb S (S\<lparr>sh_cache := r1, sh_users := s1, sh_orders := w1\<rparr>)"
| replays_one: "create env rdb u q key (sh_orders S) = (res, w1) \<Longrightarrow> db (ow_session w1) = db (ow_session (sh_orders S)) \<Longrightarrow>
    shop_step view c ck rdb S (S\<lparr>sh_orders := w1\<rparr>)"
| changes: "update_order_status env u i st (ow_session (sh_orders S)) = (res, s1) \<Longrightarrow>
    shop_step view c ck rdb S (S\<lparr>sh_orders := (sh_orders S)\<lparr>ow_session := s1\<rparr>\<rparr>)"
| faults: "shop_step view c ck rdb S (S\<lparr>sh_users := (sh_users S)\<lparr>sched := rs\<rparr>,
      sh_orders := (sh_orders S)\<lparr>ow_session := (ow_session (sh_orders S))\<lparr>sched := rs2\<rparr>\<rparr>\<rparr>)"
| expires: "view r1 \<subseteq>\<^sub>m view (sh_cache S) \<Longrightarrow> shop_step view c ck rdb S (S\<lparr>sh_cache := r1\<rparr>)"

inductive_cases shop_stepE: "shop_step view c ck rdb S S'"

subsection \<open>The invariant\<close>

definition user_exists :: "user_db \<Rightarrow> nat \<Rightarrow> bool" where
  "user_exists d i \<longleftrightarrow> (\<exists>x \<in> set (users (biz d)). user_live x \<and> u_id x = i)"

definition shop_ok ::
  "('u \<Rightarrow> string \<Rightarrow> payload option) \<Rightarrow> 'u cache \<Rightarrow> (string \<Rightarrow> string) \<Rightarrow> ('u, 'm, 'r, 'n) shop \<Rightarrow> bool" where
  "shop_ok view c ck S \<longleftrightarrow>
     users_ok ck (db (sh_users S)) \<and> orders_ok (db (ow_session (sh_orders S))) \<and>
     values_true summary_truth unmarshal_summary format_uint (view (sh_cache S)) c (db (sh_users S)) \<and>
     (\<forall>o' \<in> set (orders (biz (db (ow_session (sh_orders S))))). user_exists (db (sh_users S)) (o_user_id o'))"

lemma summary_truth_exists:
  "summary_truth d i = Some v \<Longrightarrow> user_exists d i \<and> us_exists v"
  by (auto simp: summary_truth_def user_exists_def dest: find_SomeD)

text \<open>An answer that a user exists is true, however the call went.\<close>

lemma validate_user_true:
  assumes "redis_sound rc view" "cc_redis c = Some rc"
    and "values_true summary_truth unmarshal_summary format_uint (view r) c (db s)"
    and "validate_user (Some c) i r s = (res, r1, s1)"
  shows "values_true summary_truth unmarshal_summary format_uint (view r1) c (db s1) \<and> db s1 = db s \<and>
    (\<forall>v. res = Inr v \<and> us_exists v \<longrightarrow> user_exists (db s) i)"
proof -
  obtain g r2 s2 where run: "get_or_load (Some c) (format_uint i) marshal_summary unmarshal_summary (load_summary i) r s = (g, r2, s2)"
    by (metis prod_cases3)
  from user_cache.get_or_load_true [OF assms(1-3) run] assms(4) run summary_truth_exists show ?thesis
    by (auto simp: validate_user_def split: if_splits sum.splits)
qed

lemma ask_user_true:
  assumes rs: "redis_sound rc view" and c: "cc_redis c = Some rc"
    and inv: "values_true summary_truth unmarshal_summary format_uint (view r) c (db s)"
    and run: "ask_user uenv (Some c) i (net, r, s) = (v, net1, r1, s1)"
  shows "values_true summary_truth unmarshal_summary format_uint (view r1) c (db s1) \<and> db s1 = db s \<and>
    (v = Inr True \<longrightarrow> user_exists (db s) i)"
proof -
  define I where "I = (\<lambda>(r' :: 'a, s' :: (user_tables svc_db, 'b) session).
    values_true summary_truth unmarshal_summary format_uint (view r') c (db s') \<and> db s' = db s)"
  let ?f = "\<lambda>st. validate_user (Some c) i (fst st) (snd st)"
  let ?P = "\<lambda>x. us_exists x \<longrightarrow> user_exists (db s) i"
  have once: "I st1 \<and> (\<forall>a. res = Inr a \<longrightarrow> ?P a)" if "I st" "?f st = (res, st1)" for st res st1
    using validate_user_true [OF rs c, where res = res and r = "fst st" and s = "snd st" and i = i and ?r1.0 = "fst st1" and ?s1.0 = "snd st1"] that
    by (cases st; cases st1) (auto simp: I_def)
  have netted: "I (snd nst1) \<and> (\<forall>a. res = Inr a \<longrightarrow> ?P a)" if "I (snd nst)" "over_net ?f nst = (res, nst1)" for nst res nst1
    using over_net_keeps [where I = I and P = ?P and f = ?f and s = "snd nst" and net = "fst nst" and r = res
        and ?net1.0 = "fst nst1" and ?s1.0 = "snd nst1", OF once] that by simp
  obtain res where res: "retried ''/user.v1.UserService/ValidateUser'' (over_net ?f) (net, r, s) = (res, net1, r1, s1)"
    "v = Inr True \<longrightarrow> (\<exists>x. res = Inr x \<and> us_exists x)"
    using run by (auto simp: ask_user_def NewUserService_def NewUserServiceServer_def split: sum.splits prod.splits)
  have "I (r, s)" using inv by (simp add: I_def)
  with retried_keeps [where I = "\<lambda>st. I (snd st)" and P = ?P, OF netted _ res(1)]
  have "I (r1, s1) \<and> (\<forall>a. res = Inr a \<longrightarrow> ?P a)" by simp
  with res(2) show ?thesis by (auto simp: I_def)
qed

subsection \<open>What the operations of the order service do to the orders\<close>

lemma create_orders:
  assumes "create env rdb u q key w = (r, w1)"
  shows "db (ow_session w1) = db (ow_session w) \<or>
    (\<exists>o' e. en_validate env u = Inr True \<and> order_created_by env u q (db (ow_session w)) o' e (db (ow_session w1)))"
proof -
  define did where "did = (\<lambda>d d'. d' = d \<or> (\<exists>o' e. en_validate env u = Inr True \<and> order_created_by env u q d o' e d'))"
  have ordered: "did (db s) (db s1)"
    if "create_order env u q s = (r', s1)" for s r' and s1 :: "(order_db, 'b) session"
  proof (cases "en_validate env u = Inr True")
    case True
    with holds_sessionD [OF holds_create_order that refl refl] show ?thesis by (auto simp: did_def)
  next
    case False
    with that show ?thesis by (auto simp: did_def create_order_def throw_def split: sum.splits)
  qed
  have gated: "did (db (ow_session w1)) (db (ow_session w2))"
    if "create_gated env rdb gate u q w1 = (r', w2)" for gate r' rdb and w1 w2 :: "('a, 'b) order_world"
    using that ordered
    by (fastforce simp: create_gated_def count_created_def Let_def split: prod.splits sum.splits option.splits if_splits)
  have "did d d" for d by (simp add: did_def)
  then have "did (db (ow_session w)) (db (ow_session w1))"
    using assms unfolding create_def Let_def
    by (auto dest!: gated replay_session simp: count_created_def split: option.splits if_splits prod.splits sum.splits)
  then show ?thesis by (simp add: did_def)
qed

lemma order_created_frame:
  assumes "order_created_by env u q d o' e d'"
  shows "orders (biz d') = orders (biz d) @ [o']" "o_user_id o' = u" "orders_ok d \<Longrightarrow> orders_ok d'"
proof -
  have id: "o_id o' = next_order_id (biz d)" and d': "d' = (insert_order o' d)\<lparr>outbox := insert_row e (outbox d)\<rparr>"
    using assms by (simp_all add: order_created_by_def new_order_def)
  show "orders (biz d') = orders (biz d) @ [o']" "o_user_id o' = u"
    using assms by (auto simp: order_created_by_def new_order_def create_defaults_def order_of_request_def)
  show "orders_ok d'" if "orders_ok d"
    using orders_ok_insert_order [OF that id] by (simp add: d' orders_ok_def)
qed

lemma update_order_users:
  assumes ok: "orders_ok (db s)" and run: "update_order_status env u i st s = (r, s1)"
  shows "orders_ok (db s1) \<and> map o_user_id (orders (biz (db s1))) = map o_user_id (orders (biz (db s)))"
proof -
  let ?Q = "\<lambda>r d' w'. orders_ok d' \<and> map o_user_id (orders (biz d')) = map o_user_id (orders (biz (db s)))"
  have put: "orders_ok (put_order j f (db s)) \<and>
      map o_user_id (orders (biz (put_order j f (db s)))) = map o_user_id (orders (biz (db s)))"
    if "\<And>o'. o_id (f o') = o_id o'" "\<And>o'. o_user_id (f o') = o_user_id o'" for j f
    using that orders_ok_put_order [OF ok, of f j] by (simp add: orders_put_order)
  have from_row: "holds (update_order_from env c st) (db s) (wire s) ?Q" for c
    by (rule holds_conseq [OF holds_update_order_from [OF ok]])
      (use ok put [of "set_status StatusPaid (en_now env)"] put [of "set_cancelled ReasonUserCancelled (en_now env)"]
        in \<open>auto simp: order_cancelled_by_def orders_ok_def\<close>)
  have "holds (update_order_status env u i st) (db s) (wire s) ?Q"
    unfolding update_order_status_def
    by (rule holds_bind, rule holds_try, rule holds_find_by_id_and_user_id [OF ok]; simp add: from_row holds_throw ok)
  from holds_sessionD [OF this run] show ?thesis by simp
qed

lemma created_users_exist:
  assumes "create_user uenv q s = (r, s1)" "users_ok (ue_collation uenv) (db s)"
  shows "users_ok (ue_collation uenv) (db s1) \<and> (\<forall>i v. summary_truth (db s) i = Some v \<longrightarrow> summary_truth (db s1) i = Some v) \<and>
    (\<forall>i. user_exists (db s) i \<longrightarrow> user_exists (db s1) i)"
proof -
  have "holds (create_user uenv q) (db s) (wire s) (\<lambda>r d' w. d' = db s \<or> (\<exists>u ev. user_created_by uenv q (db s) u ev d'))"
    by (rule holds_create_user) auto
  from holds_sessionD [OF this assms(1)] consider "db s1 = db s" | u ev where "user_created_by uenv q (db s) u ev (db s1)" by auto
  then show ?thesis
  proof cases
    case 1
    with assms(2) show ?thesis by simp
  next
    case (2 u ev)
    then have "users (biz (db s1)) = users (biz (db s)) @ [u]" by (auto simp: user_created_by_def)
    with 2 users_ok_created [OF assms(2) 2] show ?thesis
      by (auto simp: summary_truth_def user_exists_def find_append split: option.splits)
  qed
qed

section \<open>Properties\<close>

text \<open>
  C33: Every order belongs to a registered user.  From a state where it holds, empty tables for one, in whatever order
  registrations, orders, status changes, lost and repeated calls, faults of the databases and lost cache entries follow
  one another, an order only ever exists for a user that user-rpc has: the cache may deny a user who exists, but never
  admits one who does not.
\<close>

theorem orders_have_users:
  assumes rs: "redis_sound rc view" and c: "cc_redis c = Some rc"
    and init: "shop_ok view c ck S0"
    and reach: "rtranclp (shop_step view c ck rdb) S0 S"
  shows "shop_ok view c ck S"
  using reach init
proof (induction rule: rtranclp_induct)
  case (step S S')
  then have ok: "shop_ok view c ck S" by blast
  note inv = ok [unfolded shop_ok_def]
  from step.hyps(2) show ?case
  proof cases
    case (registers uenv q res s1)
    with created_users_exist [OF registers(3)] inv have grown: "users_ok ck (db s1)"
      "\<And>i v. summary_truth (db (sh_users S)) i = Some v \<Longrightarrow> summary_truth (db s1) i = Some v"
      "\<And>i. user_exists (db (sh_users S)) i \<Longrightarrow> user_exists (db s1) i" by auto
    have "values_true summary_truth unmarshal_summary format_uint (view (sh_cache S)) c (db s1)"
      by (rule user_cache.values_true_grow [OF _ grown(2)]) (use inv in blast)
    with grown(1,3) inv registers(1) show ?thesis by (simp add: shop_ok_def)
  next
    case (orders_one uenv u net v net1 r1 s1 env q key res w1)
    from ask_user_true [OF rs c _ orders_one(2)] inv
    have asked: "values_true summary_truth unmarshal_summary format_uint (view r1) c (db s1)" "db s1 = db (sh_users S)"
      "v = Inr True \<longrightarrow> user_exists (db (sh_users S)) u" by auto
    from create_orders [OF orders_one(3)] consider "db (ow_session w1) = db (ow_session (sh_orders S))"
      | o' e where "v = Inr True" "order_created_by (env\<lparr>en_validate := \<lambda>_. v\<rparr>) u q (db (ow_session (sh_orders S))) o' e (db (ow_session w1))"
      by auto
    then show ?thesis
    proof cases
      case 1
      with asked inv orders_one(1) show ?thesis by (simp add: shop_ok_def)
    next
      case 2
      note frame = order_created_frame [OF 2(2)]
      from frame 2(1) asked inv orders_one(1) show ?thesis by (simp add: shop_ok_def)
    qed
  next
    case (replays_one env u q key res w1)
    with inv show ?thesis by (simp add: shop_ok_def)
  next
    case (changes env u i st res s1)
    from inv update_order_users [OF _ changes(2)] have
      "orders_ok (db s1)" "map o_user_id (orders (biz (db s1))) = map o_user_id (orders (biz (db (ow_session (sh_orders S)))))" by auto
    note same = this
    have "user_exists (db (sh_users S)) (o_user_id o')" if "o' \<in> set (orders (biz (db s1)))" for o'
    proof -
      have "o_user_id o' \<in> set (map o_user_id (orders (biz (db s1))))" using that by simp
      then have "o_user_id o' \<in> o_user_id ` set (orders (biz (db (ow_session (sh_orders S)))))" unfolding same(2) by simp
      with inv show ?thesis by (elim imageE) simp
    qed
    with same(1) inv changes(1) show ?thesis by (simp add: shop_ok_def)
  next
    case (faults rs rs2)
    with inv show ?thesis by (simp add: shop_ok_def)
  next
    case (expires r1)
    have "values_true summary_truth unmarshal_summary format_uint (view r1) c (db (sh_users S))"
      by (rule user_cache.values_true_le [OF _ expires(2)]) (use inv in blast)
    with inv expires(1) show ?thesis by (simp add: shop_ok_def)
  qed
qed simp

lemma empty_shop_ok:
  assumes "users (biz (db (sh_users S))) = []" "orders (biz (db (ow_session (sh_orders S)))) = []" "view (sh_cache S) = Map.empty"
  shows "shop_ok view c ck S"
  using assms by (simp add: shop_ok_def users_ok_def orders_ok_def values_true_def)

definition sample_validate_cache :: "((string \<times> payload) list) cache" where
  "sample_validate_cache = new_cache (Some mem_redis) ''user:validate:'' 300000000000 30000000000"

definition sample_shop :: "((string \<times> payload) list, nat, (string \<times> payload) list, nat) shop" where
  "sample_shop = \<lparr>sh_cache = [], sh_users = \<lparr>db = \<lparr>biz = \<lparr>users = [], next_user_id = 7\<rparr>, outbox = \<lparr>ob_rows = [], ob_next_id = 1\<rparr>,
     processed = []\<rparr>, sched = [], wire = []\<rparr>, sh_orders = sample_world\<rparr>"

lemma orders_have_users_witness:
  "\<exists>S. rtranclp (shop_step map_of sample_validate_cache (\<lambda>s. s) (Some mem_redis)) sample_shop S \<and>
     orders (biz (db (ow_session (sh_orders S)))) \<noteq> [] \<and> shop_ok map_of sample_validate_cache (\<lambda>s. s) S"
proof -
  let ?q = "\<lparr>cu_username = ''ann'', cu_password = ''secret'', cu_email = ''a@b.c''\<rparr>"
  let ?step = "shop_step map_of sample_validate_cache (\<lambda>s. s) (Some mem_redis)"
  obtain res s1 where reg: "create_user sample_user_env ?q (sh_users sample_shop) = (res, s1)"
    by (cases "create_user sample_user_env ?q (sh_users sample_shop)")
  let ?S1 = "sample_shop\<lparr>sh_users := s1\<rparr>"
  obtain v net1 r1 s2 where ask: "ask_user sample_user_env (Some sample_validate_cache) 7 ([], sh_cache ?S1, sh_users ?S1) = (v, net1, r1, s2)"
    by (cases "ask_user sample_user_env (Some sample_validate_cache) 7 ([], sh_cache ?S1, sh_users ?S1)") auto
  let ?env = "sample_env\<lparr>en_validate := \<lambda>_. v\<rparr>"
  obtain res2 w1 where cr: "create ?env (Some mem_redis) 7 sample_request '''' (sh_orders ?S1) = (res2, w1)"
    by (cases "create ?env (Some mem_redis) 7 sample_request '''' (sh_orders ?S1)")
  have "fst (ask_user sample_user_env (Some sample_validate_cache) 7
      ([], sh_cache sample_shop, snd (create_user sample_user_env ?q (sh_users sample_shop)))) = Inr True"
    by code_simp
  with reg ask have v: "v = Inr True" by (simp add: sample_shop_def)
  have "orders (biz (db (ow_session (snd (create (sample_env\<lparr>en_validate := \<lambda>_. Inr True\<rparr>) (Some mem_redis) 7 sample_request ''''
      (sh_orders sample_shop)))))) \<noteq> []"
    by code_simp
  with cr v have some: "orders (biz (db (ow_session w1))) \<noteq> []" by simp
  have "ue_collation sample_user_env = (\<lambda>s. s)" by (simp add: sample_user_env_def)
  from shop_step.registers [OF this reg] shop_step.orders_one [OF ask cr]
  have reach: "rtranclp ?step sample_shop (?S1\<lparr>sh_cache := r1, sh_users := s2, sh_orders := w1\<rparr>)"
    by (meson converse_rtranclp_into_rtranclp rtranclp.rtrancl_refl)
  have "shop_ok map_of sample_validate_cache (\<lambda>s. s) sample_shop"
    by (rule empty_shop_ok) (simp_all add: sample_shop_def sample_world_def empty_order_db_def)
  from orders_have_users [OF redis_reliable_sound [OF mem_redis_reliable] _ this reach]
  have "shop_ok map_of sample_validate_cache (\<lambda>s. s) (?S1\<lparr>sh_cache := r1, sh_users := s2, sh_orders := w1\<rparr>)"
    by (simp add: sample_validate_cache_def new_cache_def)
  with reach some show ?thesis by (intro exI [of _ "?S1\<lparr>sh_cache := r1, sh_users := s2, sh_orders := w1\<rparr>"]) simp
qed

end
