(* ===== verification/UserRoutes.thy ===== *)
theory UserRoutes
  imports UserGrpc HttpServer
begin

text \<open>
  The user gateway over HTTP: its handlers on a real request, its table of routes
  (\<open>service/user/api/internal/handler\<close>) and the server of \<open>user.go\<close>, up to user-rpc behind it.  Whose data an answer
  depends on is proved by a simulation: two states that differ in what the answer may not depend on take
  the same steps, through lost and repeated calls too.
\<close>

subsection \<open>Handlers\<close>

record user_parser =
  up_login :: "http_request \<Rightarrow> (go_error + login_request) \<times> http_request"
  up_register :: "http_request \<Rightarrow> (go_error + register_request) \<times> http_request"

definition marshal_login :: "login_response \<Rightarrow> json" where
  "marshal_login t = JObj [(''token'', JStr (lo_token t))]"

definition marshal_api_user :: "api_user \<Rightarrow> json" where
  "marshal_api_user u = JObj ([(''id'', JInt (int (au_id u))), (''username'', JStr (au_username u))] @
     (if au_email u = '''' then [] else [(''email'', JStr (au_email u))]))"

definition LoginHandler :: "user_parser \<Rightarrow> 's user_client \<Rightarrow> api_env \<Rightarrow> 's http_handler" where
  "LoginHandler up cli env r s =
     (case login_handler cli env (fst (up_login up r)) s of (resp, s1) \<Rightarrow> (respond marshal_login resp, s1))"

definition RegisterHandler :: "user_parser \<Rightarrow> 's user_client \<Rightarrow> 's http_handler" where
  "RegisterHandler up cli r s =
     (case register_handler cli (fst (up_register up r)) s of (resp, s1) \<Rightarrow> (respond marshal_api_user resp, s1))"

definition ProfileHandler :: "'s user_client \<Rightarrow> (int \<Rightarrow> nat) \<Rightarrow> 's http_handler" where
  "ProfileHandler cli conv r s =
     (case profile_handler cli conv (hr_ctx r) s of (resp, s1) \<Rightarrow> (respond marshal_api_user resp, s1))"

subsection \<open>Routes and server\<close>

definition user_routes ::
  "string \<Rightarrow> user_parser \<Rightarrow> 's user_client \<Rightarrow> api_env \<Rightarrow> (int \<Rightarrow> nat) \<Rightarrow> 's route list" where
  "user_routes secret up cli env conv =
     add_routes None ''/api/v1''
       [(''POST'', ''/login'', LoginHandler up cli env),
        (''POST'', ''/register'', RegisterHandler up cli)] @
     add_routes (Some secret) ''/api/v1'' [(''GET'', ''/profile'', ProfileHandler cli conv)]"

definition user_mounted ::
  "string \<Rightarrow> user_parser \<Rightarrow> 's user_client \<Rightarrow> api_env \<Rightarrow> (int \<Rightarrow> nat) \<Rightarrow> 's route list" where
  "user_mounted secret up cli env conv =
     \<lparr>rt_method = ''GET'', rt_path = ''/health'', rt_handler = HealthHandler ''user-api'' [\<lambda>s. (None, s)],
      rt_jwt = None\<rparr> # user_routes secret up cli env conv"

definition user_server ::
  "go_zero \<Rightarrow> string list \<Rightarrow> 'l rate_limiter \<Rightarrow> string \<Rightarrow> user_parser \<Rightarrow> 's user_client \<Rightarrow> api_env \<Rightarrow> (int \<Rightarrow> nat) \<Rightarrow>
   ('l \<times> 's) http_handler" where
  "user_server gz origins rl secret up cli env conv = serve gz origins rl (user_mounted secret up cli env conv)"

lemma user_get_routes:
  assumes "t \<in> set (user_mounted secret up cli env conv)" "rt_method t = ''GET''"
  obtains "rt_jwt t = None" "rt_handler t = HealthHandler ''user-api'' [\<lambda>s. (None, s)]"
  | "rt_jwt t = Some secret" "rt_handler t = ProfileHandler cli conv"
  using assms by (auto simp: user_mounted_def user_routes_def add_routes_def)

subsection \<open>Simulations through the client\<close>

text \<open>\<open>follows R f\<close>: from related states \<open>f\<close> gives the same result and ends in related states.\<close>

definition follows :: "('s \<Rightarrow> 's \<Rightarrow> bool) \<Rightarrow> ('s \<Rightarrow> 'a \<times> 's) \<Rightarrow> bool" where
  "follows R f \<longleftrightarrow> (\<forall>s s'. R s s' \<longrightarrow> fst (f s') = fst (f s) \<and> R (snd (f s)) (snd (f s')))"

definition on_snd :: "('s \<Rightarrow> 's \<Rightarrow> bool) \<Rightarrow> 'n \<times> 's \<Rightarrow> 'n \<times> 's \<Rightarrow> bool" where
  "on_snd R p q \<longleftrightarrow> fst q = fst p \<and> R (snd p) (snd q)"

lemma followsE:
  assumes "follows R f" "R s s'"
  obtains r s1 s1' where "f s = (r, s1)" "f s' = (r, s1')" "R s1 s1'"
  using assms unfolding follows_def by (metis prod.collapse)

lemma follows_over_net:
  fixes f :: "'s \<Rightarrow> (go_error + 'a) \<times> 's"
  assumes "follows R f"
  shows "follows (on_snd R) (over_net f)"
  unfolding follows_def
proof (intro allI impI)
  fix p p' :: "delivery list \<times> 's" assume "on_snd R p p'"
  then obtain net s s' where p: "p = (net, s)" "p' = (net, s')" "R s s'" by (cases p; cases p') (auto simp: on_snd_def)
  from assms p(3) obtain r s1 s1' where "f s = (r, s1)" "f s' = (r, s1')" "R s1 s1'" by (rule followsE)
  with p show "fst (over_net f p') = fst (over_net f p) \<and> on_snd R (snd (over_net f p)) (snd (over_net f p'))"
    by (auto simp: over_net_def on_snd_def split: list.splits delivery.splits)
qed

lemma rpc_loop_follows:
  assumes g: "follows R g"
  shows "R s s' \<Longrightarrow> fst (rpc_loop m ctx g left i e s') = fst (rpc_loop m ctx g left i e s) \<and>
    R (fst (snd (rpc_loop m ctx g left i e s))) (fst (snd (rpc_loop m ctx g left i e s')))"
proof (induction left arbitrary: i e s s')
  case (Suc left)
  from g Suc.prems obtain r s1 s1' where r: "g s = (r, s1)" "g s' = (r, s1')" "R s1 s1'" by (rule followsE)
  show ?case
  proof (cases r)
    case None
    with r show ?thesis by simp
  next
    case (Some x)
    with r Suc.IH [OF r(3), of "Suc i" "Some x"] show ?thesis
      by (auto simp: Let_def split_beta split: option.splits)
  qed
qed simp

lemma follows_retried:
  fixes f :: "'s \<Rightarrow> (go_error + 'a) \<times> 's"
  assumes f: "follows R f"
  shows "follows R (retried m f)"
  unfolding follows_def
proof (intro allI impI)
  fix s s' assume R: "R s s'"
  let ?g = "\<lambda>(s, reply). case f s of (Inl e, s1) \<Rightarrow> (Some e, (s1, reply)) | (Inr a, s1) \<Rightarrow> (None, (s1, Some a))"
  let ?R = "\<lambda>p p'. snd p' = snd p \<and> R (fst p) (fst p')"
  have g: "follows ?R ?g"
    unfolding follows_def
  proof (intro allI impI)
    fix p p' :: "'s \<times> 'a option" assume pp: "?R p p'"
    with f obtain r s1 s1' where "f (fst p) = (r, s1)" "f (fst p') = (r, s1')" "R s1 s1'" by (meson followsE)
    with pp show "fst (?g p') = fst (?g p) \<and> ?R (snd (?g p)) (snd (?g p'))"
      by (cases p; cases p'; cases r) auto
  qed
  have "?R (s, None) (s', None)" using R by simp
  from rpc_loop_follows [OF g this, of m "\<lambda>_. None" maxRetryAttempts 0 None]
  show "fst (retried m f s') = fst (retried m f s) \<and> R (snd (retried m f s)) (snd (retried m f s'))"
    unfolding retried_def RetryUnaryInterceptor_def
    by (auto split: prod.splits option.splits)
qed

subsection \<open>What the profile depends on\<close>

text \<open>Two sessions whose drivers answer alike and whose databases hold the same user \<open>i\<close>.\<close>

definition same_user :: "nat \<Rightarrow> (user_db, 'm) session \<Rightarrow> (user_db, 'm) session \<Rightarrow> bool" where
  "same_user i s s' \<longleftrightarrow> sched s' = sched s \<and>
     find (\<lambda>x. user_live x \<and> u_id x = i) (users (biz (db s'))) = find (\<lambda>x. user_live x \<and> u_id x = i) (users (biz (db s)))"

lemma follows_get_user: "follows (same_user i) (get_user i)"
  unfolding follows_def
proof (intro allI impI)
  fix s s' :: "(user_tables svc_db, 'a) session"
  assume R: "same_user i s s'"
  then have same: "sched s' = sched s" "first_row (\<lambda>u. user_live u \<and> u_id u = i) (users (biz (db s'))) =
      first_row (\<lambda>u. user_live u \<and> u_id u = i) (users (biz (db s)))" by (simp_all add: same_user_def first_row_def)
  have read: "\<exists>r rs. find_by_id i s = (r, s\<lparr>sched := rs\<rparr>) \<and> find_by_id i s' = (r, s'\<lparr>sched := rs\<rparr>)"
  proof (cases "sched s")
    case Nil
    with same have "find_by_id i s = (first_row (\<lambda>u. user_live u \<and> u_id u = i) (users (biz (db s))), s\<lparr>sched := []\<rparr>)"
      "find_by_id i s' = (first_row (\<lambda>u. user_live u \<and> u_id u = i) (users (biz (db s))), s'\<lparr>sched := []\<rparr>)"
      by (simp_all add: find_by_id_def query_def stmt_def next_reply_def)
    then show ?thesis by blast
  next
    case (Cons a rs)
    with same show ?thesis
      by (cases a) (auto simp: find_by_id_def query_def stmt_def next_reply_def)
  qed
  then obtain r rs where "find_by_id i s = (r, s\<lparr>sched := rs\<rparr>)" "find_by_id i s' = (r, s'\<lparr>sched := rs\<rparr>)" by blast
  moreover have "same_user i (s\<lparr>sched := rs\<rparr>) (s'\<lparr>sched := rs\<rparr>)" using R by (simp add: same_user_def)
  ultimately show "fst (get_user i s') = fst (get_user i s) \<and> same_user i (snd (get_user i s)) (snd (get_user i s'))"
    by (cases r) (simp_all add: get_user_def bind_tx_def try_tx_def ret_def throw_def)
qed

lemma get_user_reads: "db (snd (get_user i s)) = db s"
proof -
  have "holds (get_user i) (db s) (wire s) (\<lambda>r d' w'. d' = db s)"
    unfolding get_user_def find_by_id_def
    by (rule holds_bind, rule holds_try, rule holds_query) (auto intro!: holds_ret holds_throw holds_if holds_case_sum)
  from holds_sessionD [OF this prod.collapse [symmetric] refl refl] show ?thesis .
qed

lemma profile_follows:
  assumes "GetUserIDFromContext conv (hr_ctx r) = i"
  shows "follows (on_snd (same_user i)) (ProfileHandler (wired_client env) conv r)"
proof -
  have "follows (on_snd (same_user i)) (retried ''/user.v1.UserService/GetUser'' (over_net (get_user i)))"
    by (rule follows_retried [OF follows_over_net [OF follows_get_user]])
  then show ?thesis
    unfolding follows_def
    by (auto simp: ProfileHandler_def profile_handler_def profile_logic_def wired_client_def assms split_beta
        split: sum.splits)
qed

lemma profile_reads: "db (snd (snd (ProfileHandler (wired_client env) conv r (net, s)))) = db s"
proof -
  let ?i = "GetUserIDFromContext conv (hr_ctx r)"
  let ?f = "retried ''/user.v1.UserService/GetUser'' (over_net (get_user ?i))"
  obtain res net1 s1 where run: "?f (net, s) = (res, (net1, s1))" by (metis prod_cases3)
  have "db s1 = db s \<and> (\<forall>a. res = Inr a \<longrightarrow> True)"
  proof -
    have "db (snd (snd (res, (net1, s1)))) = db s \<and> (\<forall>a. res = Inr a \<longrightarrow> True)"
      using retried_keeps [where I = "\<lambda>p. db (snd p) = db s" and P = "\<lambda>_. True", OF _ _ run]
        over_net_keeps [where I = "\<lambda>s'. db s' = db s" and P = "\<lambda>_. True" and f = "get_user ?i"] get_user_reads
      by (metis (no_types, lifting) prod.collapse snd_conv)
    then show ?thesis by simp
  qed
  with run show ?thesis
    by (simp add: ProfileHandler_def profile_handler_def profile_logic_def wired_client_def split: sum.splits)
qed

section \<open>Properties\<close>

text \<open>
  C38: the user gateway shows a user only themselves.  A request that is answered by reading, with no accepted token or
  with one of user \<open>i\<close>, changes no user, and its answer is the same for any other database that holds the same user \<open>i\<close>,
  however the network loses and the interceptor repeats the calls and whatever the driver replies.
\<close>
theorem profile_private:
  assumes "router_ok gz" and get: "hr_method r = ''GET''"
    and token: "\<And>r1. gz_authorize gz secret r = Some r1 \<Longrightarrow> GetUserID conv r1 = i"
    and run: "user_server gz origins rl secret up (wired_client env) aenv conv r (l, (net, s)) = (ops, (l1, (net1, s1)))"
  shows "db s1 = db s \<and>
    (\<forall>s'. same_user i s s' \<longrightarrow> fst (user_server gz origins rl secret up (wired_client env) aenv conv r (l, (net, s'))) = ops)"
proof (intro conjI allI impI)
  show "db s1 = db s"
    using assms(1) run [unfolded user_server_def]
  proof (cases rule: serve_cases)
    case (ran t r1 ws pre)
    from ran(1) ran(2) [unfolded get] show ?thesis
    proof (cases rule: user_get_routes)
      case 1
      with ran(3) show ?thesis by (simp add: HealthHandler_def)
    next
      case 2
      with ran(3) profile_reads [of env conv r1 net s] show ?thesis by simp
    qed
  qed simp
next
  fix s' assume same: "same_user i s s'"
  have "fst (rt_handler t r1 (net, s')) = fst (rt_handler t r1 (net, s))"
    if "t \<in> set (user_mounted secret up (wired_client env) aenv conv)" "rt_method t = hr_method r"
      "rt_jwt t = None \<and> r1 = r \<or> (\<exists>key. rt_jwt t = Some key \<and> gz_authorize gz key r = Some r1)" for t r1
    using that(1) that(2) [unfolded get]
  proof (cases rule: user_get_routes)
    case 1
    then show ?thesis by (simp add: HealthHandler_def)
  next
    case 2
    with that(3) token have "GetUserIDFromContext conv (hr_ctx r1) = i" by (simp add: GetUserID_def)
    from profile_follows [OF this, of env] same 2 show ?thesis by (auto simp: follows_def on_snd_def)
  qed
  from serve_cong [OF assms(1) this, where origins = origins and rl = rl and l = l] run
  show "fst (user_server gz origins rl secret up (wired_client env) aenv conv r (l, (net, s'))) = ops"
    by (simp add: user_server_def)
qed

section \<open>Instances\<close>

definition profile_go_zero :: go_zero where
  "profile_go_zero = \<lparr>gz_pick = (\<lambda>ps r. case find (\<lambda>k. ps ! k = (hr_method r, hr_path r)) [0..<length ps] of
       None \<Rightarrow> NoRoute | Some k \<Rightarrow> Picked k),
     gz_authorize = (\<lambda>secret r. if hr_header r ''Authorization'' = '''' then None
       else Some (r\<lparr>hr_ctx := [GoZeroKey ''user_id'' \<mapsto> VNumber (hr_header r ''Authorization'')]\<rparr>)),
     gz_unauthorized = [WriteHeader 401], gz_not_found = [WriteHeader 404], gz_cors = (\<lambda>origins r. ([], False))\<rparr>"

lemma profile_router: "router_ok profile_go_zero"
  by (auto simp: router_ok_def profile_go_zero_def split: option.splits dest!: find_SomeD)

definition profile_get :: http_request where
  "profile_get = (request_from ''10.0.0.1:80'')\<lparr>hr_path := ''/api/v1/profile'',
     hr_header := (\<lambda>k. if k = ''Authorization'' then ''1'' else '''')\<rparr>"

definition user_parser_none :: user_parser where
  "user_parser_none = \<lparr>up_login = (\<lambda>r. (Inl (PlainError ''EOF''), r)), up_register = (\<lambda>r. (Inl (PlainError ''EOF''), r))\<rparr>"

definition users_db :: "string list \<Rightarrow> user_db" where
  "users_db names = empty_user_db\<lparr>biz := (biz empty_user_db)\<lparr>users := map (\<lambda>(k, n). \<lparr>u_id = Suc k, u_created_at = 1,
     u_updated_at = 1, u_deleted_at = None, u_username = n, u_password = ''h'', u_email = n @ ''@a.io''\<rparr>) (enumerate 0 names)\<rparr>\<rparr>"

abbreviation profile_server where
  "profile_server \<equiv> user_server profile_go_zero [''*''] (mem_limiter 9) ''key'' user_parser_none (wired_client sample_user_env) sample_api_env nat"

lemma profile_private_witness:
  "let s = \<lparr>db = users_db [''ann'', ''bob''], sched = [], wire = [] :: nat list\<rparr>;
       s' = \<lparr>db = users_db [''ann'', ''eve'', ''mal''], sched = [], wire = [] :: nat list\<rparr>
   in client_status (fst (profile_server profile_get ((\<lambda>_. 0), ([], s)))) = 200 \<and>
     fst (profile_server profile_get ((\<lambda>_. 0), ([], s'))) = fst (profile_server profile_get ((\<lambda>_. 0), ([], s)))"
proof -
  let ?s = "\<lparr>db = users_db [''ann'', ''bob''], sched = [], wire = [] :: nat list\<rparr>"
  let ?s' = "\<lparr>db = users_db [''ann'', ''eve'', ''mal''], sched = [], wire = [] :: nat list\<rparr>"
  obtain ops l1 net1 s1 where run: "profile_server profile_get ((\<lambda>_. 0), ([], ?s)) = (ops, (l1, (net1, s1)))"
    by (metis prod_cases3 prod.collapse)
  have ok: "client_status (fst (profile_server profile_get ((\<lambda>_. 0), ([], ?s)))) = 200" by code_simp
  have "go_atoi ''1'' = Some 1" by code_simp
  then have user: "GetUserID nat r1 = 1" if "gz_authorize profile_go_zero ''key'' profile_get = Some r1" for r1
    using that by (auto simp: profile_go_zero_def profile_get_def GetUserID_def GetUserIDFromContext_def)
  have "same_user 1 ?s ?s'" by (simp add: same_user_def users_db_def user_live_def)
  with conjunct2 [OF profile_private [OF profile_router _ user run]]
  have "fst (profile_server profile_get ((\<lambda>_. 0), ([], ?s'))) = ops"
    by (simp add: profile_get_def request_from_def)
  with ok run show ?thesis by simp
qed

end
