(* ===== verification/RpcServers.thy ===== *)
theory RpcServers
  imports UserGrpc InventoryProps
begin

text \<open>
  The gRPC servers of user-rpc and inventory-rpc as their \<open>main\<close> functions register them, and inventory-rpc as a caller
  reaches it: \<open>internal/server/inventoryserviceserver.go\<close> hands \<open>GetStock\<close> to its logic, and the client
  (\<open>inventoryservice/inventoryservice.go\<close>) makes one call over the network, without the retry interceptor.
\<close>

text \<open>The reflection service tells a caller which services there are; it is registered in two modes only.\<close>

definition reflection_service :: string where
  "reflection_service = ''grpc.reflection.v1.ServerReflection''"

definition register_user_rpc :: "string \<Rightarrow> string list" where
  "register_user_rpc mode = ''user.v1.UserService'' # (if mode = ''dev'' \<or> mode = ''test'' then [reflection_service] else [])"

definition register_inventory_rpc :: "string \<Rightarrow> string list" where
  "register_inventory_rpc mode =
     ''inventory.v1.InventoryService'' # (if mode = ''dev'' \<or> mode = ''test'' then [reflection_service] else [])"

record 's inventory_service_api =
  iv_get_stock :: "string \<Rightarrow> 's \<Rightarrow> (go_error + stock_response) \<times> 's"

definition NewInventoryServiceServer :: "collation \<Rightarrow> (inventory_db, 'm) session inventory_service_api" where
  "NewInventoryServiceServer ck = \<lparr>iv_get_stock = get_stock ck\<rparr>"

definition NewInventoryService :: "'s inventory_service_api \<Rightarrow> (delivery list \<times> 's) inventory_service_api" where
  "NewInventoryService server = \<lparr>iv_get_stock = (\<lambda>sku. over_net (iv_get_stock server sku))\<rparr>"

lemma holds_get_stock:
  "holds (get_stock ck sku) d w (\<lambda>r d' w'. d' = d \<and> w' = w \<and>
    (\<forall>a. r = Inr a \<longrightarrow> (\<exists>p \<in> set (products (biz d)). ck (p_sku p) = ck sku \<and>
       a = \<lparr>sr_sku = p_sku p, sr_total = p_total p, sr_available = p_available p\<rparr>)))"
  unfolding get_stock_def get_product_def
  by (rule holds_bind, rule holds_try, rule holds_query)
    (auto intro!: holds_ret holds_throw holds_if holds_case_sum dest: first_row_member split: sum.splits)

text \<open>A call of \<open>GetStock\<close> changes nothing, and what arrives is the stock of a product with that SKU.\<close>

lemma get_stock_call:
  assumes "iv_get_stock (NewInventoryService (NewInventoryServiceServer ck)) sku (net, s) = (r, net1, s1)"
  shows "db s1 = db s \<and> wire s1 = wire s \<and> (\<forall>a. r = Inr a \<longrightarrow> (\<exists>p \<in> set (products (biz (db s))). ck (p_sku p) = ck sku \<and>
    a = \<lparr>sr_sku = p_sku p, sr_total = p_total p, sr_available = p_available p\<rparr>))"
proof -
  let ?P = "\<lambda>a. \<exists>p \<in> set (products (biz (db s))). ck (p_sku p) = ck sku \<and>
    a = \<lparr>sr_sku = p_sku p, sr_total = p_total p, sr_available = p_available p\<rparr>"
  have "(db s1 = db s \<and> wire s1 = wire s) \<and> (\<forall>a. r = Inr a \<longrightarrow> ?P a)"
  proof (rule over_net_keeps [where I = "\<lambda>s'. db s' = db s \<and> wire s' = wire s" and P = ?P and f = "get_stock ck sku"])
    show "over_net (get_stock ck sku) (net, s) = (r, net1, s1)"
      using assms by (simp add: NewInventoryService_def NewInventoryServiceServer_def)
    fix s' r' s1' assume s': "db s' = db s \<and> wire s' = wire s" and run: "get_stock ck sku s' = (r', s1')"
    from holds_sessionD [OF holds_get_stock run refl refl] s'
    show "(db s1' = db s \<and> wire s1' = wire s) \<and> (\<forall>a. r' = Inr a \<longrightarrow> ?P a)" by auto
  qed simp
  then show ?thesis by simp
qed

end
