(* ===== verification/Migrate.thy ===== *)
theory Migrate
  imports Config
begin

text \<open>
  \<open>common/xdb/migrate.go\<close>: the migrations of a service, run on the connection it has just opened.  The scripts are
  embedded in the program (\<open>common/xdb/migrations\<close>, one directory per service), so which files a service has is part of
  the model; what a script does to the tables is goose's and MySQL's.
\<close>

subsection \<open>The embedded scripts\<close>

definition migrationsFS :: "(string \<times> string list) list" where
  "migrationsFS =
     [(''migrations/inventory'', [''00001_init.sql'']),
      (''migrations/order'', [''00001_init.sql'', ''00002_known_users.sql'', ''00003_sku_quantity_cancelreason.sql'']),
      (''migrations/user'', [''00001_init.sql''])]"

text \<open>
  \<open>fs.Sub\<close> of the standard library, for a directory other than \<open>.\<close>: it looks at the path only, and the directory of
  a service that has no migrations is empty, not an error.
\<close>

definition valid_path :: "string \<Rightarrow> bool" where
  "valid_path p \<longleftrightarrow> (\<forall>e \<in> set (split_on CHR ''/'' p). e \<noteq> '''' \<and> e \<noteq> ''.'' \<and> e \<noteq> ''..'')"

definition fs_sub :: "(string \<times> string list) list \<Rightarrow> string \<Rightarrow> go_error + string list" where
  "fs_sub fsys dir =
     (if \<not> valid_path dir then Inl (PlainError (''sub '' @ dir @ '': invalid argument''))
      else case map_of fsys dir of None \<Rightarrow> Inr [] | Some files \<Rightarrow> Inr files)"

subsection \<open>Migrate\<close>

text \<open>
  \<open>gormDB.DB()\<close> and goose are parameters: \<open>gp_new\<close> is \<open>goose.NewProvider\<close> on a pool and the scripts, and \<open>gp_up\<close> what
  \<open>Up\<close> of the provider returns, the results of the scripts it applied.  The second component is what is logged.
\<close>

record ('p, 'v) goose =
  gp_new :: "'p \<Rightarrow> string list \<Rightarrow> go_error + 'v"
  gp_up :: "'v \<Rightarrow> go_error + string list"

definition Migrate :: "('d \<Rightarrow> go_error + 'p) \<Rightarrow> ('p, 'v) goose \<Rightarrow> 'd \<Rightarrow> string \<Rightarrow> go_error option \<times> string list" where
  "Migrate sql_db gp gormDB service =
     (case sql_db gormDB of
        Inl err \<Rightarrow> (Some err, [])
      | Inr sqlDB \<Rightarrow>
          (case fs_sub migrationsFS (''migrations/'' @ service) of
             Inl err \<Rightarrow> (Some err, [])
           | Inr subFS \<Rightarrow>
               (case gp_new gp sqlDB subFS of
                  Inl err \<Rightarrow> (Some err, [])
                | Inr provider \<Rightarrow>
                    (case gp_up gp provider of
                       Inl err \<Rightarrow> (Some err, [])
                     | Inr results \<Rightarrow> (None, map (\<lambda>r. ''[goose] '' @ r) results)))))"

text \<open>What reaches goose are the scripts of the service, and an error of goose is returned and nothing logged.\<close>

lemma migrate_service:
  assumes "(''migrations/'' @ service, files) \<in> set migrationsFS"
  shows "Migrate sql_db gp g service = (case sql_db g of Inl err \<Rightarrow> (Some err, []) | Inr p \<Rightarrow>
     (case gp_new gp p files of Inl err \<Rightarrow> (Some err, []) | Inr v \<Rightarrow>
        (case gp_up gp v of Inl err \<Rightarrow> (Some err, []) | Inr rs \<Rightarrow> (None, map (\<lambda>r. ''[goose] '' @ r) rs))))"
proof -
  have ids: "service \<in> {''inventory'', ''order'', ''user''}" using assms by (auto simp: migrationsFS_def)
  have "distinct (map fst migrationsFS)" by (simp add: migrationsFS_def)
  with assms have "map_of migrationsFS (''migrations/'' @ service) = Some files" by (simp add: map_of_is_SomeI)
  moreover have "valid_path (''migrations/'' @ service)" using ids by (auto simp: valid_path_def)
  ultimately show ?thesis by (simp add: Migrate_def fs_sub_def split: sum.splits)
qed

end
