(* ===== verification/Services.thy ===== *)
theory Services
  imports Migrate Consumer Middleware UserRpc
begin

text \<open>
  The service contexts (\<open>internal/svc/servicecontext.go\<close> of each service): what a service connects to when it
  starts, in which order, which failures end it, and which goroutines it runs.  The libraries a service
  connects through are one parameter, \<open>platform\<close>; the state that connecting to Kafka works on is threaded.
  A failure that ends the process is the \<open>Panics\<close> outcome.  What the goroutines do is in \<open>Poller\<close> and
  \<open>Consumer\<close>; \<open>Stop\<close> only cancels their context and waits for them (\<open>consumer_stops\<close>).
\<close>

record ('g, 'p, 'c, 'k, 'kc, 'r, 'v) platform =
  pf_gorm_open :: "string \<Rightarrow> gorm_logger \<Rightarrow> go_error + 'g"
  pf_sql_db :: "'g \<Rightarrow> go_error + 'p"
  pf_open_db :: "'p sql_pool \<Rightarrow> go_error + 'p"
  pf_goose :: "('p, 'v) goose"
  pf_new_client :: "string \<Rightarrow> string \<Rightarrow> int \<Rightarrow> 'c"
  pf_ping :: "'c \<Rightarrow> go_error option"
  pf_kafka :: "('k, 'kc) kafka_admin"
  pf_redis :: "'c \<Rightarrow> 'r redis_client"

text \<open>
  The database of a service, opened and migrated; \<open>pf_open_db\<close> is \<open>DB()\<close> of the opened connection, which
  \<open>Migrate\<close> asks for again.
\<close>

definition open_migrated :: "('g, 'p, 'c, 'k, 'kc, 'r, 'v) platform \<Rightarrow> database_config \<Rightarrow> string \<Rightarrow> 'p sql_pool outcome" where
  "open_migrated pf cfg service =
     (case open_db (pf_gorm_open pf) (pf_sql_db pf) cfg of
        Inl err \<Rightarrow> Panics (''failed to connect database: '' @ error_text err)
      | Inr d \<Rightarrow>
          (case Migrate (pf_open_db pf) (pf_goose pf) d service of
             (Some err, logged) \<Rightarrow> Panics (''failed to migrate: '' @ error_text err)
           | (None, logged) \<Rightarrow> Returns d))"

definition open_producer :: "('g, 'p, 'c, 'k, 'kc, 'r, 'v) platform \<Rightarrow> kafka_config \<Rightarrow> 'k \<Rightarrow> producer outcome \<times> 'k" where
  "open_producer pf cfg k =
     (case NewProducer (pf_kafka pf) (kc_bootstrap_servers cfg) k of
        (Inl err, k1) \<Rightarrow> (Panics (''failed to create kafka producer: '' @ error_text err), k1)
      | (Inr p, k1) \<Rightarrow> (Returns p, k1))"

text \<open>A poller: its interval in nanoseconds and the size of its batches.\<close>

record poller_config =
  pl_interval :: int
  pl_batch_size :: nat

definition standard_poller :: poller_config where
  "standard_poller = \<lparr>pl_interval = 5 * second, pl_batch_size = 100\<rparr>"

text \<open>A consumer, when both its topic and its group are configured.\<close>

definition consumer_for :: "kafka_config \<Rightarrow> string \<Rightarrow> consumer_config option" where
  "consumer_for cfg topic =
     (if topic \<noteq> '''' \<and> kc_group_id cfg \<noteq> ''''
      then Some \<lparr>cf_brokers = kc_bootstrap_servers cfg, cf_topic = topic, cf_group = kc_group_id cfg\<rparr> else None)"

datatype goroutine = RunsPoller poller_config | RunsConsumer consumer_config

subsection \<open>order-api\<close>

definition rate_limit_per_min :: "environ \<Rightarrow> int" where
  "rate_limit_per_min getenv =
     (let v = getenv ''BUG_LOAD_RATE'' in
      if v = '''' then 100 else case go_atoi v of None \<Rightarrow> 100 | Some n \<Rightarrow> if 0 < n then n else 100)"

text \<open>The rate limiter is given by the arguments of \<open>NewRedisRateLimiter\<close>.\<close>

record ('p, 'c) order_service =
  os_config :: order_api_config
  os_db :: "'p sql_pool"
  os_rpc :: rpc_client_conf
  os_redis :: 'c
  os_producer :: producer
  os_poller :: poller_config
  os_limit :: "int \<times> int \<times> string"
  os_consumer :: "consumer_config option"
  os_inventory_consumer :: "consumer_config option"
  os_running :: "goroutine list"

definition new_order_service ::
  "('g, 'p, 'c, 'k, 'kc, 'r, 'v) platform \<Rightarrow> environ \<Rightarrow> order_api_config \<Rightarrow> 'k \<Rightarrow> ('p, 'c) order_service outcome \<times> 'k" where
  "new_order_service pf getenv c k =
     (case open_migrated pf (oc_database c) ''order'' of
        Panics m \<Rightarrow> (Panics m, k)
      | Returns d \<Rightarrow>
          (case open_redis (pf_new_client pf) (pf_ping pf) (oc_redis c) of
             Inl err \<Rightarrow> (Panics (''failed to connect redis: '' @ error_text err), k)
           | Inr r \<Rightarrow>
               (case open_producer pf (oc_kafka c) k of
                  (Panics m, k1) \<Rightarrow> (Panics m, k1)
                | (Returns p, k1) \<Rightarrow>
                    (Returns \<lparr>os_config = c, os_db = d, os_rpc = RpcClientConf (oc_user_svc c), os_redis = r,
                       os_producer = p, os_poller = standard_poller,
                       os_limit = (rate_limit_per_min getenv, 60 * second, ''ratelimit:order-api:''),
                       os_consumer = consumer_for (oc_kafka c) (kc_topic (oc_kafka c)),
                       os_inventory_consumer = consumer_for (oc_kafka c) (kc_inventory_topic (oc_kafka c)),
                       os_running = [RunsPoller standard_poller]\<rparr>, k1))))"

definition start_order_service :: "('p, 'c) order_service \<Rightarrow> ('p, 'c) order_service" where
  "start_order_service sc = sc\<lparr>os_running := os_running sc @
     (case os_consumer sc of None \<Rightarrow> [] | Some cf \<Rightarrow> [RunsConsumer cf]) @
     (case os_inventory_consumer sc of None \<Rightarrow> [] | Some cf \<Rightarrow> [RunsConsumer cf])\<rparr>"

subsection \<open>inventory-rpc\<close>

record 'p inventory_service =
  is_config :: inventory_rpc_config
  is_db :: "'p sql_pool"
  is_producer :: producer
  is_poller :: poller_config
  is_consumer :: "consumer_config option"
  is_running :: "goroutine list"

definition new_inventory_service ::
  "('g, 'p, 'c, 'k, 'kc, 'r, 'v) platform \<Rightarrow> inventory_rpc_config \<Rightarrow> 'k \<Rightarrow> 'p inventory_service outcome \<times> 'k" where
  "new_inventory_service pf c k =
     (case open_migrated pf (ic_database c) ''inventory'' of
        Panics m \<Rightarrow> (Panics m, k)
      | Returns d \<Rightarrow>
          (case open_producer pf (ic_kafka c) k of
             (Panics m, k1) \<Rightarrow> (Panics m, k1)
           | (Returns p, k1) \<Rightarrow>
               (Returns \<lparr>is_config = c, is_db = d, is_producer = p, is_poller = standard_poller,
                  is_consumer = consumer_for (ic_kafka c) (kc_topic (ic_kafka c)),
                  is_running = [RunsPoller standard_poller]\<rparr>, k1)))"

definition start_inventory_service :: "'p inventory_service \<Rightarrow> 'p inventory_service" where
  "start_inventory_service sc = sc\<lparr>is_running := is_running sc @
     (case is_consumer sc of None \<Rightarrow> [] | Some cf \<Rightarrow> [RunsConsumer cf])\<rparr>"

subsection \<open>user-rpc\<close>

text \<open>
  Redis only backs the cache here: without a host, or when it does not answer, the service runs without.  The poller
  starts with \<open>Start\<close>.  \<open>pf_redis\<close> gives the commands of a client.
\<close>

record ('p, 'c, 'r) user_service =
  uv_config :: user_rpc_config
  uv_db :: "'p sql_pool"
  uv_redis :: "'c option"
  uv_cache :: "'r cache"
  uv_producer :: producer
  uv_poller :: poller_config
  uv_running :: "goroutine list"

definition new_user_service ::
  "('g, 'p, 'c, 'k, 'kc, 'r, 'v) platform \<Rightarrow> user_rpc_config \<Rightarrow> 'k \<Rightarrow> ('p, 'c, 'r) user_service outcome \<times> 'k" where
  "new_user_service pf c k =
     (case open_migrated pf (uc_database c) ''user'' of
        Panics m \<Rightarrow> (Panics m, k)
      | Returns d \<Rightarrow>
          let r = (if rd_host (uc_redis_cache c) = '''' then None
                   else case open_redis (pf_new_client pf) (pf_ping pf) (uc_redis_cache c) of Inl err \<Rightarrow> None | Inr cl \<Rightarrow> Some cl)
          in (case open_producer pf (uc_kafka c) k of
                (Panics m, k1) \<Rightarrow> (Panics m, k1)
              | (Returns p, k1) \<Rightarrow>
                  (Returns \<lparr>uv_config = c, uv_db = d, uv_redis = r,
                     uv_cache = new_cache (map_option (pf_redis pf) r) ''user:validate:''
                       (ca_ttl (uc_cache c)) (ca_negative_ttl (uc_cache c)),
                     uv_producer = p, uv_poller = standard_poller, uv_running = []\<rparr>, k1)))"

definition start_user_service :: "('p, 'c, 'r) user_service \<Rightarrow> ('p, 'c, 'r) user_service" where
  "start_user_service sc = sc\<lparr>uv_running := uv_running sc @ [RunsPoller (uv_poller sc)]\<rparr>"

text \<open>A service that has no Redis, or cannot reach it, starts all the same, and its cache only ever loads.\<close>

lemma user_service_without_redis:
  assumes "new_user_service pf c k = (Returns sc, k1)"
    and "rd_host (uc_redis_cache c) = '''' \<or>
      pf_ping pf (pf_new_client pf (redis_addr (uc_redis_cache c)) (rd_password (uc_redis_cache c)) (rd_db (uc_redis_cache c))) \<noteq> None"
  shows "validate_user (Some (uv_cache sc)) i r s = validate_user None i r s"
proof -
  have "cc_redis (uv_cache sc) = None"
    using assms by (auto simp: new_user_service_def open_redis_def new_cache_def Let_def split: outcome.splits prod.splits if_splits)
  then show ?thesis by (simp add: validate_user_def get_or_load_def)
qed

text \<open>The goroutines of a started service: its poller, and a consumer for every topic that is configured.\<close>

lemma order_service_goroutines:
  assumes "new_order_service pf getenv c k = (Returns sc, k1)"
  shows "os_running (start_order_service sc) = RunsPoller standard_poller #
    (if kc_group_id (oc_kafka c) = '''' then []
     else map (\<lambda>t. RunsConsumer \<lparr>cf_brokers = kc_bootstrap_servers (oc_kafka c), cf_topic = t, cf_group = kc_group_id (oc_kafka c)\<rparr>)
       (filter (\<lambda>t. t \<noteq> '''') [kc_topic (oc_kafka c), kc_inventory_topic (oc_kafka c)]))"
  using assms
  by (auto simp: new_order_service_def start_order_service_def consumer_for_def split: outcome.splits sum.splits prod.splits)

end
