(* ===== verification/Lifecycle.thy ===== *)
theory Lifecycle
  imports Services
begin

text \<open>
  The life of the processes: the four \<open>main\<close> functions up to the point where the server takes over, and the
  shutdown listeners they register, which go-zero runs when the process is told to end.  The shutdown of a service is
  a list of actions; it runs beside the goroutines of the service and the requests its server is still serving, as a
  step relation.  The locale \<open>graceful\<close> is the contract of a shutdown: the context is cancelled, then the
  goroutines are waited for, then the connections they use are closed.  The three services that have goroutines interpret it.
\<close>

section \<open>Starting\<close>

text \<open>
  \<open>mode\<close> is the mode of the go-zero configuration; \<open>c\<close> is what \<open>conf.MustLoad\<close> has read.  The first result is what
  is printed, a failure that ends the process is \<open>Panics\<close>.
\<close>

definition order_main ::
  "('g, 'p, 'c, 'k, 'kc, 'r, 'v) platform \<Rightarrow> environ \<Rightarrow> string \<Rightarrow> order_api_config \<Rightarrow> 'k \<Rightarrow>
   string list \<times> ('p, 'c) order_service outcome \<times> 'k" where
  "order_main pf getenv mode c k =
     (let cfg = order_api_apply_env getenv c in
      case ValidateSecrets mode [oc_access_secret cfg] of
        (Some err, printed) \<Rightarrow> (printed, Panics (error_text err), k)
      | (None, printed) \<Rightarrow>
          (case new_order_service pf getenv cfg k of
             (Panics m, k1) \<Rightarrow> (printed, Panics m, k1)
           | (Returns sc, k1) \<Rightarrow> (printed, Returns (start_order_service sc), k1)))"

definition user_rpc_main ::
  "('g, 'p, 'c, 'k, 'kc, 'r, 'v) platform \<Rightarrow> environ \<Rightarrow> user_rpc_config \<Rightarrow> 'k \<Rightarrow> ('p, 'c, 'r) user_service outcome \<times> 'k" where
  "user_rpc_main pf getenv c k =
     (case new_user_service pf (user_rpc_apply_env getenv c) k of
        (Panics m, k1) \<Rightarrow> (Panics m, k1)
      | (Returns sc, k1) \<Rightarrow> (Returns (start_user_service sc), k1))"

definition inventory_rpc_main ::
  "('g, 'p, 'c, 'k, 'kc, 'r, 'v) platform \<Rightarrow> environ \<Rightarrow> inventory_rpc_config \<Rightarrow> 'k \<Rightarrow> 'p inventory_service outcome \<times> 'k" where
  "inventory_rpc_main pf getenv c k =
     (case new_inventory_service pf (inventory_rpc_apply_env getenv c) k of
        (Panics m, k1) \<Rightarrow> (Panics m, k1)
      | (Returns sc, k1) \<Rightarrow> (Returns (start_inventory_service sc), k1))"

text \<open>The user gateway connects to nothing when it starts: its Redis client is go-zero's and its rpc client does not block.\<close>

record user_gateway =
  ug_config :: user_api_config
  ug_rpc :: rpc_client_conf
  ug_limit :: "int \<times> int \<times> string"

definition new_user_gateway :: "user_api_config \<Rightarrow> user_gateway" where
  "new_user_gateway c =
     \<lparr>ug_config = c, ug_rpc = RpcClientConf (ac_user_svc c), ug_limit = (1, second * 3, ''ratelimit:user-api:'')\<rparr>"

definition user_api_main :: "environ \<Rightarrow> string \<Rightarrow> user_api_config \<Rightarrow> string list \<times> user_gateway outcome" where
  "user_api_main getenv mode c =
     (let cfg = user_api_apply_env getenv c in
      case ValidateSecrets mode [ac_access_secret cfg] of
        (Some err, printed) \<Rightarrow> (printed, Panics (error_text err))
      | (None, printed) \<Rightarrow> (printed, Returns (new_user_gateway cfg)))"

section \<open>Stopping\<close>

datatype part = Producer | RpcConn | Database | RedisConn

datatype stop_action = CancelCtx | WaitGroup | Close part | CancelMain

text \<open>\<open>Stop\<close> of the service contexts: cancel, \<open>wg.Wait\<close>, close the producer.\<close>

definition stop_service :: "stop_action list" where
  "stop_service = [CancelCtx, WaitGroup, Close Producer]"

definition stop_user_gateway :: "stop_action list" where
  "stop_user_gateway = [Close RpcConn]"

text \<open>
  The listeners.  \<open>pool_err\<close> is an error of \<open>DB.DB()\<close>: the pool is closed only without one; user-rpc closes Redis
  only when it has it.
\<close>

definition close_pool :: "go_error option \<Rightarrow> stop_action list" where
  "close_pool pool_err = (if pool_err = None then [Close Database] else [])"

definition order_shutdown :: "go_error option \<Rightarrow> stop_action list" where
  "order_shutdown pool_err = stop_service @ [Close RpcConn] @ close_pool pool_err @ [Close RedisConn, CancelMain]"

definition user_rpc_shutdown :: "go_error option \<Rightarrow> 'c option \<Rightarrow> stop_action list" where
  "user_rpc_shutdown pool_err redis =
     stop_service @ close_pool pool_err @ (if redis \<noteq> None then [Close RedisConn] else [])"

definition inventory_rpc_shutdown :: "go_error option \<Rightarrow> stop_action list" where
  "inventory_rpc_shutdown pool_err = stop_service @ close_pool pool_err"

subsection \<open>The process while it starts and stops\<close>

text \<open>
  A goroutine and how far it is: at the \<open>select\<close> of its loop, in a turn of the loop, or returned with its deferred calls still to
  run.  What is used by whom is recorded with whether it was closed by then.  A poller reads the outbox and publishes; a
  consumer works on the database (its Kafka reader is its own and it closes it itself).
\<close>

datatype actor = Background goroutine | Request

datatype place = AtSelect | InTurn | Returned

fun goroutine_parts :: "goroutine \<Rightarrow> part list" where
  "goroutine_parts (RunsPoller cfg) = [Database, Producer]"
| "goroutine_parts (RunsConsumer cfg) = [Database]"

text \<open>
  \<open>lf_starting\<close> is what \<open>main\<close> has still to start; \<open>lf_wg\<close> is the counter of the \<open>sync.WaitGroup\<close>; \<open>lf_todo\<close> is what the
  listener has still to do.
\<close>

record life =
  lf_starting :: "goroutine list"
  lf_running :: "(goroutine \<times> place) list"
  lf_wg :: nat
  lf_serving :: bool
  lf_cancelled :: bool
  lf_todo :: "stop_action list"
  lf_closed :: "part list"
  lf_uses :: "(actor \<times> part \<times> bool) list"

text \<open>\<open>wg.Add(1)\<close> and the goroutine, for a poller and for a consumer.\<close>

definition start_poller :: "poller_config \<Rightarrow> life \<Rightarrow> life" where
  "start_poller cfg s = s\<lparr>lf_wg := lf_wg s + 1, lf_running := lf_running s @ [(RunsPoller cfg, AtSelect)]\<rparr>"

definition start_consumer :: "consumer_config \<Rightarrow> life \<Rightarrow> life" where
  "start_consumer cfg s = s\<lparr>lf_wg := lf_wg s + 1, lf_running := lf_running s @ [(RunsConsumer cfg, AtSelect)]\<rparr>"

fun start_goroutine :: "goroutine \<Rightarrow> life \<Rightarrow> life" where
  "start_goroutine (RunsPoller cfg) s = start_poller cfg s"
| "start_goroutine (RunsConsumer cfg) s = start_consumer cfg s"

text \<open>
  May a goroutine begin a turn?  A consumer looks at \<open>ctx\<close> first.  A poller selects between \<open>ctx\<close> and its timer, and Go
  chooses at random when both are ready, so it may tick once more.
\<close>

fun may_turn :: "goroutine \<Rightarrow> bool \<Rightarrow> bool" where
  "may_turn (RunsPoller cfg) cancelled = True"
| "may_turn (RunsConsumer cfg) cancelled = (\<not> cancelled)"

text \<open>
  And where may it return, once \<open>ctx\<close> is done?  At the \<open>select\<close>; a consumer also after a fetch that \<open>ctx\<close> has
  cancelled, or while it waits after one that failed.
\<close>

fun may_return :: "goroutine \<Rightarrow> place \<Rightarrow> bool" where
  "may_return g AtSelect = True"
| "may_return (RunsConsumer cfg) InTurn = True"
| "may_return g pl = False"

fun do_action :: "stop_action \<Rightarrow> life \<Rightarrow> life" where
  "do_action CancelCtx s = s\<lparr>lf_cancelled := True\<rparr>"
| "do_action WaitGroup s = s"
| "do_action (Close p) s = s\<lparr>lf_closed := p # lf_closed s\<rparr>"
| "do_action CancelMain s = s\<lparr>lf_cancelled := True\<rparr>"

text \<open>
  \<open>main\<close> starts the goroutines before it registers the listener.  A goroutine uses its parts in a turn of its loop; it
  returns only when its context is done, at the \<open>select\<close> or from a fetch that was cancelled (\<open>consume_loop\<close>, \<open>poll_loop\<close>; a
  panic in a turn is recovered), and then its deferred \<open>wg.Done\<close> runs.  Requests use what the server has until the
  server stops, which is up to go-zero and not to the listener.  The listener takes its next action; \<open>wg.Wait\<close>
  returns when the counter is zero.
\<close>

inductive life_step :: "part list \<Rightarrow> life \<Rightarrow> life \<Rightarrow> bool" for parts :: "part list" where
  starts: "lf_starting s = g # gs \<Longrightarrow> life_step parts s (start_goroutine g (s\<lparr>lf_starting := gs\<rparr>))"
| turns: "i < length (lf_running s) \<Longrightarrow> lf_running s ! i = (g, AtSelect) \<Longrightarrow> may_turn g (lf_cancelled s) \<Longrightarrow>
    life_step parts s (s\<lparr>lf_running := (lf_running s)[i := (g, InTurn)]\<rparr>)"
| works: "(g, InTurn) \<in> set (lf_running s) \<Longrightarrow> p \<in> set (goroutine_parts g) \<Longrightarrow>
    life_step parts s (s\<lparr>lf_uses := lf_uses s @ [(Background g, p, p \<in> set (lf_closed s))]\<rparr>)"
| loops: "i < length (lf_running s) \<Longrightarrow> lf_running s ! i = (g, InTurn) \<Longrightarrow>
    life_step parts s (s\<lparr>lf_running := (lf_running s)[i := (g, AtSelect)]\<rparr>)"
| returns: "i < length (lf_running s) \<Longrightarrow> lf_running s ! i = (g, pl) \<Longrightarrow> may_return g pl \<Longrightarrow> lf_cancelled s \<Longrightarrow>
    life_step parts s (s\<lparr>lf_running := (lf_running s)[i := (g, Returned)]\<rparr>)"
| is_done: "(g, Returned) \<in> set (lf_running s) \<Longrightarrow>
    life_step parts s (s\<lparr>lf_running := remove1 (g, Returned) (lf_running s), lf_wg := lf_wg s - 1\<rparr>)"
| serves: "lf_serving s \<Longrightarrow> p \<in> set parts \<Longrightarrow>
    life_step parts s (s\<lparr>lf_uses := lf_uses s @ [(Request, p, p \<in> set (lf_closed s))]\<rparr>)"
| server_stops: "lf_serving s \<Longrightarrow> life_step parts s (s\<lparr>lf_serving := False\<rparr>)"
| stops: "lf_starting s = [] \<Longrightarrow> lf_todo s = a # rest \<Longrightarrow> a = WaitGroup \<longrightarrow> lf_wg s = 0 \<Longrightarrow>
    life_step parts s (do_action a (s\<lparr>lf_todo := rest\<rparr>))"

inductive_cases life_stepE: "life_step parts s s'"

text \<open>A service before \<open>main\<close> starts its goroutines.\<close>

definition life_of :: "goroutine list \<Rightarrow> stop_action list \<Rightarrow> life" where
  "life_of starting shutdown = \<lparr>lf_starting = starting, lf_running = [], lf_wg = 0, lf_serving = True, lf_cancelled = False,
     lf_todo = shutdown, lf_closed = [], lf_uses = []\<rparr>"

lemma start_goroutine_eq:
  "start_goroutine g s = s\<lparr>lf_wg := lf_wg s + 1, lf_running := lf_running s @ [(g, AtSelect)]\<rparr>"
  by (cases g) (simp_all add: start_poller_def start_consumer_def)

text \<open>The counter counts the goroutines; what is still to be closed or closed already never changes.\<close>

definition closing :: "life \<Rightarrow> part set" where
  "closing s = set (lf_closed s) \<union> {p. Close p \<in> set (lf_todo s)}"

definition counted :: "life \<Rightarrow> bool" where
  "counted s \<longleftrightarrow> lf_wg s = length (lf_running s)"

lemma do_action_keeps [simp]:
  "lf_running (do_action a s) = lf_running s" "lf_wg (do_action a s) = lf_wg s" "lf_starting (do_action a s) = lf_starting s"
  "lf_todo (do_action a s) = lf_todo s" "lf_uses (do_action a s) = lf_uses s"
  "set (lf_closed (do_action a s)) = set (lf_closed s) \<union> {p. Close p = a}"
  by (cases a; auto)+

lemma counted_step: "counted s \<Longrightarrow> life_step parts s s' \<Longrightarrow> counted s'"
  by (erule life_stepE) (auto simp: counted_def start_goroutine_eq length_remove1)

lemma closing_step: "life_step parts s s' \<Longrightarrow> closing s' = closing s"
  by (erule life_stepE) (auto simp: closing_def start_goroutine_eq)

lemma closing_steps: "rtranclp (life_step parts) s s' \<Longrightarrow> closing s' = closing s"
  by (induction rule: rtranclp_induct) (auto dest: closing_step)

text \<open>All goroutines can be started; with the context cancelled all can end; with none left all actions can be taken.\<close>

lemma all_start:
  "counted s \<Longrightarrow> \<exists>s'. rtranclp (life_step parts) s s' \<and> lf_starting s' = [] \<and> lf_todo s' = lf_todo s \<and> counted s'"
proof (induction "lf_starting s" arbitrary: s)
  case (Cons g gs)
  let ?s = "start_goroutine g (s\<lparr>lf_starting := gs\<rparr>)"
  have step: "life_step parts s ?s" using Cons.hyps(2) by (intro life_step.starts) simp
  from counted_step [OF Cons.prems step] have "\<exists>s'. rtranclp (life_step parts) ?s s' \<and> lf_starting s' = [] \<and> lf_todo s' = lf_todo ?s \<and> counted s'"
    by (intro Cons.hyps(1)) (simp_all add: start_goroutine_eq)
  with step show ?case by (auto simp: start_goroutine_eq intro: converse_rtranclp_into_rtranclp)
qed auto

lemma one_ends:
  assumes "lf_cancelled s" "lf_running s = (g, pl) # gs"
  shows "rtranclp (life_step parts) s (s\<lparr>lf_running := gs, lf_wg := lf_wg s - 1\<rparr>)"
proof -
  let ?at = "\<lambda>x. s\<lparr>lf_running := (g, x) # gs\<rparr>"
  have "life_step parts (?at InTurn) (?at AtSelect)"
    using life_step.loops [of 0 "?at InTurn" g parts] by simp
  moreover have "life_step parts (?at AtSelect) (?at Returned)"
    using life_step.returns [of 0 "?at AtSelect" g AtSelect parts] assms(1) by simp
  moreover have "life_step parts (?at Returned) (s\<lparr>lf_running := gs, lf_wg := lf_wg s - 1\<rparr>)"
    using life_step.is_done [of g "?at Returned" parts] by simp
  moreover have "s = ?at pl" using assms(2) by simp
  ultimately show ?thesis by (cases pl) (metis converse_rtranclp_into_rtranclp rtranclp.rtrancl_refl)+
qed

lemma all_end:
  "lf_cancelled s \<Longrightarrow> counted s \<Longrightarrow> \<exists>s'. rtranclp (life_step parts) s s' \<and> lf_running s' = [] \<and> counted s' \<and>
     lf_starting s' = lf_starting s"
proof (induction "lf_running s" arbitrary: s)
  case (Cons x gs)
  obtain g pl where x: "x = (g, pl)" by (cases x)
  let ?s = "s\<lparr>lf_running := gs, lf_wg := lf_wg s - 1\<rparr>"
  have "rtranclp (life_step parts) s ?s" using Cons x by (intro one_ends [of _ g pl]) simp_all
  moreover have "counted ?s" using Cons.prems(2) by (simp add: counted_def flip: Cons.hyps(2))
  then have "\<exists>s'. rtranclp (life_step parts) ?s s' \<and> lf_running s' = [] \<and> counted s' \<and> lf_starting s' = lf_starting ?s"
    using Cons.prems(1) by (intro Cons.hyps(1)) simp_all
  ultimately show ?case by (auto intro: rtranclp_trans)
qed auto

lemma all_done:
  "lf_starting s = [] \<Longrightarrow> lf_wg s = 0 \<Longrightarrow> lf_running s = [] \<Longrightarrow>
   \<exists>s'. rtranclp (life_step parts) s s' \<and> lf_todo s' = [] \<and> lf_running s' = []"
proof (induction "lf_todo s" arbitrary: s)
  case (Cons a rest)
  let ?s = "do_action a (s\<lparr>lf_todo := rest\<rparr>)"
  have "life_step parts s ?s" using Cons.prems Cons.hyps(2) by (intro life_step.stops) simp_all
  moreover have "rest = lf_todo ?s" "lf_running ?s = []" "lf_starting ?s = []" "lf_wg ?s = 0" using Cons.prems by (cases a; simp)+
  with Cons.hyps(1) have "\<exists>s'. rtranclp (life_step parts) ?s s' \<and> lf_todo s' = [] \<and> lf_running s' = []" by blast
  ultimately show ?case by (meson converse_rtranclp_into_rtranclp)
qed auto

subsection \<open>The contract of a shutdown\<close>

text \<open>Before the wait, the context is cancelled and nothing is closed.\<close>

locale graceful =
  fixes shutdown :: "stop_action list"
  assumes waits: "takeWhile (\<lambda>a. a \<noteq> WaitGroup) shutdown = [CancelCtx]" "WaitGroup \<in> set shutdown"
begin

lemma split: "\<exists>rest. shutdown = CancelCtx # WaitGroup # rest"
proof -
  have "shutdown = [CancelCtx] @ dropWhile (\<lambda>a. a \<noteq> WaitGroup) shutdown"
    using takeWhile_dropWhile_id [of "\<lambda>a. a \<noteq> WaitGroup" shutdown] waits(1) by simp
  moreover obtain b rest where "dropWhile (\<lambda>a. a \<noteq> WaitGroup) shutdown = b # rest"
    using waits(2) by (cases "dropWhile (\<lambda>a. a \<noteq> WaitGroup) shutdown") (auto simp: dropWhile_eq_Nil_conv)
  moreover from this have "b = WaitGroup"
    using hd_dropWhile [of "\<lambda>a. a \<noteq> WaitGroup" shutdown] by simp
  ultimately show ?thesis by auto
qed

text \<open>
  While a goroutine runs, or is still to be started, the wait is ahead and nothing has been closed; so no use of a goroutine is
  of a closed part, and a request finds one only when no goroutine runs any more.
\<close>

definition before_wait :: "life \<Rightarrow> bool" where
  "before_wait s \<longleftrightarrow> (lf_todo s = shutdown \<or> CancelCtx # lf_todo s = shutdown \<and> lf_cancelled s \<and> lf_starting s = []) \<and>
     lf_closed s = [] \<and> (\<forall>(a, p, c) \<in> set (lf_uses s). \<not> c)"

definition after_wait :: "life \<Rightarrow> bool" where
  "after_wait s \<longleftrightarrow> (\<exists>before. before @ lf_todo s = shutdown \<and> WaitGroup \<in> set before) \<and> lf_cancelled s \<and> lf_running s = [] \<and>
     lf_starting s = [] \<and> (\<forall>(a, p, c) \<in> set (lf_uses s). a \<noteq> Request \<longrightarrow> \<not> c)"

definition inv :: "life \<Rightarrow> bool" where
  "inv s \<longleftrightarrow> counted s \<and> (before_wait s \<or> after_wait s)"

lemma inv_initial: "inv (life_of starting shutdown)"
  by (simp add: inv_def counted_def before_wait_def life_of_def)

lemma before_stops:
  assumes "counted s" "before_wait s" "lf_starting s = []" "lf_todo s = a # rest" "a = WaitGroup \<longrightarrow> lf_wg s = 0"
  shows "before_wait (do_action a (s\<lparr>lf_todo := rest\<rparr>)) \<or> after_wait (do_action a (s\<lparr>lf_todo := rest\<rparr>))"
proof -
  obtain tl where tl: "shutdown = CancelCtx # WaitGroup # tl" using split by blast
  from assms(2) consider "lf_todo s = shutdown" | "CancelCtx # lf_todo s = shutdown" "lf_cancelled s"
    by (auto simp: before_wait_def)
  then show ?thesis
  proof cases
    case 1
    with assms(4) tl have "a = CancelCtx" "CancelCtx # rest = shutdown" by simp_all
    with assms(2,3) show ?thesis unfolding before_wait_def by simp
  next
    case 2
    with assms(4) tl have a: "a = WaitGroup" "rest = tl" by simp_all
    with assms(1,5) have "lf_running s = []" by (simp add: counted_def)
    moreover have "[CancelCtx, WaitGroup] @ tl = shutdown" "WaitGroup \<in> set [CancelCtx, WaitGroup]" using tl by simp_all
    ultimately have "after_wait (do_action a (s\<lparr>lf_todo := rest\<rparr>))"
      using assms(2,3) 2 a unfolding after_wait_def before_wait_def by (auto simp del: append.simps)
    then show ?thesis ..
  qed
qed

lemma after_stops:
  assumes "after_wait s" "lf_todo s = a # rest"
  shows "after_wait (do_action a (s\<lparr>lf_todo := rest\<rparr>))"
proof -
  from assms obtain before where "(before @ [a]) @ rest = shutdown" "WaitGroup \<in> set (before @ [a])" by (auto simp: after_wait_def)
  with assms(1) show ?thesis unfolding after_wait_def by (cases a) auto
qed

lemma inv_step:
  assumes "inv s" "life_step parts s s'"
  shows "inv s'"
proof -
  have "counted s'" using counted_step [OF _ assms(2)] assms(1) by (simp add: inv_def)
  moreover have "before_wait s' \<or> after_wait s'"
    using assms(2)
  proof cases
    case (stops a rest)
    with before_stops [of s a rest] after_stops [of s a rest] assms(1) show ?thesis unfolding inv_def by blast
  next
    case (starts g gs)
    with assms(1) show ?thesis by (auto simp: inv_def before_wait_def after_wait_def start_goroutine_eq)
  next
    case (works g p)
    with assms(1) show ?thesis by (auto simp: inv_def before_wait_def after_wait_def)
  qed (use assms(1) in \<open>auto simp: inv_def before_wait_def after_wait_def\<close>)
  ultimately show ?thesis by (simp add: inv_def)
qed

lemma reachable_inv: "rtranclp (life_step parts) (life_of starting shutdown) s \<Longrightarrow> inv s"
  by (induction rule: rtranclp_induct) (auto intro: inv_initial inv_step)

lemma safe:
  assumes "rtranclp (life_step parts) (life_of starting shutdown) s" "(a, p, True) \<in> set (lf_uses s)"
  shows "a = Request \<and> lf_running s = [] \<and> lf_starting s = []"
  using reachable_inv [OF assms(1)] assms(2) by (auto simp: inv_def before_wait_def after_wait_def)

lemma closes_late:
  assumes "rtranclp (life_step parts) (life_of starting shutdown) s" "lf_closed s \<noteq> []"
  shows "lf_running s = [] \<and> lf_starting s = []"
  using reachable_inv [OF assms(1)] assms(2) by (auto simp: inv_def before_wait_def after_wait_def)

text \<open>And the shutdown can always go on to its end.\<close>

lemma can_finish:
  assumes "rtranclp (life_step parts) (life_of starting shutdown) s"
  shows "\<exists>s'. rtranclp (life_step parts) s s' \<and> lf_todo s' = [] \<and> lf_running s' = [] \<and>
    set (lf_closed s') = {p. Close p \<in> set shutdown}"
proof -
  have "counted s" using reachable_inv [OF assms] by (simp add: inv_def)
  from all_start [OF this] obtain s0 where s0: "rtranclp (life_step parts) s s0" "lf_starting s0 = []" "counted s0" by blast
  then have inv0: "inv s0" using assms reachable_inv by (meson rtranclp_trans)
  obtain s1 where s1: "rtranclp (life_step parts) s0 s1" "lf_cancelled s1" "lf_starting s1 = []"
  proof (cases "lf_cancelled s0")
    case False
    with inv0 have "lf_todo s0 = shutdown" by (auto simp: inv_def before_wait_def after_wait_def)
    with split obtain rest where "lf_todo s0 = CancelCtx # rest" by auto
    then have "life_step parts s0 (do_action CancelCtx (s0\<lparr>lf_todo := rest\<rparr>))" by (intro life_step.stops s0(2)) simp_all
    then show thesis by (intro that [of "do_action CancelCtx (s0\<lparr>lf_todo := rest\<rparr>)"]) (use s0(2) in simp_all)
  qed (use that s0(2) in blast)
  have "counted s1" using assms s0(1) s1(1) reachable_inv unfolding inv_def by (meson rtranclp_trans)
  from all_end [OF s1(2) this] obtain s2 where s2: "rtranclp (life_step parts) s1 s2" "lf_running s2 = []" "counted s2" "lf_starting s2 = []"
    using s1(3) by auto
  then have "lf_wg s2 = 0" by (simp add: counted_def)
  from all_done [OF s2(4) this s2(2)] obtain s3 where s3: "rtranclp (life_step parts) s2 s3" "lf_todo s3 = []" "lf_running s3 = []" by blast
  have run: "rtranclp (life_step parts) s s3" using s0(1) s1(1) s2(1) s3(1) by (meson rtranclp_trans)
  with assms have "rtranclp (life_step parts) (life_of starting shutdown) s3" by (meson rtranclp_trans)
  from closing_steps [OF this] s3 have "set (lf_closed s3) = {p. Close p \<in> set shutdown}"
    by (simp add: life_of_def closing_def)
  with run s3 show ?thesis by blast
qed

lemma in_order:
  assumes "rtranclp (life_step parts) (life_of starting shutdown) s"
  shows "(\<forall>a p. (a, p, True) \<in> set (lf_uses s) \<longrightarrow> a = Request \<and> lf_running s = [] \<and> lf_starting s = []) \<and>
    (lf_closed s \<noteq> [] \<longrightarrow> lf_running s = []) \<and>
    (\<exists>s'. rtranclp (life_step parts) s s' \<and> lf_todo s' = [] \<and> lf_running s' = [] \<and>
       set (lf_closed s') = {p. Close p \<in> set shutdown})"
  using safe [OF assms] closes_late [OF assms] can_finish [OF assms] by blast

end

interpretation order_stop: graceful "order_shutdown pool_err"
  by unfold_locales (simp_all add: order_shutdown_def stop_service_def)

interpretation user_rpc_stop: graceful "user_rpc_shutdown pool_err redis"
  by unfold_locales (simp_all add: user_rpc_shutdown_def stop_service_def)

interpretation inventory_rpc_stop: graceful "inventory_rpc_shutdown pool_err"
  by unfold_locales (simp_all add: inventory_rpc_shutdown_def stop_service_def)

section \<open>Properties\<close>

text \<open>
  C37: services stop their pollers and consumers in order.  However the goroutines that a service starts for them, its requests and the
  shutdown listener interleave: nothing is closed while such a goroutine runs, so none ever uses the producer or the
  database after it was closed; the listener is never stuck, from every state it can still reach its end; and then no such
  goroutine runs and exactly the connections on its list are closed.  The requests of the server are not waited
  for: whoever uses something closed is a request, when all pollers and consumers have ended (and it happens:
  \<open>request_finds_closed\<close>).
\<close>

theorem shutdown_in_order:
  assumes "shutdown \<in> {order_shutdown pool_err, user_rpc_shutdown pool_err redis, inventory_rpc_shutdown pool_err}"
    and "rtranclp (life_step parts) (life_of starting shutdown) s"
  shows "(\<forall>a p. (a, p, True) \<in> set (lf_uses s) \<longrightarrow> a = Request \<and> lf_running s = [] \<and> lf_starting s = []) \<and>
    (lf_closed s \<noteq> [] \<longrightarrow> lf_running s = []) \<and>
    (\<exists>s'. rtranclp (life_step parts) s s' \<and> lf_todo s' = [] \<and> lf_running s' = [] \<and>
       set (lf_closed s') = {p. Close p \<in> set shutdown})"
proof -
  from assms(1) consider "shutdown = order_shutdown pool_err" | "shutdown = user_rpc_shutdown pool_err redis"
    | "shutdown = inventory_rpc_shutdown pool_err" by blast
  then show ?thesis
  proof cases
    case 1
    show ?thesis using assms(2) unfolding 1 by (rule order_stop.in_order)
  next
    case 2
    show ?thesis using assms(2) unfolding 2 by (rule user_rpc_stop.in_order)
  next
    case 3
    show ?thesis using assms(2) unfolding 3 by (rule inventory_rpc_stop.in_order)
  qed
qed

lemma four_steps:
  assumes "r a b" "r b c" "r c d" "r d e"
  shows "rtranclp r a e"
proof -
  have "rtranclp r a b" using assms(1) by blast
  also from assms(2) have "rtranclp r b c" by blast
  also from assms(3) have "rtranclp r c d" by blast
  also from assms(4) have "rtranclp r d e" by blast
  finally show ?thesis .
qed

text \<open>A poller of order-api that is in a turn when the listener cancels its context.\<close>

definition poller_in_turn :: life where
  "poller_in_turn = \<lparr>lf_starting = [], lf_running = [(RunsPoller standard_poller, InTurn)], lf_wg = 1, lf_serving = True,
     lf_cancelled = True, lf_todo = tl (order_shutdown None), lf_closed = [], lf_uses = [(Background (RunsPoller standard_poller), Producer, False)]\<rparr>"

lemma poller_in_turn_reached:
  "rtranclp (life_step [Database]) (life_of [RunsPoller standard_poller] (order_shutdown None)) poller_in_turn"
proof -
  let ?g = "RunsPoller standard_poller" and ?todo = "order_shutdown None"
  let ?s0 = "life_of [?g] ?todo"
  let ?s1 = "start_goroutine ?g (?s0\<lparr>lf_starting := []\<rparr>)"
  let ?s2 = "?s1\<lparr>lf_running := (lf_running ?s1)[0 := (?g, InTurn)]\<rparr>"
  let ?s3 = "?s2\<lparr>lf_uses := lf_uses ?s2 @ [(Background ?g, Producer, Producer \<in> set (lf_closed ?s2))]\<rparr>"
  let ?s4 = "do_action CancelCtx (?s3\<lparr>lf_todo := tl ?todo\<rparr>)"
  have 1: "life_step [Database] ?s0 ?s1" by (rule life_step.starts) (simp add: life_of_def)
  have 2: "life_step [Database] ?s1 ?s2" by (rule life_step.turns) (simp_all add: life_of_def start_goroutine_eq)
  have 3: "life_step [Database] ?s2 ?s3" by (rule life_step.works) (simp_all add: life_of_def start_goroutine_eq)
  have 4: "life_step [Database] ?s3 ?s4"
    by (rule life_step.stops) (simp_all add: life_of_def start_goroutine_eq order_shutdown_def stop_service_def)
  have "rtranclp (life_step [Database]) ?s0 ?s4"
    by (rule four_steps [where r = "life_step [Database]", OF 1 2 3 4])
  moreover have "?s4 = poller_in_turn" by (simp add: poller_in_turn_def life_of_def start_goroutine_eq)
  ultimately show ?thesis by simp
qed

lemma shutdown_in_order_witness:
  "\<exists>s'. rtranclp (life_step [Database]) poller_in_turn s' \<and> lf_todo s' = [] \<and> lf_running s' = [] \<and>
     set (lf_closed s') = {Producer, RpcConn, Database, RedisConn}"
proof -
  have "order_shutdown None \<in> {order_shutdown None, user_rpc_shutdown None (None :: nat option), inventory_rpc_shutdown None}"
    by simp
  from shutdown_in_order [OF this poller_in_turn_reached] obtain s' where
    "rtranclp (life_step [Database]) poller_in_turn s'" "lf_todo s' = []" "lf_running s' = []"
    "set (lf_closed s') = {p. Close p \<in> set (order_shutdown None)}" by blast
  moreover have "{p. Close p \<in> set (order_shutdown None)} = {Producer, RpcConn, Database, RedisConn}"
    by (auto simp: order_shutdown_def stop_service_def close_pool_def)
  ultimately show ?thesis by auto
qed

text \<open>
  Requests are not waited for: the listener does not stop the server, so a request that is still served may find the
  database closed.
\<close>

lemma request_finds_closed:
  assumes "Database \<in> set parts"
  shows "\<exists>s. rtranclp (life_step parts) (life_of [] (inventory_rpc_shutdown None)) s \<and> (Request, Database, True) \<in> set (lf_uses s)"
proof -
  have "\<exists>s. rtranclp (life_step parts) (life_of [] (inventory_rpc_shutdown None)) s \<and> lf_serving s \<and> Database \<in> set (lf_closed s)"
  proof -
    let ?s0 = "life_of [] (inventory_rpc_shutdown None)"
    let ?s1 = "do_action CancelCtx (?s0\<lparr>lf_todo := [WaitGroup, Close Producer, Close Database]\<rparr>)"
    let ?s2 = "do_action WaitGroup (?s1\<lparr>lf_todo := [Close Producer, Close Database]\<rparr>)"
    let ?s3 = "do_action (Close Producer) (?s2\<lparr>lf_todo := [Close Database]\<rparr>)"
    let ?s4 = "do_action (Close Database) (?s3\<lparr>lf_todo := []\<rparr>)"
    have "life_step parts ?s0 ?s1" "life_step parts ?s1 ?s2" "life_step parts ?s2 ?s3" "life_step parts ?s3 ?s4"
      by (rule life_step.stops; simp add: life_of_def inventory_rpc_shutdown_def stop_service_def close_pool_def)+
    then have "rtranclp (life_step parts) ?s0 ?s4" by (meson converse_rtranclp_into_rtranclp rtranclp.rtrancl_refl)
    then show ?thesis by (intro exI [of _ ?s4]) (simp add: life_of_def)
  qed
  then obtain s where s: "rtranclp (life_step parts) (life_of [] (inventory_rpc_shutdown None)) s" "lf_serving s"
    "Database \<in> set (lf_closed s)" by blast
  from life_step.serves [OF s(2) assms] s show ?thesis
    by (intro exI [of _ "s\<lparr>lf_uses := lf_uses s @ [(Request, Database, Database \<in> set (lf_closed s))]\<rparr>"])
      (auto intro: rtranclp.rtrancl_into_rtrancl)
qed

text \<open>
  A gateway does not start unsafely.  In the modes for production, no gateway comes up with an empty token secret or
  with the default one of the configuration; it ends before it connects to anything.
\<close>

theorem start_needs_secret:
  assumes "mode \<in> {''pro'', ''pre''}" "env_string getenv ''JWT_SECRET'' secret \<in> set defaultSecrets"
  shows "(\<forall>(c :: order_api_config) k. oc_access_secret c = secret \<longrightarrow>
      (\<exists>m. order_main pf getenv mode c k = ([], Panics m, k))) \<and>
    (\<forall>c. ac_access_secret c = secret \<longrightarrow> (\<exists>m. user_api_main getenv mode c = ([], Panics m)))"
proof -
  let ?s = "env_string getenv ''JWT_SECRET'' secret"
  from secrets_checked [of mode "[?s]"] assms
  have "fst (ValidateSecrets mode [?s]) \<noteq> None" "snd (ValidateSecrets mode [?s]) = []" by auto
  then obtain err where "ValidateSecrets mode [?s] = (Some err, [])"
    by (cases "ValidateSecrets mode [?s]") auto
  then show ?thesis
    by (auto simp: order_main_def user_api_main_def order_api_apply_env_def user_api_apply_env_def)
qed

text \<open>An environment in which everything answers.\<close>

definition sample_platform :: "(unit, unit, unit, unit, unit, unit, string list) platform" where
  "sample_platform = \<lparr>pf_gorm_open = (\<lambda>_ _. Inr ()), pf_sql_db = (\<lambda>_. Inr ()), pf_open_db = (\<lambda>_. Inr ()), pf_goose = \<lparr>gp_new = (\<lambda>_. Inr), gp_up = Inr\<rparr>,
     pf_new_client = (\<lambda>_ _ _. ()), pf_ping = (\<lambda>_. None),
     pf_kafka = \<lparr>ka_dial = (\<lambda>_ k. (Inr (), k)), ka_controller = (\<lambda>_ k. (Inr (''kafka'', 9092), k)),
       ka_create = (\<lambda>_ _ k. (None, k)), ka_close = (\<lambda>_ k. k)\<rparr>,
     pf_redis = (\<lambda>_. \<lparr>rc_get = (\<lambda>_ r. (Inl RedisNil, r)), rc_set = (\<lambda>_ _ _ r. (Inr (), r)),
       rc_setnx = (\<lambda>_ _ _ r. (Inr True, r)), rc_del = (\<lambda>_ r. (Inr (), r))\<rparr>)\<rparr>"

definition sample_order_config :: order_api_config where
  "sample_order_config = \<lparr>oc_access_secret = ''change-me-in-production'', oc_access_expire = 86400, oc_telemetry_endpoint = '''',
     oc_database = (uc_database sample_user_rpc_config)\<lparr>dc_db_name := ''orders_db''\<rparr>,
     oc_user_svc = \<lparr>us_etcd = \<lparr>et_hosts = [], et_key = ''''\<rparr>, us_endpoints = [], us_timeout = 2000\<rparr>,
     oc_redis = uc_redis_cache sample_user_rpc_config, oc_cors = [''*''],
     oc_kafka = \<lparr>kc_bootstrap_servers = [''kafka:9092''], kc_group_id = ''order-api'', kc_topic = ''user-events'',
       kc_inventory_topic = ''inventory-events''\<rparr>\<rparr>"

lemma start_needs_secret_witness:
  "(\<exists>m. order_main sample_platform (\<lambda>_. '''') ''pro'' sample_order_config () = ([], Panics m, ())) \<and>
   (\<exists>sc. order_main sample_platform (\<lambda>v. if v = ''JWT_SECRET'' then ''s3cret'' else '''') ''pro'' sample_order_config () =
      ([], Returns sc, ()) \<and> length (os_running sc) = 3)"
proof
  have "env_string (\<lambda>_. '''') ''JWT_SECRET'' ''change-me-in-production'' \<in> set defaultSecrets"
    by (simp add: env_string_def defaultSecrets_def)
  from start_needs_secret [OF _ this, of "''pro''" sample_platform]
  show "\<exists>m. order_main sample_platform (\<lambda>_. '''') ''pro'' sample_order_config () = ([], Panics m, ())"
    by (simp add: sample_order_config_def)
  show "\<exists>sc. order_main sample_platform (\<lambda>v. if v = ''JWT_SECRET'' then ''s3cret'' else '''') ''pro'' sample_order_config () =
      ([], Returns sc, ()) \<and> length (os_running sc) = 3"
  proof -
    let ?r = "order_main sample_platform (\<lambda>v. if v = ''JWT_SECRET'' then ''s3cret'' else '''') ''pro'' sample_order_config ()"
    have "fst ?r = [] \<and> (case fst (snd ?r) of Panics m \<Rightarrow> False | Returns sc \<Rightarrow> length (os_running sc) = 3)"
      by code_simp
    then show ?thesis by (cases ?r) (auto split: outcome.splits)
  qed
qed

end
