(* ===== verification/LockOrder.thy ===== *)
theory LockOrder
  imports InventoryRepo
begin

text \<open>
  The two orders in which \<open>Reserve\<close> takes its locks, and \<open>Release\<close>, as transactions that interleave statement by
  statement.  The comments and \<open>docs/troubleshooting/database-deadlock.md\<close> say that the order of \<open>reserveOrdered\<close> cannot
  deadlock and that of \<open>reserveReversed\<close> does; in the model each can, in another situation.  Only the locks of the
  statements on stock and reservations are modelled, not those of the events written in the same transaction.

  A transaction is a \<open>lock_prog\<close>: its statements with what each one locks, what it does to the data and how the code goes
  on.  The statements are those of \<open>InventoryRepo\<close>, and a program that runs alone does what the function of the repository
  does (\<open>run_reserve_ordered\<close> and its siblings).  Which requests wait for which locks is InnoDB's
  business and a parameter, \<open>waits\<close>; \<open>innodb\<close> is what its manual says for the isolation level the services run at
  (REPEATABLE READ, the default).
\<close>

subsection \<open>Programs\<close>

text \<open>
  What a statement asks for: \<open>SELECT ... WHERE order_id = ? FOR UPDATE\<close> and \<open>UPDATE ... WHERE order_id = ?\<close>; an update of
  the product with that key; the insert of a reservation for that order.
\<close>

datatype locking = LockReservation nat | LockProduct string | InsertsReservation nat

datatype lock_prog =
  Finish "go_error + int"
| Statement locking "inventory_db \<Rightarrow> inventory_db" "inventory_db \<Rightarrow> lock_prog"

definition statement :: "locking \<Rightarrow> (inventory_db, unit, 'a) tx \<Rightarrow> (go_error + 'a \<Rightarrow> lock_prog) \<Rightarrow> lock_prog" where
  "statement q t k = Statement q (\<lambda>d. snd (exec_tx t [] d)) (\<lambda>d. k (fst (exec_tx t [] d)))"

text \<open>A statement whose error ends the transaction.\<close>

definition or_fail :: "('a \<Rightarrow> lock_prog) \<Rightarrow> go_error + 'a \<Rightarrow> lock_prog" where
  "or_fail k r = (case r of Inl err \<Rightarrow> Finish (Inl err) | Inr a \<Rightarrow> k a)"

definition insert_step :: "nat \<Rightarrow> nat \<Rightarrow> string \<Rightarrow> int \<Rightarrow> lock_prog" where
  "insert_step now oid sku qty =
     statement (InsertsReservation oid) (create_reservation now oid sku qty) (or_fail (\<lambda>_. Finish (Inr 1)))"

definition take_step ::
  "(go_error \<Rightarrow> go_error option) \<Rightarrow> collation \<Rightarrow> nat \<Rightarrow> nat \<Rightarrow> string \<Rightarrow> int \<Rightarrow> lock_prog" where
  "take_step tx_err ck now oid sku qty =
     statement (LockProduct (ck sku)) (decrement_available ck sku qty) (or_fail (\<lambda>(affected, e).
       if affected = 0 then Finish (Inr 0)
       else if affected < 0 then
         (case decrementErr tx_err e of None \<Rightarrow> Finish (Inr 0) | Some x \<Rightarrow> Finish (Inl x))
       else insert_step now oid sku qty))"

definition reserve_ordered_prog ::
  "(go_error \<Rightarrow> go_error option) \<Rightarrow> collation \<Rightarrow> nat \<Rightarrow> nat \<Rightarrow> string \<Rightarrow> int \<Rightarrow> lock_prog" where
  "reserve_ordered_prog tx_err ck now oid sku qty =
     statement (LockReservation oid) (find_reservation_by_order_id oid) (\<lambda>existing.
       case existing of
         Inl err \<Rightarrow> if errors_is err ErrRecordNotFound then take_step tx_err ck now oid sku qty else Finish (Inl err)
       | Inr _ \<Rightarrow> take_step tx_err ck now oid sku qty)"

text \<open>The sleep between the two statements takes no lock and changes nothing; it only makes interleavings likely.\<close>

definition reserve_reversed_prog ::
  "(go_error \<Rightarrow> go_error option) \<Rightarrow> collation \<Rightarrow> nat \<Rightarrow> nat \<Rightarrow> string \<Rightarrow> int \<Rightarrow> lock_prog" where
  "reserve_reversed_prog tx_err ck now oid sku qty = take_step tx_err ck now oid sku qty"

definition set_released_row :: "nat \<Rightarrow> (inventory_db, 'm, unit) tx" where
  "set_released_row oid = stmt (\<lambda>d. (Inr (), d\<lparr>biz := (biz d)\<lparr>reservations := fst (update_rows
     (\<lambda>r. rv_order_id r = oid \<and> rv_status r = ReservationStatusReserved)
     (\<lambda>r. r\<lparr>rv_status := ReservationStatusReleased\<rparr>) (reservations (biz d)))\<rparr>\<rparr>))"

definition give_back_step :: "collation \<Rightarrow> reservation \<Rightarrow> lock_prog" where
  "give_back_step ck res =
     statement (LockProduct (ck (rv_sku res))) (stmt (update_available (\<lambda>q. ck (p_sku q) = ck (rv_sku res)) (rv_quantity res)))
       (or_fail (\<lambda>_. Finish (Inr 1)))"

definition set_released_step :: "collation \<Rightarrow> nat \<Rightarrow> reservation \<Rightarrow> lock_prog" where
  "set_released_step ck oid res =
     statement (LockReservation oid) (set_released_row oid) (or_fail (\<lambda>_. give_back_step ck res))"

definition release_prog :: "collation \<Rightarrow> nat \<Rightarrow> lock_prog" where
  "release_prog ck oid =
     statement (LockReservation oid) (find_reservation_by_order_id oid) (or_fail (\<lambda>res.
       if rv_status res = ReservationStatusReleased then Finish (Inr 0) else set_released_step ck oid res))"

subsection \<open>A program that runs alone\<close>

primrec run_prog :: "lock_prog \<Rightarrow> inventory_db \<Rightarrow> (go_error + int) \<times> inventory_db" where
  "run_prog (Finish r) = (\<lambda>d. (r, d))"
| "run_prog (Statement q e k) = (\<lambda>d. run_prog (k d) (e d))"

lemma run_statement:
  "exec_tx t [] d = (r, d') \<Longrightarrow> run_prog (statement q t k) d = run_prog (k r) d'"
  by (simp add: statement_def)

lemmas lock_progs = reserve_ordered_prog_def reserve_reversed_prog_def take_step_def insert_step_def release_prog_def
  set_released_step_def give_back_step_def or_fail_def

lemma run_take:
  "run_prog (take_step tx_err ck now oid sku qty) d = exec_tx (bind_tx (decrement_available ck sku qty) (\<lambda>(affected, e).
       if affected = 0 then ret 0
       else if affected < 0 then
         (case decrementErr tx_err e of None \<Rightarrow> ret 0 | Some x \<Rightarrow> throw x)
       else bind_tx (create_reservation now oid sku qty) (\<lambda>_. ret 1)) :: (inventory_db, unit, int) tx) [] d"
proof (cases "update_available (\<lambda>q. ck (p_sku q) = ck sku \<and> qty \<le> p_available q) (- qty) d")
  case (Pair r d1)
  then have one: "exec_tx (decrement_available ck sku qty) [] d =
      (Inr (case r of Inl e \<Rightarrow> (- 1, Some e) | Inr n \<Rightarrow> (int n, None)), d1)" for d2 :: unit
    by (simp add: decrement_available_def run_simps split: sum.splits)
  obtain r2 d2 where two: "exec_tx (create_reservation now oid sku qty :: (inventory_db, unit, unit) tx) [] d1 = (r2, d2)"
    by (cases "exec_tx (create_reservation now oid sku qty :: (inventory_db, unit, unit) tx) [] d1")
  show ?thesis
    unfolding take_step_def run_statement [OF one]
    using Pair two
    by (auto simp: or_fail_def insert_step_def statement_def run_simps decrement_available_def create_reservation_def Let_def
        split: sum.splits option.splits prod.splits if_splits)
qed

lemma run_reserve_ordered:
  "run_prog (reserve_ordered_prog tx_err ck now oid sku qty) d =
     exec_tx (reserve_ordered tx_err ck now oid sku qty :: (inventory_db, unit, int) tx) [] d"
proof -
  obtain r where r: "exec_tx (find_reservation_by_order_id oid :: (inventory_db, unit, reservation) tx) [] d = (r, d)"
    by (simp add: find_reservation_by_order_id_def run_simps)
  then have find: "find_reservation_by_order_id oid \<lparr>db = d, sched = [], wire = [] :: unit list\<rparr> =
      (r, \<lparr>db = d, sched = [], wire = []\<rparr>)"
    by (auto simp: find_reservation_by_order_id_def run_simps)
  show ?thesis
    unfolding reserve_ordered_prog_def run_statement [OF r]
    by (cases r)
      (simp_all add: reserve_ordered_def run_take exec_tx_def bind_tx_def [of "bind_tx _ _"] bind_tx_def [of "try_tx _"]
        try_tx_def find ret_def throw_def)
qed

lemma run_reserve_reversed:
  "run_prog (reserve_reversed_prog tx_err ck now oid sku qty) d =
     exec_tx (reserve_reversed tx_err ck getenv now oid sku qty :: (inventory_db, unit, int) tx) [] d"
proof -
  have sleep: "bind_tx (deadlock_sleep getenv) (\<lambda>_. t) \<lparr>db = d, sched = [], wire = [] :: unit list\<rparr> =
      t \<lparr>db = d, sched = [], wire = []\<rparr>" for t :: "(inventory_db, unit, int) tx" and d
    by (simp add: deadlock_sleep_def run_simps)
  obtain r d1 where one: "decrement_available ck sku qty \<lparr>db = d, sched = [], wire = [] :: unit list\<rparr> =
      (r, \<lparr>db = d1, sched = [], wire = []\<rparr>)"
  proof (cases "update_available (\<lambda>q. ck (p_sku q) = ck sku \<and> qty \<le> p_available q) (- qty) d")
    case (Pair r d1)
    with that [of "Inr (case r of Inl e \<Rightarrow> (- 1, Some e) | Inr n \<Rightarrow> (int n, None))" d1] show ?thesis
      by (simp add: decrement_available_def run_simps split: sum.splits)
  qed
  then show ?thesis
    unfolding reserve_reversed_prog_def run_take reserve_reversed_def
    by (simp add: exec_tx_def bind_tx_def [of "decrement_available _ _ _"] sleep split: sum.splits prod.splits)
qed

lemma run_release:
  "run_prog (release_prog ck oid) d = exec_tx (release ck getenv oid :: (inventory_db, unit, int) tx) [] d"
  by (auto simp: lock_progs set_released_row_def statement_def release_def find_reservation_by_order_id_def deadlock_sleep_def
      run_simps split: sum.splits prod.splits)

subsection \<open>Locks and steps\<close>

definition has_row :: "nat \<Rightarrow> inventory_db \<Rightarrow> bool" where
  "has_row oid d \<longleftrightarrow> oid \<in> set (map rv_order_id (reservations (biz d)))"

definition same_gap :: "nat \<Rightarrow> nat \<Rightarrow> inventory_db \<Rightarrow> bool" where
  "same_gap i j d \<longleftrightarrow> (\<forall>r \<in> set (reservations (biz d)). rv_order_id r < i \<longleftrightarrow> rv_order_id r < j)"

text \<open>
  InnoDB's locks on unique indexes, each as the request that got it and the data at that time.  A locking statement that finds
  its row locks the record, exclusively.  One that finds none locks the gap where the row would be: a gap lock
  makes nobody wait but an insert into the gap, other gap locks are granted beside it.  An inserted row is locked.
\<close>

fun must_wait :: "locking \<Rightarrow> locking \<times> inventory_db \<Rightarrow> bool" where
  "must_wait (LockProduct s) (q, d) = (q = LockProduct s)"
| "must_wait (LockReservation i) (q, d) = (q = InsertsReservation i \<or> q = LockReservation i \<and> has_row i d)"
| "must_wait (InsertsReservation i) (q, d) = (case q of
     InsertsReservation j \<Rightarrow> i = j
   | LockReservation j \<Rightarrow> if has_row j d then i = j else same_gap i j d
   | LockProduct s \<Rightarrow> False)"

definition innodb :: "(locking \<Rightarrow> locking \<times> inventory_db \<Rightarrow> bool) \<Rightarrow> bool" where
  "innodb waits \<longleftrightarrow> (\<forall>q h. waits q h = must_wait q h)"

record worker =
  wk_prog :: lock_prog
  wk_held :: "(locking \<times> inventory_db) list"
  wk_inserted :: "nat list"

record lock_state =
  lk_db :: inventory_db
  lk_workers :: "worker list"

definition lock_start :: "inventory_db \<Rightarrow> lock_prog list \<Rightarrow> lock_state" where
  "lock_start d ps = \<lparr>lk_db = d, lk_workers = map (\<lambda>p. \<lparr>wk_prog = p, wk_held = [], wk_inserted = []\<rparr>) ps\<rparr>"

fun newly_inserted :: "locking \<Rightarrow> inventory_db \<Rightarrow> inventory_db \<Rightarrow> nat list" where
  "newly_inserted (InsertsReservation i) d d' = (if \<not> has_row i d \<and> has_row i d' then [i] else [])"
| "newly_inserted q d d' = []"

text \<open>
  A transaction runs its next statement when no lock of another one makes it wait, and keeps the lock to its end.  A statement may
  fail, for want of patience too (1205).  A commit gives the locks back.  So does a rollback, which takes the inserted
  rows out again; what else it restores does not matter here and is left open.
\<close>

inductive lock_step :: "(locking \<Rightarrow> locking \<times> inventory_db \<Rightarrow> bool) \<Rightarrow> lock_state \<Rightarrow> lock_state \<Rightarrow> bool"
  for waits :: "locking \<Rightarrow> locking \<times> inventory_db \<Rightarrow> bool" where
  runs: "i < length (lk_workers S) \<Longrightarrow> w = lk_workers S ! i \<Longrightarrow> wk_prog w = Statement q e k \<Longrightarrow>
    (\<forall>j < length (lk_workers S). j \<noteq> i \<longrightarrow> (\<forall>h \<in> set (wk_held (lk_workers S ! j)). \<not> waits q h)) \<Longrightarrow> d = lk_db S \<Longrightarrow>
    lock_step waits S (S\<lparr>lk_db := e d, lk_workers := (lk_workers S)[i :=
      \<lparr>wk_prog = k d, wk_held = (q, d) # wk_held w, wk_inserted = newly_inserted q d (e d) @ wk_inserted w\<rparr>]\<rparr>)"
| fails: "i < length (lk_workers S) \<Longrightarrow> w = lk_workers S ! i \<Longrightarrow> wk_prog w = Statement q e k \<Longrightarrow>
    lock_step waits S (S\<lparr>lk_workers := (lk_workers S)[i := w\<lparr>wk_prog := Finish (Inl err)\<rparr>]\<rparr>)"
| commits: "i < length (lk_workers S) \<Longrightarrow> w = lk_workers S ! i \<Longrightarrow> wk_prog w = Finish (Inr n) \<Longrightarrow>
    lock_step waits S (S\<lparr>lk_workers := (lk_workers S)[i := w\<lparr>wk_held := [], wk_inserted := []\<rparr>]\<rparr>)"
| rolls_back: "i < length (lk_workers S) \<Longrightarrow> w = lk_workers S ! i \<Longrightarrow> wk_prog w = Finish (Inl err) \<Longrightarrow>
    map rv_order_id (reservations (biz d)) =
      filter (\<lambda>o'. o' \<notin> set (wk_inserted w)) (map rv_order_id (reservations (biz (lk_db S)))) \<Longrightarrow>
    lock_step waits S (S\<lparr>lk_db := d, lk_workers := (lk_workers S)[i := w\<lparr>wk_held := [], wk_inserted := []\<rparr>]\<rparr>)"

inductive_cases lock_stepE: "lock_step waits S S'"

definition waits_for :: "(locking \<Rightarrow> locking \<times> inventory_db \<Rightarrow> bool) \<Rightarrow> lock_state \<Rightarrow> nat \<Rightarrow> nat \<Rightarrow> bool" where
  "waits_for waits S i j \<longleftrightarrow> i \<noteq> j \<and> (case wk_prog (lk_workers S ! i) of
     Finish r \<Rightarrow> False | Statement q e k \<Rightarrow> \<exists>h \<in> set (wk_held (lk_workers S ! j)). waits q h)"

text \<open>A deadlock: some transactions, each of which waits for another of them.\<close>

definition deadlocked :: "(locking \<Rightarrow> locking \<times> inventory_db \<Rightarrow> bool) \<Rightarrow> lock_state \<Rightarrow> bool" where
  "deadlocked waits S \<longleftrightarrow> (\<exists>D \<in> set (subseqs [0..<length (lk_workers S)]). D \<noteq> [] \<and>
     (\<forall>i \<in> set D. \<exists>j \<in> set D. waits_for waits S i j))"

lemma no_deadlock_ranked:
  fixes rank :: "nat \<Rightarrow> nat"
  assumes "\<And>i j. i < length (lk_workers S) \<Longrightarrow> j < length (lk_workers S) \<Longrightarrow> waits_for waits S i j \<Longrightarrow> rank i < rank j"
  shows "\<not> deadlocked waits S"
proof
  assume "deadlocked waits S"
  then obtain D where D: "D \<in> set (subseqs [0..<length (lk_workers S)])" "D \<noteq> []"
    "\<forall>i \<in> set D. \<exists>j \<in> set D. waits_for waits S i j" by (auto simp: deadlocked_def)
  from D(1) have below: "i < length (lk_workers S)" if "i \<in> set D" for i
    using that subseqs_powset [of "[0..<length (lk_workers S)]"] by (metis PowD atLeastLessThan_iff imageI in_mono set_upt)
  have "Max (rank ` set D) \<in> rank ` set D" using D(2) by (intro Max_in) simp_all
  then obtain i where "i \<in> set D" "rank i = Max (rank ` set D)" by auto
  then have i: "i \<in> set D" "\<forall>j \<in> set D. rank j \<le> rank i" by simp_all
  from D(3) i(1) obtain j where j: "j \<in> set D" "waits_for waits S i j" by blast
  from assms [OF below [OF i(1)] below [OF j(1)] j(2)] i(2) j(1) show False by (simp add: leD)
qed

subsection \<open>The reversed order\<close>

datatype task = Reserves nat string int | Releases nat

fun reversed_prog :: "(go_error \<Rightarrow> go_error option) \<Rightarrow> collation \<Rightarrow> nat \<Rightarrow> task \<Rightarrow> lock_prog" where
  "reversed_prog tx_err ck now (Reserves oid sku qty) = reserve_reversed_prog tx_err ck now oid sku qty"
| "reversed_prog tx_err ck now (Releases oid) = release_prog ck oid"

definition holds_row :: "worker \<Rightarrow> nat \<Rightarrow> bool" where
  "holds_row w i \<longleftrightarrow> (\<exists>(q, d) \<in> set (wk_held w). q = InsertsReservation i \<or> q = LockReservation i \<and> has_row i d)"

text \<open>How far a transaction has come, with what it holds then.\<close>

inductive stage :: "(go_error \<Rightarrow> go_error option) \<Rightarrow> collation \<Rightarrow> nat \<Rightarrow> inventory_db \<Rightarrow> task \<Rightarrow> worker \<Rightarrow> bool"
  for tx_err :: "go_error \<Rightarrow> go_error option" and ck :: collation and now :: nat and d :: inventory_db where
  finished: "wk_prog w = Finish r \<Longrightarrow> \<forall>i \<in> set (wk_inserted w). holds_row w i \<Longrightarrow> stage tx_err ck now d t w"
| taking: "\<not> has_row i d \<Longrightarrow> stage tx_err ck now d (Reserves i s n)
    \<lparr>wk_prog = take_step tx_err ck now i s n, wk_held = [], wk_inserted = []\<rparr>"
| inserting: "\<not> has_row i d \<Longrightarrow> stage tx_err ck now d (Reserves i s n)
    \<lparr>wk_prog = insert_step now i s n, wk_held = [(LockProduct key, d1)], wk_inserted = []\<rparr>"
| looking: "stage tx_err ck now d (Releases i) \<lparr>wk_prog = release_prog ck i, wk_held = [], wk_inserted = []\<rparr>"
| releasing: "has_row i d \<Longrightarrow> has_row i d1 \<Longrightarrow> stage tx_err ck now d (Releases i)
    \<lparr>wk_prog = set_released_step ck i res, wk_held = [(LockReservation i, d1)], wk_inserted = []\<rparr>"
| giving: "has_row i d \<Longrightarrow> has_row i d1 \<Longrightarrow> has_row i d2 \<Longrightarrow> stage tx_err ck now d (Releases i)
    \<lparr>wk_prog = give_back_step ck res, wk_held = [(LockReservation i, d2), (LockReservation i, d1)], wk_inserted = []\<rparr>"

inductive_cases stageE [consumes 1, case_names finished taking inserting looking releasing giving]:
  "stage tx_err ck now d t w"

lemma find_statement:
  "exec_tx (find_reservation_by_order_id i :: (inventory_db, unit, reservation) tx) [] d =
     (first_row (\<lambda>r. rv_order_id r = i) (reservations (biz d)), d)"
  by (simp add: find_reservation_by_order_id_def run_simps)

lemma first_row_has:
  "first_row (\<lambda>r. rv_order_id r = i) (reservations (biz d)) = Inr res \<Longrightarrow> has_row i d"
  by (auto simp: has_row_def dest: first_row_member)

lemma take_rows: "has_row x (snd (exec_tx (decrement_available ck s n :: (inventory_db, unit, int \<times> go_error option) tx) [] d)) = has_row x d"
  by (auto simp: has_row_def decrement_available_def update_available_def run_simps Let_def split: sum.splits prod.splits if_splits)

lemma create_rows:
  "has_row x (snd (exec_tx (create_reservation now i s n :: (inventory_db, unit, unit) tx) [] d)) \<Longrightarrow> has_row x d \<or> x = i"
  "has_row x d \<Longrightarrow> has_row x (snd (exec_tx (create_reservation now i s n :: (inventory_db, unit, unit) tx) [] d))"
  by (auto simp: has_row_def create_reservation_def run_simps Let_def split: if_splits)

lemma set_released_rows: "has_row x (snd (exec_tx (set_released_row i :: (inventory_db, unit, unit) tx) [] d)) = has_row x d"
proof -
  have "map rv_order_id (reservations (biz (snd (exec_tx (set_released_row i :: (inventory_db, unit, unit) tx) [] d)))) =
      map rv_order_id (reservations (biz d))"
    by (simp add: set_released_row_def update_rows_def run_simps)
  then show ?thesis by (simp only: has_row_def)
qed

lemma give_back_rows: "has_row x (snd (exec_tx (stmt (update_available p n) :: (inventory_db, unit, nat) tx) [] d)) = has_row x d"
  by (auto simp: has_row_def update_available_def run_simps Let_def split: sum.splits prod.splits if_splits)

lemma stage_done: "\<exists>r. wk_prog w = Finish r \<Longrightarrow> \<forall>i \<in> set (wk_inserted w). holds_row w i \<Longrightarrow> stage tx_err ck now d t w"
  by (auto intro: stage.finished)

lemma stage_Finish [simp]: "stage tx_err ck now d t \<lparr>wk_prog = Finish r, wk_held = h, wk_inserted = []\<rparr>"
  by (rule stage_done) simp_all

text \<open>A transaction that runs its next statement comes to its next stage, and removes no row.\<close>

lemma stage_runs:
  assumes "stage tx_err ck now d t w" "wk_prog w = Statement q e k"
  shows "stage tx_err ck now (e d) t \<lparr>wk_prog = k d, wk_held = (q, d) # wk_held w, wk_inserted = newly_inserted q d (e d) @ wk_inserted w\<rparr>"
    "has_row x d \<Longrightarrow> has_row x (e d)" "has_row x (e d) \<Longrightarrow> has_row x d \<or> (\<exists>s n. t = Reserves x s n)"
proof -
  have "stage tx_err ck now (e d) t \<lparr>wk_prog = k d, wk_held = (q, d) # wk_held w, wk_inserted = newly_inserted q d (e d) @ wk_inserted w\<rparr> \<and>
    (has_row x d \<longrightarrow> has_row x (e d)) \<and> (has_row x (e d) \<longrightarrow> has_row x d \<or> (\<exists>s n. t = Reserves x s n))"
    using assms(1)
  proof (cases rule: stageE)
    case finished
    with assms(2) show ?thesis by simp
  next
    case (taking i s n)
    let ?t = "decrement_available ck s n :: (inventory_db, unit, int \<times> go_error option) tx"
    from taking assms(2) have e: "q = LockProduct (ck s)" "e = (\<lambda>d. snd (exec_tx ?t [] d))"
      "k d = or_fail (\<lambda>(affected, e). if affected = 0 then Finish (Inr 0)
       else if affected < 0 then (case decrementErr tx_err e of None \<Rightarrow> Finish (Inr 0) | Some x \<Rightarrow> Finish (Inl x))
       else insert_step now i s n) (fst (exec_tx ?t [] d))"
      by (auto simp: take_step_def statement_def)
    have gone: "\<not> has_row i (e d)" using taking(3) by (simp add: e(2) take_rows)
    have "(\<exists>r. k d = Finish r) \<or> k d = insert_step now i s n"
      by (auto simp: e(3) or_fail_def split: sum.splits prod.splits option.splits)
    then show ?thesis
    proof
      assume "\<exists>r. k d = Finish r"
      with taking e(1,2) show ?thesis by (auto simp: take_rows intro: stage.finished)
    next
      assume "k d = insert_step now i s n"
      with taking e(1,2) stage.inserting [OF gone] show ?thesis by (simp add: take_rows)
    qed
  next
    case (inserting i s n key d1)
    then show ?thesis
      using assms(2)
      by (auto simp: insert_step_def statement_def or_fail_def holds_row_def intro!: stage_done dest: create_rows split: sum.splits)
  next
    case (looking i)
    then show ?thesis
      using assms(2)
      by (auto simp: release_prog_def statement_def find_statement or_fail_def intro!: stage.releasing
          dest: first_row_has split: sum.splits)
  next
    case (releasing i d1 res)
    then show ?thesis
      using assms(2)
      by (auto simp: set_released_step_def statement_def or_fail_def set_released_rows intro!: stage.giving split: sum.splits)
  next
    case (giving i d1 d2 res)
    then show ?thesis
      using assms(2)
      by (auto simp: give_back_step_def statement_def or_fail_def give_back_rows split: sum.splits)
  qed
  then show "stage tx_err ck now (e d) t \<lparr>wk_prog = k d, wk_held = (q, d) # wk_held w, wk_inserted = newly_inserted q d (e d) @ wk_inserted w\<rparr>"
    "has_row x d \<Longrightarrow> has_row x (e d)" "has_row x (e d) \<Longrightarrow> has_row x d \<or> (\<exists>s n. t = Reserves x s n)"
    by blast+
qed

text \<open>What another transaction does to the data does not take a transaction back.\<close>

lemma stage_beside:
  assumes "stage tx_err ck now d t w" "\<And>x. holds_row w x \<Longrightarrow> has_row x d \<Longrightarrow> has_row x d'"
    and "\<And>x s n. t = Reserves x s n \<Longrightarrow> has_row x d' \<Longrightarrow> has_row x d"
  shows "stage tx_err ck now d' t w"
  using assms(1)
proof (cases rule: stageE)
  case (finished r)
  then show ?thesis by (rule stage.finished)
next
  case (taking i s n)
  with assms(3) show ?thesis by (auto intro: stage.taking)
next
  case (inserting i s n key d1)
  with assms(3) show ?thesis by (auto intro: stage.inserting)
next
  case looking
  then show ?thesis by (auto intro: stage.looking)
next
  case (releasing i d1 res)
  then have "holds_row w i" by (simp add: holds_row_def)
  with releasing assms(2) show ?thesis by (auto intro: stage.releasing)
next
  case (giving i d1 d2 res)
  then have "holds_row w i" by (simp add: holds_row_def)
  with giving assms(2) show ?thesis by (auto intro: stage.giving)
qed

definition lock_inv ::
  "(go_error \<Rightarrow> go_error option) \<Rightarrow> collation \<Rightarrow> nat \<Rightarrow> task list \<Rightarrow> lock_state \<Rightarrow> bool" where
  "lock_inv tx_err ck now ts S \<longleftrightarrow> length (lk_workers S) = length ts \<and>
     (\<forall>i < length ts. stage tx_err ck now (lk_db S) (ts ! i) (lk_workers S ! i)) \<and>
     (\<forall>i < length ts. \<forall>j < length ts. i \<noteq> j \<longrightarrow> (\<forall>x. holds_row (lk_workers S ! i) x \<longrightarrow> \<not> holds_row (lk_workers S ! j) x))"

definition reserved_orders :: "task list \<Rightarrow> nat list" where
  "reserved_orders ts = concat (map (\<lambda>t. case t of Reserves i s n \<Rightarrow> [i] | Releases i \<Rightarrow> []) ts)"

lemma reserved_orders_distinct:
  "distinct (reserved_orders ts) \<Longrightarrow> i < length ts \<Longrightarrow> j < length ts \<Longrightarrow> i \<noteq> j \<Longrightarrow>
   ts ! i = Reserves x s n \<Longrightarrow> ts ! j \<noteq> Reserves x s2 n2"
proof (induction ts arbitrary: i j)
  case (Cons t ts)
  have mem: "x \<in> set (reserved_orders ts)" if "k < length ts" "ts ! k = Reserves x s3 n3" for k s3 n3
    using that by (force simp: reserved_orders_def dest: nth_mem)
  from Cons.prems Cons.IH mem show ?case
    by (cases i; cases j) (auto simp: reserved_orders_def)
qed simp

lemma waits_for_row:
  assumes "innodb waits" "holds_row w x" "q = InsertsReservation x \<or> q = LockReservation x"
  shows "\<exists>h \<in> set (wk_held w). waits q h"
proof -
  from assms(2) obtain q1 d1 where h: "(q1, d1) \<in> set (wk_held w)" "q1 = InsertsReservation x \<or> q1 = LockReservation x \<and> has_row x d1"
    by (auto simp: holds_row_def)
  with assms(1,3) have "waits q (q1, d1)" by (auto simp: innodb_def)
  with h(1) show ?thesis by blast
qed

lemma holds_row_next:
  "holds_row \<lparr>wk_prog = p, wk_held = (q, d) # wk_held w, wk_inserted = l\<rparr> x \<Longrightarrow>
   q = InsertsReservation x \<or> q = LockReservation x \<or> holds_row w x"
  by (auto simp: holds_row_def)

lemma stage_unfinished: "stage tx_err ck now d t w \<Longrightarrow> wk_prog w = Statement q e k \<Longrightarrow> wk_inserted w = []"
  by (auto elim: stageE)

text \<open>Two workers exclude each other's rows; so one that changes need only be checked against the others.\<close>

lemma lock_inv_update:
  assumes inv: "lock_inv tx_err ck now ts S" and i: "i < length ts"
    and own: "stage tx_err ck now d' (ts ! i) w'"
    and rows: "\<And>j x. j < length ts \<Longrightarrow> j \<noteq> i \<Longrightarrow> holds_row w' x \<Longrightarrow> \<not> holds_row (lk_workers S ! j) x"
    and other: "\<And>j. j < length ts \<Longrightarrow> j \<noteq> i \<Longrightarrow> stage tx_err ck now d' (ts ! j) (lk_workers S ! j)"
  shows "lock_inv tx_err ck now ts (S\<lparr>lk_db := d', lk_workers := (lk_workers S)[i := w']\<rparr>)"
proof -
  let ?W = "(lk_workers S)[i := w']"
  have len: "length (lk_workers S) = length ts"
    and excl: "\<And>k j x. k < length ts \<Longrightarrow> j < length ts \<Longrightarrow> k \<noteq> j \<Longrightarrow> holds_row (lk_workers S ! k) x \<Longrightarrow> \<not> holds_row (lk_workers S ! j) x"
    using inv by (auto simp: lock_inv_def)
  have at: "?W ! k = (if k = i then w' else lk_workers S ! k)" if "k < length ts" for k
    using that i len by simp
  have "stage tx_err ck now d' (ts ! k) (?W ! k)" if "k < length ts" for k
    using that own other at by simp
  moreover have "\<not> holds_row (?W ! j) x" if "k < length ts" "j < length ts" "k \<noteq> j" "holds_row (?W ! k) x" for k j x
  proof -
    have "k = i \<and> j \<noteq> i \<or> k \<noteq> i \<and> j = i \<or> k \<noteq> i \<and> j \<noteq> i" using that(3) by auto
    then consider "k = i" "j \<noteq> i" | "k \<noteq> i" "j = i" | "k \<noteq> i" "j \<noteq> i" by metis
    then show ?thesis
    proof cases
      case 1
      with that at rows show ?thesis by simp
    next
      case 2
      with that at have "holds_row (lk_workers S ! k) x" by simp
      with rows [OF that(1) 2(1), of x] 2(2) at [OF that(2)] show ?thesis by auto
    next
      case 3
      with that at excl show ?thesis by simp
    qed
  qed
  ultimately show ?thesis using len by (simp add: lock_inv_def)
qed

lemma lock_inv_step:
  assumes inv: "lock_inv tx_err ck now ts S" and db: "innodb waits" and new: "distinct (reserved_orders ts)"
    and step: "lock_step waits S S'"
  shows "lock_inv tx_err ck now ts S'"
proof -
  have len: "length (lk_workers S) = length ts"
    and stages: "\<And>i. i < length ts \<Longrightarrow> stage tx_err ck now (lk_db S) (ts ! i) (lk_workers S ! i)"
    and excl: "\<And>i j x. i < length ts \<Longrightarrow> j < length ts \<Longrightarrow> i \<noteq> j \<Longrightarrow> holds_row (lk_workers S ! i) x \<Longrightarrow> \<not> holds_row (lk_workers S ! j) x"
    using inv by (auto simp: lock_inv_def)
  from step show ?thesis
  proof cases
    case (runs i w q e k d)
    have i: "i < length ts" using runs(2) len by simp
    have st: "stage tx_err ck now d (ts ! i) w" using stages [OF i] runs(3,6) by simp
    note next_stage = stage_runs [OF st runs(4)]
    show ?thesis
      unfolding runs(1)
    proof (rule lock_inv_update [OF inv i next_stage(1)])
      fix j x assume j: "j < length ts" "j \<noteq> i"
        and x: "holds_row \<lparr>wk_prog = k d, wk_held = (q, d) # wk_held w, wk_inserted = newly_inserted q d (e d) @ wk_inserted w\<rparr> x"
      have "q = InsertsReservation x \<or> q = LockReservation x \<or> holds_row w x"
        by (rule holds_row_next [OF x])
      then show "\<not> holds_row (lk_workers S ! j) x"
        using waits_for_row [OF db, of "lk_workers S ! j" x q] runs(5) j len excl [OF i j(1) j(2) [symmetric], of x] runs(3) by auto
    next
      fix j assume j: "j < length ts" "j \<noteq> i"
      have "has_row x d" if "ts ! j = Reserves x s n" "has_row x (e d)" for x s n
        using next_stage(3) [OF that(2)] reserved_orders_distinct [OF new j(1) i j(2) that(1)] by blast
      with stages [OF j(1)] runs(6) next_stage(2) show "stage tx_err ck now (e d) (ts ! j) (lk_workers S ! j)"
        by (auto intro: stage_beside)
    qed
  next
    case (fails i w q e k err)
    have i: "i < length ts" using fails(2) len by simp
    have "wk_inserted w = []" using stage_unfinished [OF stages [OF i]] fails(3,4) by simp
    then have "stage tx_err ck now (lk_db S) (ts ! i) (w\<lparr>wk_prog := Finish (Inl err)\<rparr>)" by (intro stage_done) simp_all
    then have "lock_inv tx_err ck now ts (S\<lparr>lk_db := lk_db S, lk_workers := (lk_workers S)[i := w\<lparr>wk_prog := Finish (Inl err)\<rparr>]\<rparr>)"
      by (rule lock_inv_update [OF inv i]) (use excl [OF i] fails(3) stages in \<open>auto simp: holds_row_def\<close>)
    then show ?thesis using fails(1) by simp
  next
    case (commits i w n)
    have i: "i < length ts" using commits(2) len by simp
    have "stage tx_err ck now (lk_db S) (ts ! i) (w\<lparr>wk_held := [], wk_inserted := []\<rparr>)"
      using commits(4) by (intro stage_done) simp_all
    then have "lock_inv tx_err ck now ts (S\<lparr>lk_db := lk_db S, lk_workers := (lk_workers S)[i := w\<lparr>wk_held := [], wk_inserted := []\<rparr>]\<rparr>)"
      by (rule lock_inv_update [OF inv i]) (use stages in \<open>auto simp: holds_row_def\<close>)
    then show ?thesis using commits(1) by simp
  next
    case (rolls_back i w err d)
    have i: "i < length ts" using rolls_back(2) len by simp
    have row: "has_row x d \<longleftrightarrow> has_row x (lk_db S) \<and> x \<notin> set (wk_inserted w)" for x
      unfolding has_row_def rolls_back(5) by simp
    have ins: "holds_row w x" if "x \<in> set (wk_inserted w)" for x
      using stages [OF i] rolls_back(3,4) that by (auto elim!: stageE simp: lock_progs statement_def)
    have "stage tx_err ck now d (ts ! i) (w\<lparr>wk_held := [], wk_inserted := []\<rparr>)"
      using rolls_back(4) by (intro stage_done) simp_all
    then show ?thesis
      unfolding rolls_back(1)
    proof (rule lock_inv_update [OF inv i])
      fix j assume j: "j < length ts" "j \<noteq> i"
      have "has_row x d" if "holds_row (lk_workers S ! j) x" "has_row x (lk_db S)" for x
        using that ins excl [OF j(1) i j(2), of x] rolls_back(3) row by blast
      with stages [OF j(1)] row show "stage tx_err ck now d (ts ! j) (lk_workers S ! j)"
        by (auto intro: stage_beside)
    qed (simp add: holds_row_def)
  qed
qed

text \<open>Who waits is at an earlier statement than whom it waits for.\<close>

definition wk_rank :: "worker \<Rightarrow> nat" where
  "wk_rank w = (case wk_prog w of Finish r \<Rightarrow> 4 | Statement q e k \<Rightarrow> (case q of
     InsertsReservation i \<Rightarrow> 3 | LockProduct s \<Rightarrow> 2 | LockReservation i \<Rightarrow> if wk_held w = [] then 0 else 1))"

lemma wk_rank_stages [simp]:
  "wk_rank \<lparr>wk_prog = take_step tx_err ck now i s n, wk_held = h, wk_inserted = l\<rparr> = 2"
  "wk_rank \<lparr>wk_prog = insert_step now i s n, wk_held = h, wk_inserted = l\<rparr> = 3"
  "wk_rank \<lparr>wk_prog = release_prog ck i, wk_held = [], wk_inserted = l\<rparr> = 0"
  "wk_rank \<lparr>wk_prog = set_released_step ck i res, wk_held = a # h, wk_inserted = l\<rparr> = 1"
  "wk_rank \<lparr>wk_prog = give_back_step ck res, wk_held = h, wk_inserted = l\<rparr> = 2"
  by (simp_all add: wk_rank_def lock_progs statement_def)

lemma stage_rank:
  assumes "stage tx_err ck now d t w" "h \<in> set (wk_held w)"
  shows "wk_rank w \<in> {1, 2, 3, 4}" "fst h = LockProduct s \<Longrightarrow> 3 \<le> wk_rank w" "fst h = InsertsReservation i \<Longrightarrow> wk_rank w = 4"
    "fst h = LockReservation i \<Longrightarrow> wk_rank w = 4 \<or> has_row i (snd h) \<and> has_row i d \<and> holds_row w i"
  using assms
  by (auto elim!: stageE simp: wk_rank_def lock_progs statement_def holds_row_def split: lock_prog.splits locking.splits)

lemma lock_inv_ranked:
  assumes inv: "lock_inv tx_err ck now ts S" and db: "innodb waits" and ij: "i < length ts" "j < length ts" "waits_for waits S i j"
  shows "wk_rank (lk_workers S ! i) < wk_rank (lk_workers S ! j)"
proof -
  let ?w = "lk_workers S ! i" and ?v = "lk_workers S ! j"
  have st: "stage tx_err ck now (lk_db S) (ts ! i) ?w" "stage tx_err ck now (lk_db S) (ts ! j) ?v"
    and excl: "\<And>x. holds_row ?w x \<Longrightarrow> \<not> holds_row ?v x"
    using inv ij by (auto simp: lock_inv_def waits_for_def)
  from ij(3) obtain q e k h where q: "wk_prog ?w = Statement q e k" "h \<in> set (wk_held ?v)" "waits q h"
    by (auto simp: waits_for_def split: lock_prog.splits)
  obtain q1 d1 where h: "h = (q1, d1)" by (cases h)
  have wait: "must_wait q (q1, d1)" using q(3) db h by (simp add: innodb_def)
  note rank = stage_rank [OF st(2) q(2)]
  from st(1) show ?thesis
  proof (cases rule: stageE)
    case (finished r)
    with q(1) show ?thesis by simp
  next
    case (taking x s n)
    with q(1) have "q = LockProduct (ck s)" by (simp add: take_step_def statement_def)
    with wait rank(2) [of "ck s"] h taking show ?thesis by simp
  next
    case (inserting x s n key d2)
    with q(1) have "q = InsertsReservation x" by (simp add: insert_step_def statement_def)
    with wait rank(3,4) h inserting have "wk_rank ?v = 4" by (auto split: locking.splits if_splits)
    with inserting show ?thesis by simp
  next
    case (looking x)
    with rank(1) show ?thesis by auto
  next
    case (releasing x d2 res)
    then have own: "holds_row ?w x" by (simp add: holds_row_def)
    from releasing q(1) have "q = LockReservation x" by (simp add: set_released_step_def statement_def)
    with wait have "q1 = InsertsReservation x \<or> q1 = LockReservation x \<and> has_row x d1" by simp
    then have "holds_row ?v x" using q(2) h by (auto simp: holds_row_def)
    with excl [OF own] show ?thesis by simp
  next
    case (giving x d2 d3 res)
    with q(1) have "q = LockProduct (ck (rv_sku res))" by (simp add: give_back_step_def statement_def)
    with wait rank(2) [of "ck (rv_sku res)"] h giving show ?thesis by simp
  qed
qed

text \<open>
  Transactions that take their locks in the reversed order, for orders that are new and distinct, never deadlock, however
  many there are and whatever is released beside them.
\<close>

lemma reversed_never_deadlocks:
  assumes "innodb waits" "distinct (reserved_orders ts)" "\<forall>i \<in> set (reserved_orders ts). \<not> has_row i d"
    and run: "rtranclp (lock_step waits) (lock_start d (map (reversed_prog tx_err ck now) ts)) S"
  shows "\<not> deadlocked waits S"
proof -
  have "stage tx_err ck now d t \<lparr>wk_prog = reversed_prog tx_err ck now t, wk_held = [], wk_inserted = []\<rparr>" if "t \<in> set ts" for t
  proof (cases t)
    case (Reserves i s n)
    with that have "i \<in> set (reserved_orders ts)" by (force simp: reserved_orders_def)
    with Reserves assms(3) show ?thesis by (auto simp: reserve_reversed_prog_def intro: stage.taking)
  next
    case (Releases i)
    then show ?thesis by (auto intro: stage.looking)
  qed
  then have "lock_inv tx_err ck now ts (lock_start d (map (reversed_prog tx_err ck now) ts))"
    by (auto simp: lock_inv_def lock_start_def holds_row_def)
  with run have "lock_inv tx_err ck now ts S"
    by (induction rule: rtranclp_induct) (auto intro: lock_inv_step [OF _ assms(1,2)])
  from no_deadlock_ranked [where rank = "\<lambda>i. wk_rank (lk_workers S ! i)", OF lock_inv_ranked [OF this assms(1)]] this
  show ?thesis by (auto simp: lock_inv_def)
qed

subsection \<open>The default order\<close>

lemma runs_first:
  "wk_prog w = Statement q e k \<Longrightarrow> \<forall>h \<in> set (wk_held v). \<not> waits q h \<Longrightarrow>
   lock_step waits \<lparr>lk_db = d, lk_workers = [w, v]\<rparr> \<lparr>lk_db = e d, lk_workers =
     [\<lparr>wk_prog = k d, wk_held = (q, d) # wk_held w, wk_inserted = newly_inserted q d (e d) @ wk_inserted w\<rparr>, v]\<rparr>"
  using lock_step.runs [of 0 "\<lparr>lk_db = d, lk_workers = [w, v]\<rparr>" w q e k waits d] by (simp add: less_Suc_eq)

lemma runs_second:
  "wk_prog v = Statement q e k \<Longrightarrow> \<forall>h \<in> set (wk_held w). \<not> waits q h \<Longrightarrow>
   lock_step waits \<lparr>lk_db = d, lk_workers = [w, v]\<rparr> \<lparr>lk_db = e d, lk_workers =
     [w, \<lparr>wk_prog = k d, wk_held = (q, d) # wk_held v, wk_inserted = newly_inserted q d (e d) @ wk_inserted v\<rparr>]\<rparr>"
  using lock_step.runs [of 1 "\<lparr>lk_db = d, lk_workers = [w, v]\<rparr>" v q e k waits d] by (simp add: less_Suc_eq)

lemma deadlocked_two:
  assumes "waits_for waits \<lparr>lk_db = d, lk_workers = [w, v]\<rparr> 0 1" "waits_for waits \<lparr>lk_db = d, lk_workers = [w, v]\<rparr> 1 0"
  shows "deadlocked waits \<lparr>lk_db = d, lk_workers = [w, v]\<rparr>"
  unfolding deadlocked_def
  by (rule bexI [of _ "[0, 1]"]) (use assms in \<open>simp_all add: upt_rec\<close>)

text \<open>A lookup of a new order locks the gap only; taking stock that is there leads to the insert.\<close>

lemma ordered_looks:
  assumes "\<not> has_row i d" "\<forall>h \<in> set (wk_held v). \<not> waits (LockReservation i) h"
    "w = \<lparr>wk_prog = reserve_ordered_prog tx_err ck now i s n, wk_held = [], wk_inserted = []\<rparr>"
    "w' = \<lparr>wk_prog = take_step tx_err ck now i s n, wk_held = [(LockReservation i, d)], wk_inserted = []\<rparr>"
  shows "lock_step waits \<lparr>lk_db = d, lk_workers = [w, v]\<rparr> \<lparr>lk_db = d, lk_workers = [w', v]\<rparr>"
    "lock_step waits \<lparr>lk_db = d, lk_workers = [v, w]\<rparr> \<lparr>lk_db = d, lk_workers = [v, w']\<rparr>"
proof -
  let ?k = "\<lambda>existing. case existing of
         Inl err \<Rightarrow> if errors_is err ErrRecordNotFound then take_step tx_err ck now i s n else Finish (Inl err)
       | Inr r \<Rightarrow> take_step tx_err ck now i s n"
  have p: "wk_prog w = Statement (LockReservation i) (\<lambda>d. snd (exec_tx (find_reservation_by_order_id i :: (inventory_db, unit, reservation) tx) [] d))
      (\<lambda>d. ?k (fst (exec_tx (find_reservation_by_order_id i :: (inventory_db, unit, reservation) tx) [] d)))"
    by (simp add: assms(3) reserve_ordered_prog_def statement_def)
  have none: "first_row (\<lambda>r. rv_order_id r = i) (reservations (biz d)) = Inl ErrRecordNotFound"
    using assms(1) by (auto simp: has_row_def first_row_Inl find_None_iff)
  from runs_first [where d = d and waits = waits and q = "LockReservation i" and w = w and v = v, OF p assms(2)]
    runs_second [where d = d and waits = waits and q = "LockReservation i" and w = v and v = w, OF p assms(2)]
  show "lock_step waits \<lparr>lk_db = d, lk_workers = [w, v]\<rparr> \<lparr>lk_db = d, lk_workers = [w', v]\<rparr>"
    "lock_step waits \<lparr>lk_db = d, lk_workers = [v, w]\<rparr> \<lparr>lk_db = d, lk_workers = [v, w']\<rparr>"
    by (simp_all add: find_statement none assms(3,4))
qed

lemma ordered_takes:
  assumes "exec_tx (decrement_available ck s n :: (inventory_db, unit, int \<times> go_error option) tx) [] d = (Inr (1, None), d1)"
    "\<forall>h \<in> set (wk_held v). \<not> waits (LockProduct (ck s)) h"
    "w = \<lparr>wk_prog = take_step tx_err ck now i s n, wk_held = [g], wk_inserted = []\<rparr>"
    "w' = \<lparr>wk_prog = insert_step now i s n, wk_held = [(LockProduct (ck s), d), g], wk_inserted = []\<rparr>"
  shows "lock_step waits \<lparr>lk_db = d, lk_workers = [w, v]\<rparr> \<lparr>lk_db = d1, lk_workers = [w', v]\<rparr>"
    "lock_step waits \<lparr>lk_db = d, lk_workers = [v, w]\<rparr> \<lparr>lk_db = d1, lk_workers = [v, w']\<rparr>"
proof -
  let ?t = "decrement_available ck s n :: (inventory_db, unit, int \<times> go_error option) tx"
  let ?k = "or_fail (\<lambda>(affected, e).
       if affected = 0 then Finish (Inr 0)
       else if affected < 0 then
         (case decrementErr tx_err e of None \<Rightarrow> Finish (Inr 0) | Some x \<Rightarrow> Finish (Inl x))
       else insert_step now i s n)"
  have p: "wk_prog w = Statement (LockProduct (ck s)) (\<lambda>d. snd (exec_tx ?t [] d)) (\<lambda>d. ?k (fst (exec_tx ?t [] d)))"
    by (simp add: assms(3) take_step_def statement_def)
  from runs_first [where d = d and waits = waits and q = "LockProduct (ck s)" and w = w and v = v, OF p assms(2)]
    runs_second [where d = d and waits = waits and q = "LockProduct (ck s)" and w = v and v = w, OF p assms(2)]
  show "lock_step waits \<lparr>lk_db = d, lk_workers = [w, v]\<rparr> \<lparr>lk_db = d1, lk_workers = [w', v]\<rparr>"
    "lock_step waits \<lparr>lk_db = d, lk_workers = [v, w]\<rparr> \<lparr>lk_db = d1, lk_workers = [v, w']\<rparr>"
    by (simp_all add: assms(1,3,4) or_fail_def)
qed

lemma insert_waits:
  assumes "innodb waits" "(LockReservation j, d0) \<in> set (wk_held v)" "\<not> has_row j d0" "same_gap i j d0"
  shows "waits_for waits \<lparr>lk_db = d, lk_workers = [\<lparr>wk_prog = insert_step now i s n, wk_held = h, wk_inserted = l\<rparr>, v]\<rparr> 0 1"
    "waits_for waits \<lparr>lk_db = d, lk_workers = [v, \<lparr>wk_prog = insert_step now i s n, wk_held = h, wk_inserted = l\<rparr>]\<rparr> 1 0"
  using assms by (force simp: waits_for_def insert_step_def statement_def innodb_def)+

text \<open>The steps of the reversed order and of a release beside it.\<close>

lemma reversed_takes:
  assumes "exec_tx (decrement_available ck s n :: (inventory_db, unit, int \<times> go_error option) tx) [] d = (Inr (1, None), d1)"
  shows "lock_step waits
    \<lparr>lk_db = d, lk_workers = [\<lparr>wk_prog = reserve_reversed_prog tx_err ck now i s n, wk_held = [], wk_inserted = []\<rparr>,
       \<lparr>wk_prog = p, wk_held = [], wk_inserted = []\<rparr>]\<rparr>
    \<lparr>lk_db = d1, lk_workers = [\<lparr>wk_prog = insert_step now i s n, wk_held = [(LockProduct (ck s), d)], wk_inserted = []\<rparr>,
       \<lparr>wk_prog = p, wk_held = [], wk_inserted = []\<rparr>]\<rparr>"
proof -
  let ?t = "decrement_available ck s n :: (inventory_db, unit, int \<times> go_error option) tx"
  let ?k = "or_fail (\<lambda>(affected, e).
       if affected = 0 then Finish (Inr 0)
       else if affected < 0 then
         (case decrementErr tx_err e of None \<Rightarrow> Finish (Inr 0) | Some x \<Rightarrow> Finish (Inl x))
       else insert_step now i s n)"
  have p: "wk_prog \<lparr>wk_prog = reserve_reversed_prog tx_err ck now i s n, wk_held = [], wk_inserted = []\<rparr> =
      Statement (LockProduct (ck s)) (\<lambda>d. snd (exec_tx ?t [] d)) (\<lambda>d. ?k (fst (exec_tx ?t [] d)))"
    by (simp add: reserve_reversed_prog_def take_step_def statement_def)
  from runs_first [where d = d and waits = waits and v = "\<lparr>wk_prog = p, wk_held = [], wk_inserted = []\<rparr>", OF p] assms
  show ?thesis by (simp add: or_fail_def)
qed

lemma release_looks:
  assumes "\<forall>h \<in> set (wk_held w). \<not> waits (LockReservation i) h"
    and "first_row (\<lambda>r. rv_order_id r = i) (reservations (biz d)) = Inr res" "rv_status res \<noteq> ReservationStatusReleased"
  shows "lock_step waits \<lparr>lk_db = d, lk_workers = [w, \<lparr>wk_prog = release_prog ck i, wk_held = [], wk_inserted = []\<rparr>]\<rparr>
    \<lparr>lk_db = d, lk_workers = [w, \<lparr>wk_prog = set_released_step ck i res, wk_held = [(LockReservation i, d)], wk_inserted = []\<rparr>]\<rparr>"
proof -
  let ?t = "find_reservation_by_order_id i :: (inventory_db, unit, reservation) tx"
  let ?k = "or_fail (\<lambda>res. if rv_status res = ReservationStatusReleased then Finish (Inr 0) else set_released_step ck i res)"
  have p: "wk_prog \<lparr>wk_prog = release_prog ck i, wk_held = [], wk_inserted = []\<rparr> =
      Statement (LockReservation i) (\<lambda>d. snd (exec_tx ?t [] d)) (\<lambda>d. ?k (fst (exec_tx ?t [] d)))"
    by (simp add: release_prog_def statement_def)
  from runs_second [where d = d and waits = waits and w = w, OF p assms(1)] assms(2,3)
  show ?thesis by (simp add: find_statement or_fail_def)
qed

lemma release_sets:
  assumes "\<forall>h \<in> set (wk_held w). \<not> waits (LockReservation i) h"
  shows "\<exists>d2. lock_step waits \<lparr>lk_db = d, lk_workers = [w, \<lparr>wk_prog = set_released_step ck i res, wk_held = l, wk_inserted = []\<rparr>]\<rparr>
    \<lparr>lk_db = d2, lk_workers = [w, \<lparr>wk_prog = give_back_step ck res, wk_held = (LockReservation i, d) # l, wk_inserted = []\<rparr>]\<rparr>"
proof -
  let ?t = "set_released_row i :: (inventory_db, unit, unit) tx"
  let ?k = "or_fail (\<lambda>_. give_back_step ck res)"
  have p: "wk_prog \<lparr>wk_prog = set_released_step ck i res, wk_held = l, wk_inserted = []\<rparr> =
      Statement (LockReservation i) (\<lambda>d. snd (exec_tx ?t [] d)) (\<lambda>d. ?k (fst (exec_tx ?t [] d)))"
    by (simp add: set_released_step_def statement_def)
  have "fst (exec_tx ?t [] d) = Inr ()" by (simp add: set_released_row_def run_simps)
  with runs_second [where d = d and waits = waits and w = w, OF p assms] show ?thesis by (auto simp: or_fail_def)
qed

text \<open>Two reservations for two new orders, of one product or of two: each has locked the gap the other has to insert into.\<close>

lemma ordered_deadlocks:
  assumes "innodb waits" and newest: "\<forall>r \<in> set (reservations (biz d)). rv_order_id r < a \<and> rv_order_id r < b" "a \<noteq> b"
    and stock: "exec_tx (decrement_available ck sa na :: (inventory_db, unit, int \<times> go_error option) tx) [] d = (Inr (1, None), d1)"
      "exec_tx (decrement_available ck sb nb :: (inventory_db, unit, int \<times> go_error option) tx) [] d1 = (Inr (1, None), d2)"
  shows "\<exists>S. rtranclp (lock_step waits) (lock_start d
        [reserve_ordered_prog tx_err ck now a sa na, reserve_ordered_prog tx_err ck now2 b sb nb]) S \<and> deadlocked waits S"
proof -
  have new: "\<not> has_row a d" "\<not> has_row b d" using newest(1) by (auto simp: has_row_def)
  have gap: "same_gap a b d" "same_gap b a d" using newest(1) by (auto simp: same_gap_def)
  let ?look = "\<lambda>i s n now. \<lparr>wk_prog = reserve_ordered_prog tx_err ck now i s n, wk_held = [], wk_inserted = []\<rparr>"
  let ?take = "\<lambda>i s n now. \<lparr>wk_prog = take_step tx_err ck now i s n, wk_held = [(LockReservation i, d)], wk_inserted = []\<rparr>"
  let ?ins = "\<lambda>i s n now d'. \<lparr>wk_prog = insert_step now i s n,
    wk_held = [(LockProduct (ck s), d'), (LockReservation i, d)], wk_inserted = []\<rparr>"
  have 1: "lock_step waits \<lparr>lk_db = d, lk_workers = [?look a sa na now, ?look b sb nb now2]\<rparr>
      \<lparr>lk_db = d, lk_workers = [?take a sa na now, ?look b sb nb now2]\<rparr>"
    by (rule ordered_looks(1) [OF new(1) _ refl refl]) simp
  have 2: "lock_step waits \<lparr>lk_db = d, lk_workers = [?take a sa na now, ?look b sb nb now2]\<rparr>
      \<lparr>lk_db = d, lk_workers = [?take a sa na now, ?take b sb nb now2]\<rparr>"
    by (rule ordered_looks(2) [OF new(2) _ refl refl]) (use assms(1) newest(2) in \<open>simp add: innodb_def\<close>)
  have 3: "lock_step waits \<lparr>lk_db = d, lk_workers = [?take a sa na now, ?take b sb nb now2]\<rparr>
      \<lparr>lk_db = d1, lk_workers = [?ins a sa na now d, ?take b sb nb now2]\<rparr>"
    by (rule ordered_takes(1) [OF stock(1) _ refl refl]) (use assms(1) in \<open>simp add: innodb_def\<close>)
  from 1 2 3 have there: "rtranclp (lock_step waits) (lock_start d
        [reserve_ordered_prog tx_err ck now a sa na, reserve_ordered_prog tx_err ck now2 b sb nb])
      \<lparr>lk_db = d1, lk_workers = [?ins a sa na now d, ?take b sb nb now2]\<rparr>"
    unfolding lock_start_def list.map by (meson rtranclp.intros)
  show "\<exists>S. rtranclp (lock_step waits) (lock_start d
        [reserve_ordered_prog tx_err ck now a sa na, reserve_ordered_prog tx_err ck now2 b sb nb]) S \<and> deadlocked waits S"
  proof (cases "ck sa = ck sb")
    case True
    have "deadlocked waits \<lparr>lk_db = d1, lk_workers = [?ins a sa na now d, ?take b sb nb now2]\<rparr>"
    proof (rule deadlocked_two)
      show "waits_for waits \<lparr>lk_db = d1, lk_workers = [?ins a sa na now d, ?take b sb nb now2]\<rparr> 0 1"
        by (rule insert_waits(1) [OF assms(1) _ new(2) gap(1)]) simp
      show "waits_for waits \<lparr>lk_db = d1, lk_workers = [?ins a sa na now d, ?take b sb nb now2]\<rparr> 1 0"
        using assms(1) True by (simp add: waits_for_def take_step_def statement_def innodb_def)
    qed
    with there show ?thesis by blast
  next
    case False
    have "lock_step waits \<lparr>lk_db = d1, lk_workers = [?ins a sa na now d, ?take b sb nb now2]\<rparr>
        \<lparr>lk_db = d2, lk_workers = [?ins a sa na now d, ?ins b sb nb now2 d1]\<rparr>"
      by (rule ordered_takes(2) [OF stock(2) _ refl refl]) (use assms(1) False in \<open>auto simp: innodb_def\<close>)
    with there have "rtranclp (lock_step waits) (lock_start d
          [reserve_ordered_prog tx_err ck now a sa na, reserve_ordered_prog tx_err ck now2 b sb nb])
        \<lparr>lk_db = d2, lk_workers = [?ins a sa na now d, ?ins b sb nb now2 d1]\<rparr>"
      by (meson rtranclp.rtrancl_into_rtrancl)
    moreover have "deadlocked waits \<lparr>lk_db = d2, lk_workers = [?ins a sa na now d, ?ins b sb nb now2 d1]\<rparr>"
      by (rule deadlocked_two; rule insert_waits [OF assms(1)]) (use new gap in auto)
    ultimately show ?thesis by blast
  qed
qed

text \<open>The reversed order beside a release of the same order, whose reservation exists: product and reservation, reservation and product.\<close>

lemma reversed_release_deadlocks:
  assumes "innodb waits" and res: "first_row (\<lambda>r. rv_order_id r = i) (reservations (biz d)) = Inr res"
      "rv_status res \<noteq> ReservationStatusReleased" "ck (rv_sku res) = ck s"
    and stock: "exec_tx (decrement_available ck s n :: (inventory_db, unit, int \<times> go_error option) tx) [] d = (Inr (1, None), d1)"
  shows "\<exists>S. rtranclp (lock_step waits) (lock_start d [reserve_reversed_prog tx_err ck now i s n, release_prog ck i]) S \<and>
    deadlocked waits S"
proof -
  let ?take = "\<lparr>wk_prog = reserve_reversed_prog tx_err ck now i s n, wk_held = [], wk_inserted = []\<rparr>"
  let ?ins = "\<lparr>wk_prog = insert_step now i s n, wk_held = [(LockProduct (ck s), d)], wk_inserted = []\<rparr>"
  let ?look = "\<lparr>wk_prog = release_prog ck i, wk_held = [], wk_inserted = []\<rparr>"
  let ?set = "\<lparr>wk_prog = set_released_step ck i res, wk_held = [(LockReservation i, d1)], wk_inserted = []\<rparr>"
  let ?give = "\<lparr>wk_prog = give_back_step ck res, wk_held = [(LockReservation i, d1), (LockReservation i, d1)], wk_inserted = []\<rparr>"
  have "snd (exec_tx (decrement_available ck s n :: (inventory_db, unit, int \<times> go_error option) tx) [] d) = d1"
    by (simp add: stock)
  then have rows: "reservations (biz d1) = reservations (biz d)"
    by (auto simp: decrement_available_def update_available_def run_simps Let_def split: sum.splits prod.splits if_splits)
  then have has: "has_row i d1" using first_row_has [of i d1] res(1) by simp
  have 1: "lock_step waits \<lparr>lk_db = d, lk_workers = [?take, ?look]\<rparr> \<lparr>lk_db = d1, lk_workers = [?ins, ?look]\<rparr>"
    by (rule reversed_takes [OF stock])
  have 2: "lock_step waits \<lparr>lk_db = d1, lk_workers = [?ins, ?look]\<rparr> \<lparr>lk_db = d1, lk_workers = [?ins, ?set]\<rparr>"
    by (rule release_looks) (use assms(1) res rows in \<open>simp_all add: innodb_def\<close>)
  have 3: "\<exists>d2. lock_step waits \<lparr>lk_db = d1, lk_workers = [?ins, ?set]\<rparr> \<lparr>lk_db = d2, lk_workers = [?ins, ?give]\<rparr>"
    by (rule release_sets) (use assms(1) in \<open>simp add: innodb_def\<close>)
  then obtain d2 where "lock_step waits \<lparr>lk_db = d1, lk_workers = [?ins, ?set]\<rparr> \<lparr>lk_db = d2, lk_workers = [?ins, ?give]\<rparr>" by blast
  with 1 2 have "rtranclp (lock_step waits) (lock_start d [reserve_reversed_prog tx_err ck now i s n, release_prog ck i])
      \<lparr>lk_db = d2, lk_workers = [?ins, ?give]\<rparr>"
    unfolding lock_start_def list.map by (meson rtranclp.intros)
  moreover have "deadlocked waits \<lparr>lk_db = d2, lk_workers = [?ins, ?give]\<rparr>"
    by (rule deadlocked_two)
      (use assms(1) has res(3) in \<open>simp_all add: waits_for_def insert_step_def give_back_step_def statement_def innodb_def\<close>)
  ultimately show ?thesis by blast
qed

section \<open>Properties\<close>

text \<open>
  C39: Neither lock order is free of deadlocks.  With the default order two transactions that reserve for two new orders, of one
  product or of two, can deadlock: each has locked the gap the other has to insert into, which the comment of
  \<open>reserveOrdered\<close> does not see.  With the reversed order reservations for orders that are new and distinct never
  do, any number of them and with any releases beside them; but a reservation for an order that has one already can
  deadlock with its release, which is the cycle that the comment of \<open>reserveReversed\<close> speaks of.
\<close>
theorem lock_orders:
  assumes "innodb waits" and newest: "\<forall>r \<in> set (reservations (biz d)). rv_order_id r < a \<and> rv_order_id r < b" "a \<noteq> b"
    and stock: "exec_tx (decrement_available ck sa na :: (inventory_db, unit, int \<times> go_error option) tx) [] d = (Inr (1, None), d1)"
      "exec_tx (decrement_available ck sb nb :: (inventory_db, unit, int \<times> go_error option) tx) [] d1 = (Inr (1, None), d2)"
  shows "(\<exists>S. rtranclp (lock_step waits) (lock_start d
        [reserve_ordered_prog tx_err ck now a sa na, reserve_ordered_prog tx_err ck now2 b sb nb]) S \<and> deadlocked waits S) \<and>
    (\<forall>ts S. distinct (reserved_orders ts) \<and> (\<forall>i \<in> set (reserved_orders ts). \<not> has_row i d) \<and>
       rtranclp (lock_step waits) (lock_start d (map (reversed_prog tx_err ck now) ts)) S \<longrightarrow> \<not> deadlocked waits S) \<and>
    (\<forall>i res. first_row (\<lambda>r. rv_order_id r = i) (reservations (biz d)) = Inr res \<and> rv_status res \<noteq> ReservationStatusReleased \<and>
       ck (rv_sku res) = ck sa \<longrightarrow>
       (\<exists>S. rtranclp (lock_step waits) (lock_start d (map (reversed_prog tx_err ck now) [Reserves i sa na, Releases i])) S \<and>
         deadlocked waits S))"
proof (intro conjI allI impI)
  show "\<exists>S. rtranclp (lock_step waits) (lock_start d
      [reserve_ordered_prog tx_err ck now a sa na, reserve_ordered_prog tx_err ck now2 b sb nb]) S \<and> deadlocked waits S"
    by (rule ordered_deadlocks [OF assms])
next
  fix ts S
  assume "distinct (reserved_orders ts) \<and> (\<forall>i \<in> set (reserved_orders ts). \<not> has_row i d) \<and>
    rtranclp (lock_step waits) (lock_start d (map (reversed_prog tx_err ck now) ts)) S"
  with reversed_never_deadlocks [OF assms(1)] show "\<not> deadlocked waits S" by blast
next
  fix i res
  assume "first_row (\<lambda>r. rv_order_id r = i) (reservations (biz d)) = Inr res \<and> rv_status res \<noteq> ReservationStatusReleased \<and>
    ck (rv_sku res) = ck sa"
  with reversed_release_deadlocks [OF assms(1) _ _ _ stock(1), where tx_err = tx_err and now = now]
  show "\<exists>S. rtranclp (lock_step waits) (lock_start d (map (reversed_prog tx_err ck now) [Reserves i sa na, Releases i])) S \<and>
      deadlocked waits S" by simp
qed

text \<open>
  Two users order SKU-1 at the same time, with ten pieces in stock and one reserved for order 1.  In the reversed order the
  second one waits for the product of the first, and that is all; but order 1, reserved again while it is released, deadlocks.
\<close>

definition held_piece :: reservation where
  "held_piece = \<lparr>rv_id = 1, rv_order_id = 1, rv_sku = ''SKU-1'', rv_quantity = 1, rv_status = ReservationStatusReserved, rv_created_at = 0\<rparr>"

definition ten_pieces :: "int \<Rightarrow> inventory_db" where
  "ten_pieces n = \<lparr>biz = \<lparr>products = [\<lparr>p_sku = ''SKU-1'', p_total = 11, p_available = n\<rparr>], reservations = [held_piece],
     next_reservation_id = 2\<rparr>, outbox = \<lparr>ob_rows = [], ob_next_id = 1\<rparr>, processed = []\<rparr>"

lemma take_of_ten:
  assumes "q \<le> n" "0 < q" "n \<le> 10"
  shows "exec_tx (decrement_available (\<lambda>s. s) ''SKU-1'' q :: (inventory_db, unit, int \<times> go_error option) tx) [] (ten_pieces n) =
    (Inr (1, None), ten_pieces (n - q))"
  using assms by (simp add: ten_pieces_def decrement_available_def update_available_def update_rows_def int_column_def run_simps Let_def)

lemma second_waits:
  "\<exists>S'. lock_step must_wait \<lparr>lk_db = d, lk_workers =
      [\<lparr>wk_prog = take_step tx_err ck now i s n, wk_held = [], wk_inserted = []\<rparr>,
       \<lparr>wk_prog = take_step tx_err ck now i' s n', wk_held = h, wk_inserted = l\<rparr>]\<rparr> S' \<and> waits_for must_wait S' 1 0"
  if "\<forall>x \<in> set h. \<not> must_wait (LockProduct (ck s)) x"
  by (rule exI, rule conjI, rule runs_first) (use that in \<open>simp_all add: take_step_def statement_def waits_for_def\<close>)

lemma lock_orders_witness:
  "\<exists>S S' S''. rtranclp (lock_step must_wait) (lock_start (ten_pieces 10)
        [reserve_ordered_prog (\<lambda>_. None) (\<lambda>s. s) 0 2 ''SKU-1'' 2, reserve_ordered_prog (\<lambda>_. None) (\<lambda>s. s) 0 3 ''SKU-1'' 3]) S \<and>
     deadlocked must_wait S \<and>
     rtranclp (lock_step must_wait) (lock_start (ten_pieces 10)
        (map (reversed_prog (\<lambda>_. None) (\<lambda>s. s) 0) [Reserves 2 ''SKU-1'' 2, Reserves 3 ''SKU-1'' 3])) S' \<and>
     waits_for must_wait S' 1 0 \<and> \<not> deadlocked must_wait S' \<and>
     rtranclp (lock_step must_wait) (lock_start (ten_pieces 10)
        (map (reversed_prog (\<lambda>_. None) (\<lambda>s. s) 0) [Reserves 1 ''SKU-1'' 2, Releases 1])) S'' \<and> deadlocked must_wait S''"
proof -
  let ?ts = "[Reserves 2 ''SKU-1'' 2, Reserves 3 ''SKU-1'' 3]"
  let ?start = "lock_start (ten_pieces 10) (map (reversed_prog (\<lambda>_. None) (\<lambda>s. s) 0) ?ts)"
  let ?w = "\<lambda>i n. \<lparr>wk_prog = take_step (\<lambda>_. None) (\<lambda>s. s) 0 i ''SKU-1'' n, wk_held = [], wk_inserted = []\<rparr>"
  have db: "innodb must_wait" by (simp add: innodb_def)
  have "?start = \<lparr>lk_db = ten_pieces 10, lk_workers = [?w 2 2, ?w 3 3]\<rparr>"
    by (simp add: lock_start_def reserve_reversed_prog_def)
  with second_waits obtain S' where S': "lock_step must_wait ?start S'" "waits_for must_wait S' 1 0"
    by (metis empty_iff list.set(1))
  have new: "\<forall>r \<in> set (reservations (biz (ten_pieces 10))). rv_order_id r < 2 \<and> rv_order_id r < 3"
    and orders: "distinct (reserved_orders ?ts) \<and> (\<forall>i \<in> set (reserved_orders ?ts). \<not> has_row i (ten_pieces 10))"
    by (simp_all add: ten_pieces_def held_piece_def reserved_orders_def has_row_def)
  have two_three: "(2::nat) \<noteq> 3" by simp
  have stock: "exec_tx (decrement_available (\<lambda>s. s) ''SKU-1'' 2 :: (inventory_db, unit, int \<times> go_error option) tx) [] (ten_pieces 10) =
      (Inr (1, None), ten_pieces 8)"
    "exec_tx (decrement_available (\<lambda>s. s) ''SKU-1'' 3 :: (inventory_db, unit, int \<times> go_error option) tx) [] (ten_pieces 8) =
      (Inr (1, None), ten_pieces 5)"
    using take_of_ten [of 2 10] take_of_ten [of 3 8] by simp_all
  note all_three = lock_orders [where tx_err = "\<lambda>_. None" and now = 0 and ?now2.0 = 0, OF db new two_three stock]
  from conjunct1 [OF all_three] obtain S where "rtranclp (lock_step must_wait) (lock_start (ten_pieces 10)
      [reserve_ordered_prog (\<lambda>_. None) (\<lambda>s. s) 0 2 ''SKU-1'' 2, reserve_ordered_prog (\<lambda>_. None) (\<lambda>s. s) 0 3 ''SKU-1'' 3]) S"
    "deadlocked must_wait S" by blast
  moreover have "\<not> deadlocked must_wait S'"
    by (rule conjunct1 [OF conjunct2 [OF all_three], THEN spec, THEN spec, THEN mp, of ?ts])
      (intro conjI orders [THEN conjunct1] orders [THEN conjunct2] r_into_rtranclp S')
  moreover have "first_row (\<lambda>r. rv_order_id r = 1) (reservations (biz (ten_pieces 10))) = Inr held_piece \<and>
      rv_status held_piece \<noteq> ReservationStatusReleased \<and> rv_sku held_piece = ''SKU-1''"
    by (simp add: ten_pieces_def held_piece_def first_row_def)
  from conjunct2 [OF conjunct2 [OF all_three], THEN spec, THEN spec, THEN mp, OF this] obtain S'' where
    "rtranclp (lock_step must_wait) (lock_start (ten_pieces 10)
        (map (reversed_prog (\<lambda>_. None) (\<lambda>s. s) 0) [Reserves 1 ''SKU-1'' 2, Releases 1])) S''" "deadlocked must_wait S''" by blast
  ultimately show ?thesis using S' by (blast intro: r_into_rtranclp)
qed

end
